(* ===== verification/Prelude.thy ===== *)
theory Prelude
  imports Main "HOL-Library.Word" "HOL-Library.Multiset"
begin

text \<open>
  Shared vocabulary of the development: Go errors as values with the wrapping structure that
  \<open>errors.Is\<close> and \<open>errors.As\<close> inspect, the outcome of a Go call (a result, a returned error or a
  panic) with its sequencing operators, and the generic lemmas on folds and lists that the component
  theories share.
\<close>

named_theorems outcome_intros \<open>rules that build a successful outcome\<close>
named_theorems outcome_dests \<open>rules that take a successful outcome apart\<close>


section \<open>Errors\<close>

text \<open>
  An error value of Go is a chain: \<open>fmt.Errorf\<close> with \<open>%w\<close> keeps the wrapped error reachable
  (\<open>FmtW\<close>), with \<open>%v\<close> only its text survives (\<open>FmtV\<close>).  The leaves are the sentinels the program
  compares against, operating system error numbers, and plain messages.  The formatted text itself is
  kept as the source's format string.
\<close>

datatype sentinel =
    ContextCanceled
  | ContextDeadlineExceeded
  | OsErrDeadlineExceeded
  | OsErrPermission
  | OsErrNotExist
  | ErrServerClosed
  | ErrLinkNotReady
  | ErrLinkChange
  | ErrRetriesExhausted

datatype errno = EPERM | EACCES | ENOENT | EAGAIN | ETIMEDOUT | ErrnoOther nat

datatype go_error =
    Msg string
  | FmtV string go_error
  | FmtW string go_error
  | Sentinel sentinel
  | Errno errno
  | SyscallError string go_error
  | PathError string go_error
  | OpError string string go_error

text \<open>\<open>errno_is\<close> is \<open>syscall.Errno.Is\<close> restricted to the sentinels in use.\<close>

fun errno_is :: "errno \<Rightarrow> sentinel \<Rightarrow> bool" where
  "errno_is EPERM t = (t = OsErrPermission)"
| "errno_is EACCES t = (t = OsErrPermission)"
| "errno_is ENOENT t = (t = OsErrNotExist)"
| "errno_is _ t = False"

text \<open>\<open>errors_is e t\<close> is \<open>errors.Is(e, t)\<close>: the chain is unwrapped until an element matches.\<close>

fun errors_is :: "go_error \<Rightarrow> sentinel \<Rightarrow> bool" where
  "errors_is (Msg _) t = False"
| "errors_is (FmtV _ _) t = False"
| "errors_is (FmtW _ e) t = errors_is e t"
| "errors_is (Sentinel s) t = (s = t)"
| "errors_is (Errno n) t = errno_is n t"
| "errors_is (SyscallError _ e) t = errors_is e t"
| "errors_is (PathError _ e) t = errors_is e t"
| "errors_is (OpError _ _ e) t = errors_is e t"

text \<open>\<open>as_syscall e\<close> is \<open>errors.As(e, &serr)\<close> for \<open>serr *os.SyscallError\<close>: the first match.\<close>

fun as_syscall :: "go_error \<Rightarrow> go_error option" where
  "as_syscall (SyscallError c e) = Some (SyscallError c e)"
| "as_syscall (FmtW _ e) = as_syscall e"
| "as_syscall (PathError _ e) = as_syscall e"
| "as_syscall (OpError _ _ e) = as_syscall e"
| "as_syscall _ = None"

text \<open>\<open>as_op_error e\<close> is \<open>errors.As(e, &oerr)\<close> for \<open>oerr *net.OpError\<close>.\<close>

fun as_op_error :: "go_error \<Rightarrow> (string \<times> string \<times> go_error) option" where
  "as_op_error (OpError op n e) = Some (op, n, e)"
| "as_op_error (FmtW _ e) = as_op_error e"
| "as_op_error (SyscallError _ e) = as_op_error e"
| "as_op_error (PathError _ e) = as_op_error e"
| "as_op_error _ = None"


section \<open>Outcomes\<close>

datatype 'a outcome = Ok 'a | Err go_error | Panic string

fun bindO :: "'a outcome \<Rightarrow> ('a \<Rightarrow> 'b outcome) \<Rightarrow> 'b outcome" where
  "bindO (Ok x) f = f x"
| "bindO (Err e) f = Err e"
| "bindO (Panic p) f = Panic p"

text \<open>
  \<open>wrapErr w m\<close> is the idiom \<open>if err != nil { return ..., w(err) }\<close>: an error is replaced by the
  wrapped one, a panic passes through.
\<close>

fun wrapErr :: "(go_error \<Rightarrow> go_error) \<Rightarrow> 'a outcome \<Rightarrow> 'a outcome" where
  "wrapErr w (Ok x) = Ok x"
| "wrapErr w (Err e) = Err (w e)"
| "wrapErr w (Panic p) = Panic p"

definition guardO :: "bool \<Rightarrow> go_error \<Rightarrow> unit outcome" where
  "guardO bad e = (if bad then Err e else Ok ())"

fun is_Ok :: "'a outcome \<Rightarrow> bool" where
  "is_Ok (Ok _) = True"
| "is_Ok _ = False"

fun is_Panic :: "'a outcome \<Rightarrow> bool" where
  "is_Panic (Panic _) = True"
| "is_Panic _ = False"

fun foldO :: "('s \<Rightarrow> 'a \<Rightarrow> 's outcome) \<Rightarrow> 's \<Rightarrow> 'a list \<Rightarrow> 's outcome" where
  "foldO f s [] = Ok s"
| "foldO f s (x # xs) = bindO (f s x) (\<lambda>s'. foldO f s' xs)"

fun mapO :: "('a \<Rightarrow> 'b outcome) \<Rightarrow> 'a list \<Rightarrow> 'b list outcome" where
  "mapO f [] = Ok []"
| "mapO f (x # xs) = bindO (f x) (\<lambda>y. bindO (mapO f xs) (\<lambda>ys. Ok (y # ys)))"

lemma bindO_Ok_iff: "bindO m f = Ok y \<longleftrightarrow> (\<exists>x. m = Ok x \<and> f x = Ok y)"
  by (cases m) auto

lemma bindO_Ok_right [simp]: "bindO m Ok = m"
  by (cases m) auto

lemma bindO_assoc: "bindO (bindO m f) g = bindO m (\<lambda>x. bindO (f x) g)"
  by (cases m) auto

lemma bindO_Panic_iff:
  "is_Panic (bindO m f) \<longleftrightarrow> is_Panic m \<or> (\<exists>x. m = Ok x \<and> is_Panic (f x))"
  by (cases m) auto

lemma bindO_not_Panic [outcome_intros]:
  "\<not> is_Panic m \<Longrightarrow> (\<And>x. m = Ok x \<Longrightarrow> \<not> is_Panic (f x)) \<Longrightarrow> \<not> is_Panic (bindO m f)"
  by (auto simp: bindO_Panic_iff)

lemma wrapErr_Ok_iff [simp]: "wrapErr w m = Ok x \<longleftrightarrow> m = Ok x"
  by (cases m) auto

lemma wrapErr_is_Panic [simp]: "is_Panic (wrapErr w m) \<longleftrightarrow> is_Panic m"
  by (cases m) auto

lemma wrapErr_is_Ok [simp]: "is_Ok (wrapErr w m) \<longleftrightarrow> is_Ok m"
  by (cases m) auto

lemma guardO_Ok_iff [simp]: "guardO b e = Ok u \<longleftrightarrow> \<not> b"
  by (simp add: guardO_def)

lemma guardO_not_Panic [simp]: "\<not> is_Panic (guardO b e)"
  by (simp add: guardO_def)

lemma guardO_simps [simp]: "guardO True e = Err e" "guardO False e = Ok ()"
  by (simp_all add: guardO_def)

lemma is_Ok_iff: "is_Ok m \<longleftrightarrow> (\<exists>x. m = Ok x)"
  by (cases m) auto

lemma foldO_append: "foldO f s (xs @ ys) = bindO (foldO f s xs) (\<lambda>s'. foldO f s' ys)"
  by (induction xs arbitrary: s) (auto simp: bindO_assoc)

text \<open>The loop rule: an invariant kept by every successful iteration holds at the end.\<close>

lemma foldO_invariant:
  assumes "foldO f s xs = Ok t" and "P s"
    and "\<And>s x s'. x \<in> set xs \<Longrightarrow> P s \<Longrightarrow> f s x = Ok s' \<Longrightarrow> P s'"
  shows "P t"
  using assms
proof (induction xs arbitrary: s)
  case Nil
  then show ?case by simp
next
  case (Cons x xs)
  then obtain s' where s': "f s x = Ok s'" "foldO f s' xs = Ok t"
    by (auto simp: bindO_Ok_iff)
  have "P s'" using Cons.prems(2,3) s'(1) by auto
  then show ?case
    using Cons.IH[OF s'(2)] Cons.prems(3) by auto
qed

lemma foldO_no_panic:
  assumes "\<And>s x. x \<in> set xs \<Longrightarrow> \<not> is_Panic (f s x)"
  shows "\<not> is_Panic (foldO f s xs)"
  using assms by (induction xs arbitrary: s) (auto simp: bindO_Panic_iff)

text \<open>A loop whose body always appends some items to an accumulator collects them in order.\<close>

lemma foldO_collect:
  assumes "\<And>ps x. x \<in> set xs \<Longrightarrow> f ps x = Ok (ps @ g x)"
  shows "foldO f ps xs = Ok (ps @ concat (map g xs))"
  using assms by (induction xs arbitrary: ps) auto

lemma mapO_Ok_iff: "mapO f xs = Ok ys \<longleftrightarrow> list_all2 (\<lambda>x y. f x = Ok y) xs ys"
proof (induction xs arbitrary: ys)
  case Nil
  then show ?case by auto
next
  case (Cons x xs)
  then show ?case
    by (cases ys) (auto simp: bindO_Ok_iff list_all2_Cons1)
qed

lemma mapO_Ok_length: "mapO f xs = Ok ys \<Longrightarrow> length ys = length xs"
  by (auto simp: mapO_Ok_iff dest: list_all2_lengthD)

lemma mapO_Ok_set:
  assumes "mapO f xs = Ok ys" and "y \<in> set ys"
  shows "\<exists>x \<in> set xs. f x = Ok y"
  using assms by (induction xs arbitrary: ys) (auto simp: bindO_Ok_iff)

lemma mapO_no_panic:
  assumes "\<And>x. x \<in> set xs \<Longrightarrow> \<not> is_Panic (f x)"
  shows "\<not> is_Panic (mapO f xs)"
  using assms by (induction xs) (auto simp: bindO_Panic_iff)

text \<open>A loop whose successful iterations append what \<open>g\<close> computes to a measured part of the state.\<close>

lemma foldO_appends:
  assumes "foldO f s xs = Ok t"
    and "\<And>s x s'. f s x = Ok s' \<Longrightarrow> \<exists>y. g x = Ok y \<and> m s' = m s @ y"
  shows "\<exists>ys. mapO g xs = Ok ys \<and> m t = m s @ concat ys"
  using assms(1)
proof (induction xs arbitrary: s)
  case Nil
  then show ?case by simp
next
  case (Cons x xs)
  then obtain s' where s': "f s x = Ok s'" "foldO f s' xs = Ok t"
    by (auto simp: bindO_Ok_iff)
  obtain y where "g x = Ok y" "m s' = m s @ y" using assms(2)[OF s'(1)] by blast
  moreover obtain ys where "mapO g xs = Ok ys" "m t = m s' @ concat ys" using Cons.IH[OF s'(2)] by blast
  ultimately show ?case by auto
qed

end
