(* ===== verification/Netip.thy ===== *)
theory Netip
  imports Prelude "HOL-Library.Product_Lexorder" "HOL-Library.List_Lexorder" "HOL-Library.Char_ord"
begin

text \<open>
  The types \<open>Addr\<close> and \<open>Prefix\<close> of Go's \<open>net/netip\<close>, with the predicates and operations the program
  uses: address classes, comparison, masking, containment and overlap.  An IPv6 address is a 128-bit
  word with a zone; the zero value of each type is a constructor or a length of -1 of its own.  The
  lemmas describe masking and containment by the leading bits of an address, which is what the route
  and prefix selection of the program relies on.
\<close>

unbundle bit_operations_syntax

type_synonym u8 = "8 word"
type_synonym u32 = "32 word"
type_synonym u128 = "128 word"


section \<open>Addresses\<close>

datatype addr = AddrZero | Addr4 u32 | Addr6 u128 string

definition IPv6Unspecified :: addr where "IPv6Unspecified = Addr6 0 []"
definition IPv4Unspecified :: addr where "IPv4Unspecified = Addr4 0"
definition IPv6LinkLocalAllNodes :: addr where
  "IPv6LinkLocalAllNodes = Addr6 0xff020000000000000000000000000001 []"
definition IPv6LinkLocalAllRouters :: addr where
  "IPv6LinkLocalAllRouters = Addr6 0xff020000000000000000000000000002 []"

fun addr_IsValid :: "addr \<Rightarrow> bool" where
  "addr_IsValid AddrZero = False"
| "addr_IsValid _ = True"

fun Is4 :: "addr \<Rightarrow> bool" where
  "Is4 (Addr4 _) = True"
| "Is4 _ = False"

fun Is6 :: "addr \<Rightarrow> bool" where
  "Is6 (Addr6 _ _) = True"
| "Is6 _ = False"

fun Is4In6 :: "addr \<Rightarrow> bool" where
  "Is4In6 (Addr6 w _) = (drop_bit 32 w = 0xffff)"
| "Is4In6 _ = False"

fun addr_BitLen :: "addr \<Rightarrow> int" where
  "addr_BitLen AddrZero = 0"
| "addr_BitLen (Addr4 _) = 32"
| "addr_BitLen (Addr6 _ _) = 128"

fun addr_Zone :: "addr \<Rightarrow> string" where
  "addr_Zone (Addr6 _ z) = z"
| "addr_Zone _ = []"

text \<open>\<open>WithZone\<close> changes IPv6 addresses only.\<close>

fun WithZone :: "addr \<Rightarrow> string \<Rightarrow> addr" where
  "WithZone (Addr6 w _) z = Addr6 w z"
| "WithZone a z = a"

fun addr_Unmap :: "addr \<Rightarrow> addr" where
  "addr_Unmap (Addr6 w z) = (if drop_bit 32 w = 0xffff then Addr4 (ucast w) else Addr6 w z)"
| "addr_Unmap a = a"

text \<open>The 16 bytes of an address, IPv4 in its mapped form; byte 0 is the most significant.\<close>

fun As16_word :: "addr \<Rightarrow> u128" where
  "As16_word AddrZero = 0"
| "As16_word (Addr4 w) = 0xffff00000000 OR ucast w"
| "As16_word (Addr6 w _) = w"

definition As16_byte :: "addr \<Rightarrow> nat \<Rightarrow> u8" where
  "As16_byte a i = ucast (drop_bit (8 * (15 - i)) (As16_word a))"

definition IsUnspecified :: "addr \<Rightarrow> bool" where
  "IsUnspecified a \<longleftrightarrow> a = IPv4Unspecified \<or> a = IPv6Unspecified"

text \<open>The class predicates look through the IPv4-mapped form, as the library does.\<close>

fun IsLinkLocalUnicast :: "addr \<Rightarrow> bool" where
  "IsLinkLocalUnicast AddrZero = False"
| "IsLinkLocalUnicast (Addr4 w) = (drop_bit 16 w = 0xa9fe)"
| "IsLinkLocalUnicast (Addr6 w z) =
     (if drop_bit 32 w = 0xffff then drop_bit 16 (ucast w :: u32) = 0xa9fe
      else drop_bit 118 w = 0x3fa)"

fun IsLoopback :: "addr \<Rightarrow> bool" where
  "IsLoopback AddrZero = False"
| "IsLoopback (Addr4 w) = (drop_bit 24 w = 127)"
| "IsLoopback (Addr6 w z) =
     (if drop_bit 32 w = 0xffff then drop_bit 24 (ucast w :: u32) = 127 else w = 1)"

fun IsMulticast :: "addr \<Rightarrow> bool" where
  "IsMulticast AddrZero = False"
| "IsMulticast (Addr4 w) = (drop_bit 28 w = 0xe)"
| "IsMulticast (Addr6 w z) =
     (if drop_bit 32 w = 0xffff then drop_bit 28 (ucast w :: u32) = 0xe
      else drop_bit 120 w = 0xff)"

definition priv4 :: "u32 \<Rightarrow> bool" where
  "priv4 w \<longleftrightarrow> drop_bit 24 w = 10 \<or> drop_bit 20 w = 0xac1 \<or> drop_bit 16 w = 0xc0a8"

fun IsPrivate :: "addr \<Rightarrow> bool" where
  "IsPrivate AddrZero = False"
| "IsPrivate (Addr4 w) = priv4 w"
| "IsPrivate (Addr6 w z) =
     (if drop_bit 32 w = 0xffff then priv4 (ucast w) else drop_bit 121 w = 0x7e)"

definition IsGlobalUnicast :: "addr \<Rightarrow> bool" where
  "IsGlobalUnicast a \<longleftrightarrow>
     a \<noteq> AddrZero \<and>
     (let b = addr_Unmap a
      in b \<noteq> IPv4Unspecified \<and> b \<noteq> Addr4 0xffffffff \<and>
         \<not> IsUnspecified b \<and> \<not> IsLoopback b \<and> \<not> IsMulticast b \<and> \<not> IsLinkLocalUnicast b)"

text \<open>
  \<open>Compare\<close> orders by length, then by value, then by zone.  The library's order on products of the
  three gives the type its linear order, so that sorting by \<open>Compare\<close> is sorting by it.
\<close>

fun addr_key :: "addr \<Rightarrow> int \<times> int \<times> string" where
  "addr_key AddrZero = (0, 0, [])"
| "addr_key (Addr4 w) = (32, uint w, [])"
| "addr_key (Addr6 w z) = (128, uint w, z)"

lemma addr_key_inj: "addr_key a = addr_key b \<longleftrightarrow> a = b"
  by (cases a; cases b) (auto simp: word_uint_eq_iff)

instantiation addr :: linorder
begin

definition less_eq_addr :: "addr \<Rightarrow> addr \<Rightarrow> bool" where
  "less_eq_addr a b \<longleftrightarrow> addr_key a \<le> addr_key b"

definition less_addr :: "addr \<Rightarrow> addr \<Rightarrow> bool" where
  "less_addr a b \<longleftrightarrow> addr_key a < addr_key b"

instance
proof
  fix x y z :: addr
  show "(x < y) = (x \<le> y \<and> \<not> y \<le> x)"
    unfolding less_addr_def less_eq_addr_def by (rule less_le_not_le)
  show "x \<le> x" by (simp add: less_eq_addr_def)
  show "x \<le> y \<Longrightarrow> y \<le> z \<Longrightarrow> x \<le> z"
    unfolding less_eq_addr_def by (rule order_trans)
  show "x \<le> y \<Longrightarrow> y \<le> x \<Longrightarrow> x = y"
    unfolding less_eq_addr_def by (metis addr_key_inj antisym)
  show "x \<le> y \<or> y \<le> x"
    unfolding less_eq_addr_def by (rule linear)
qed

end

definition addr_Compare :: "addr \<Rightarrow> addr \<Rightarrow> int" where
  "addr_Compare a b = (if a < b then -1 else if b < a then 1 else 0)"


section \<open>Prefixes\<close>

text \<open>\<open>Bits\<close> is -1 for an invalid prefix; \<open>PrefixFrom\<close> drops the zone and keeps the address.\<close>

datatype ipprefix = Pfx (pfx_Addr: addr) (pfx_Bits: int)

definition pfx_zero :: ipprefix where "pfx_zero = Pfx AddrZero (-1)"

definition PrefixFrom :: "addr \<Rightarrow> int \<Rightarrow> ipprefix" where
  "PrefixFrom ip bits =
     Pfx (WithZone ip [])
         (if ip \<noteq> AddrZero \<and> 0 \<le> bits \<and> bits \<le> addr_BitLen ip then bits else -1)"

definition pfx_IsValid :: "ipprefix \<Rightarrow> bool" where
  "pfx_IsValid p \<longleftrightarrow> 0 \<le> pfx_Bits p"

definition pfx_IsSingleIP :: "ipprefix \<Rightarrow> bool" where
  "pfx_IsSingleIP p \<longleftrightarrow> pfx_IsValid p \<and> pfx_Bits p = addr_BitLen (pfx_Addr p)"

text \<open>\<open>Addr.Prefix(b)\<close>: the address with all but the first \<open>b\<close> bits cleared.\<close>

definition keep_bits :: "nat \<Rightarrow> 'a::len word \<Rightarrow> 'a word" where
  "keep_bits b w = push_bit (LENGTH('a) - b) (drop_bit (LENGTH('a) - b) w)"

fun addr_Prefix :: "addr \<Rightarrow> int \<Rightarrow> ipprefix" where
  "addr_Prefix AddrZero b = pfx_zero"
| "addr_Prefix (Addr4 w) b =
     (if b < 0 \<or> b > 32 then pfx_zero else Pfx (Addr4 (keep_bits (nat b) w)) b)"
| "addr_Prefix (Addr6 w z) b =
     (if b < 0 \<or> b > 128 then pfx_zero else Pfx (Addr6 (keep_bits (nat b) w) []) b)"

definition pfx_Masked :: "ipprefix \<Rightarrow> ipprefix" where
  "pfx_Masked p = addr_Prefix (pfx_Addr p) (pfx_Bits p)"

text \<open>\<open>same_head b v w\<close>: the first \<open>b\<close> bits of \<open>v\<close> and \<open>w\<close> agree.\<close>

definition same_head :: "nat \<Rightarrow> 'a::len word \<Rightarrow> 'a word \<Rightarrow> bool" where
  "same_head b v w \<longleftrightarrow> drop_bit (LENGTH('a) - b) (v XOR w) = 0"

fun pfx_Contains :: "ipprefix \<Rightarrow> addr \<Rightarrow> bool" where
  "pfx_Contains (Pfx (Addr4 p) b) (Addr4 w) = (0 \<le> b \<and> same_head (nat b) w p)"
| "pfx_Contains (Pfx (Addr6 p _) b) (Addr6 w z) = (0 \<le> b \<and> z = [] \<and> same_head (nat b) w p)"
| "pfx_Contains _ _ = False"

definition pfx_Overlaps :: "ipprefix \<Rightarrow> ipprefix \<Rightarrow> bool" where
  "pfx_Overlaps p q =
     (if \<not> pfx_IsValid p \<or> \<not> pfx_IsValid q then False
      else if p = q then True
      else if Is4 (pfx_Addr p) \<noteq> Is4 (pfx_Addr q) then False
      else let m = min (pfx_Bits p) (pfx_Bits q)
           in if m = 0 then True
              else pfx_Addr (addr_Prefix (pfx_Addr p) m) = pfx_Addr (addr_Prefix (pfx_Addr q) m))"


subsection \<open>Leading bits\<close>

lemma word_xor_eq_0_iff: "v XOR w = 0 \<longleftrightarrow> v = (w :: 'a::len word)"
  by (metis xor.assoc xor.left_neutral xor.right_neutral xor_self_eq)

lemma same_head_iff:
  "same_head b v w \<longleftrightarrow> drop_bit (LENGTH('a) - b) v = drop_bit (LENGTH('a::len) - b) (w :: 'a word)"
  by (simp add: same_head_def word_xor_eq_0_iff)

lemma same_head_refl [simp]: "same_head b w w"
  by (simp add: same_head_iff)

lemma same_head_sym: "same_head b v w \<longleftrightarrow> same_head b w v"
  by (auto simp: same_head_iff)

lemma same_head_trans: "same_head b u v \<Longrightarrow> same_head b v w \<Longrightarrow> same_head b u w"
  by (auto simp: same_head_iff)

lemma same_head_shorter:
  assumes "same_head b v (w :: 'a::len word)" and "a \<le> b"
  shows "same_head a v w"
proof -
  have e: "LENGTH('a) - a = (LENGTH('a) - a - (LENGTH('a) - b)) + (LENGTH('a) - b)"
    using assms(2) by simp
  have split: "drop_bit (LENGTH('a) - a) u
      = drop_bit (LENGTH('a) - a - (LENGTH('a) - b)) (drop_bit (LENGTH('a) - b) u)" for u :: "'a word"
    by (subst e) (simp only: drop_bit_drop_bit)
  show ?thesis
    using assms(1) unfolding same_head_iff split[of v] split[of w] by (simp only:)
qed

lemma same_head_0 [simp]: "same_head 0 v w"
  by (simp add: same_head_iff)

lemma drop_bit_keep_bits:
  "drop_bit (LENGTH('a) - b) (keep_bits b (w :: 'a::len word)) = drop_bit (LENGTH('a) - b) w"
  by (auto simp: keep_bits_def bit_simps intro!: bit_eqI dest: bit_imp_le_length)

lemma same_head_keep_bits [simp]: "same_head b (keep_bits b w) w"
  by (simp add: same_head_iff drop_bit_keep_bits)

lemma keep_bits_eq_iff: "keep_bits b v = keep_bits b w \<longleftrightarrow> same_head b v w"
  unfolding same_head_iff by (metis drop_bit_keep_bits keep_bits_def)

lemma keep_bits_idem [simp]: "keep_bits b (keep_bits b w) = keep_bits b w"
  by (simp add: keep_bits_eq_iff)

end
