(* ===== verification/GoTime.thy ===== *)
theory GoTime
  imports Prelude "HOL-Library.Log_Nat"
begin

text \<open>
  The parts of Go's standard library \<open>time\<close> that the program computes with: durations (signed 64-bit
  nanosecond counts, kept as \<open>int\<close> with the wrap-around of \<open>+\<close>, \<open>-\<close> and \<open>*\<close> written out), \<open>Truncate\<close>,
  \<open>Round\<close>, the IEEE binary64 arithmetic behind \<open>Seconds\<close> and behind products such as
  \<open>0.33 * float64(d)\<close>, \<open>time.ParseDuration\<close>, and instants.
\<close>


section \<open>Durations\<close>

type_synonym duration = int

abbreviation Microsecond :: duration where "Microsecond \<equiv> 1000"
abbreviation Millisecond :: duration where "Millisecond \<equiv> 1000000"
abbreviation Second :: duration where "Second \<equiv> 1000000000"
abbreviation Minute :: duration where "Minute \<equiv> 60000000000"
abbreviation Hour :: duration where "Hour \<equiv> 3600000000000"

definition min_int64 :: int where "min_int64 = - (2 ^ 63)"
definition max_int64 :: int where "max_int64 = 2 ^ 63 - 1"

definition wrap64 :: "int \<Rightarrow> int" where
  "wrap64 x = (x + 2 ^ 63) mod 2 ^ 64 - 2 ^ 63"

definition in_int64 :: "int \<Rightarrow> bool" where
  "in_int64 x \<longleftrightarrow> min_int64 \<le> x \<and> x \<le> max_int64"

lemma wrap64_in_int64: "in_int64 (wrap64 x)"
proof -
  have "0 \<le> (x + 2 ^ 63) mod 2 ^ 64" "(x + 2 ^ 63) mod 2 ^ 64 < (2 ^ 64 :: int)"
    by (simp_all add: pos_mod_bound)
  then show ?thesis
    unfolding in_int64_def wrap64_def min_int64_def max_int64_def by simp
qed

lemma wrap64_id: "in_int64 x \<Longrightarrow> wrap64 x = x"
  by (simp add: in_int64_def wrap64_def min_int64_def max_int64_def)

text \<open>Go's \<open>/\<close> and \<open>%\<close> truncate towards zero.\<close>

definition go_div :: "int \<Rightarrow> int \<Rightarrow> int" where
  "go_div a b = sgn a * sgn b * (\<bar>a\<bar> div \<bar>b\<bar>)"

definition go_rem :: "int \<Rightarrow> int \<Rightarrow> int" where
  "go_rem a b = sgn a * (\<bar>a\<bar> mod \<bar>b\<bar>)"

lemma go_div_nonneg: "0 \<le> a \<Longrightarrow> 0 < b \<Longrightarrow> go_div a b = a div b"
  by (cases "a = 0") (auto simp: go_div_def)

lemma go_rem_nonneg: "0 \<le> a \<Longrightarrow> 0 < b \<Longrightarrow> go_rem a b = a mod b"
  by (cases "a = 0") (auto simp: go_rem_def)

text \<open>\<open>Duration.Truncate\<close> and \<open>Duration.Round\<close> (half away from zero).\<close>

definition dur_Truncate :: "duration \<Rightarrow> duration \<Rightarrow> duration" where
  "dur_Truncate d m = (if m \<le> 0 then d else d - go_rem d m)"

definition dur_Round :: "duration \<Rightarrow> duration \<Rightarrow> duration" where
  "dur_Round d m =
     (if m \<le> 0 then d
      else if d < 0 then
        (let r = - go_rem d m
         in if r + r < m then d + r
            else let d1 = wrap64 (d - m + r) in if d1 < d then d1 else min_int64)
      else
        (let r = go_rem d m
         in if r + r < m then d - r
            else let d1 = wrap64 (d + m - r) in if d < d1 then d1 else max_int64))"

lemma dur_Truncate_nonneg:
  "0 \<le> d \<Longrightarrow> 0 < m \<Longrightarrow> dur_Truncate d m = m * (d div m)"
  by (simp add: dur_Truncate_def go_rem_nonneg minus_mod_eq_mult_div)

lemma dur_Round_nonneg:
  assumes "0 \<le> d" and "0 < m" and "d + m \<le> max_int64"
  shows "dur_Round d m = m * ((2 * d + m) div (2 * m))"
proof -
  define q r where "q = d div m" and "r = d mod m"
  have d: "d = m * q + r" and r: "0 \<le> r" "r < m"
    using assms(2) by (simp_all add: q_def r_def)
  have lo: "in_int64 (d + m - r)"
    using assms r by (simp add: in_int64_def min_int64_def)
  have fits: "wrap64 (d + m - r) = d + m - r"
    by (rule wrap64_id[OF lo])
  have eq: "go_rem d m = r" using assms by (simp add: go_rem_nonneg r_def)
  show ?thesis
  proof (cases "r + r < m")
    case True
    have "(2 * d + m) div (2 * m) = q"
    proof -
      have "(2 * d + m) div (2 * m) = ((2 * r + m) + q * (2 * m)) div (2 * m)"
        using d by (simp add: algebra_simps)
      also have "\<dots> = q + (2 * r + m) div (2 * m)"
        using assms(2) by (intro div_mult_self1) simp
      also have "(2 * r + m) div (2 * m) = 0" using True r by (simp add: div_pos_pos_trivial)
      finally show ?thesis by simp
    qed
    then show ?thesis using True assms d eq by (simp add: dur_Round_def Let_def)
  next
    case False
    have "(2 * d + m) div (2 * m) = q + 1"
    proof -
      have "(2 * d + m) div (2 * m) = ((2 * r - m) + (q + 1) * (2 * m)) div (2 * m)"
        using d by (simp add: algebra_simps)
      also have "\<dots> = q + 1 + (2 * r - m) div (2 * m)"
        using assms(2) by (intro div_mult_self1) simp
      also have "(2 * r - m) div (2 * m) = 0" using False r by (simp add: div_pos_pos_trivial)
      finally show ?thesis by simp
    qed
    then show ?thesis using False assms d eq fits r
      by (simp add: dur_Round_def Let_def algebra_simps)
  qed
qed

lemma dur_Round_error:
  assumes "0 \<le> d" and "0 < m" and "d + m \<le> max_int64"
  shows "2 * \<bar>dur_Round d m - d\<bar> \<le> m"
proof -
  define k where "k = (2 * d + m) div (2 * m)"
  define w where "w = m * k"
  have "2 * m * k = (2 * d + m) - (2 * d + m) mod (2 * m)"
    unfolding k_def by (rule minus_mod_eq_mult_div[symmetric])
  moreover have "0 \<le> (2 * d + m) mod (2 * m)" "(2 * d + m) mod (2 * m) < 2 * m"
    using assms(2) by (simp_all add: pos_mod_bound)
  ultimately have "2 * w \<le> 2 * d + m" "2 * d + m < 2 * w + 2 * m"
    unfolding w_def by (simp_all add: mult.assoc)
  then show ?thesis
    unfolding dur_Round_nonneg[OF assms] k_def[symmetric] w_def[symmetric] by arith
qed


section \<open>Binary64\<close>

text \<open>
  A finite \<open>float64\<close> is \<open>F m e\<close> for the value \<open>m * 2 ^ e\<close>.  \<open>fl p q\<close> is the double nearest to the
  fraction \<open>p / q\<close>, ties to even: the fraction is scaled so that its integral part has 53 bits and
  rounded there.  Subnormals and overflow do not occur at the magnitudes the program uses.
\<close>

datatype f64 = F int int

definition round_half_even :: "int \<Rightarrow> int \<Rightarrow> int" where
  "round_half_even n d =
     (let q = n div d; r = n mod d
      in if 2 * r < d then q else if d < 2 * r then q + 1 else if even q then q else q + 1)"

definition fl_shift :: "int \<Rightarrow> int \<Rightarrow> int" where
  "fl_shift p q =
     (let s = 53 - (bitlen p - bitlen q)
      in if 2 ^ 53 * (q * 2 ^ nat (- s)) \<le> p * 2 ^ nat s then s - 1 else s)"

definition fl :: "int \<Rightarrow> int \<Rightarrow> f64" where
  "fl p q =
     (if p = 0 then F 0 0
      else let s = fl_shift \<bar>p\<bar> q
           in F (sgn p * round_half_even (\<bar>p\<bar> * 2 ^ nat s) (q * 2 ^ nat (- s))) (- s))"

fun f_shift :: "int \<Rightarrow> f64 \<Rightarrow> f64" where
  "f_shift k (F m e) = F m (e + k)"

definition f_of_int :: "int \<Rightarrow> f64" where
  "f_of_int n = fl n 1"

fun f_mul :: "f64 \<Rightarrow> f64 \<Rightarrow> f64" where
  "f_mul (F m1 e1) (F m2 e2) = f_shift (e1 + e2) (fl (m1 * m2) 1)"

text \<open>Division by a positive double, the only kind the program performs.\<close>

fun f_div :: "f64 \<Rightarrow> f64 \<Rightarrow> f64" where
  "f_div (F m1 e1) (F m2 e2) = f_shift (e1 - e2) (fl m1 m2)"

fun f_add :: "f64 \<Rightarrow> f64 \<Rightarrow> f64" where
  "f_add (F m1 e1) (F m2 e2) =
     (let e = min e1 e2 in f_shift e (fl (m1 * 2 ^ nat (e1 - e) + m2 * 2 ^ nat (e2 - e)) 1))"

text \<open>Conversion of a double to an integer drops the fraction.\<close>

fun f_trunc :: "f64 \<Rightarrow> int" where
  "f_trunc (F m e) = (if 0 \<le> e then m * 2 ^ nat e else go_div m (2 ^ nat (- e)))"

definition dur_Seconds :: "duration \<Rightarrow> f64" where
  "dur_Seconds d =
     f_add (f_of_int (go_div d Second)) (f_div (f_of_int (go_rem d Second)) (f_of_int Second))"

text \<open>\<open>int(d.Seconds())\<close> and \<open>int(d.Milliseconds())\<close>.\<close>

definition seconds_int :: "duration \<Rightarrow> int" where
  "seconds_int d = f_trunc (dur_Seconds d)"

definition dur_Milliseconds :: "duration \<Rightarrow> int" where
  "dur_Milliseconds d = go_div d Millisecond"

text \<open>The value of a double as a real number, for the error analysis only.\<close>

fun f_val :: "f64 \<Rightarrow> real" where
  "f_val (F m e) = of_int m * 2 powr of_int e"

lemma f_val_shift: "f_val (f_shift k x) = f_val x * 2 powr of_int k"
  by (cases x) (simp add: powr_add)

lemma round_half_even_error:
  assumes "0 < d"
  shows "\<bar>real_of_int (round_half_even n d) - n / d\<bar> \<le> 1 / 2"
proof -
  define q r where "q = n div d" and "r = n mod d"
  have n: "n = d * q + r" and r: "0 \<le> r" "r < d"
    using assms by (simp_all add: q_def r_def)
  have frac: "real_of_int n / d = q + r / d"
    using assms by (simp add: n add_divide_distrib)
  have r01: "0 \<le> real_of_int r / d" "real_of_int r / d < 1"
    using r assms by simp_all
  consider "2 * r < d" | "2 * r = d" | "d < 2 * r" by linarith
  then show ?thesis
  proof cases
    case 1
    then have "real_of_int r / d < 1 / 2" using assms by (simp add: field_simps)
    then show ?thesis using 1 r01
      unfolding round_half_even_def Let_def q_def[symmetric] r_def[symmetric] frac by simp
  next
    case 2
    then have half: "real_of_int r / d = 1 / 2" using assms by (simp add: field_simps)
    have "\<not> 2 * r < d" "\<not> d < 2 * r" using 2 by auto
    then show ?thesis
      unfolding round_half_even_def Let_def q_def[symmetric] r_def[symmetric] frac half by simp
  next
    case 3
    then have "1 / 2 < real_of_int r / d" using assms by (simp add: field_simps)
    then show ?thesis using 3 r01
      unfolding round_half_even_def Let_def q_def[symmetric] r_def[symmetric] frac by simp
  qed
qed

lemma round_half_even_exact: "0 < d \<Longrightarrow> round_half_even (k * d) d = k"
  by (simp add: round_half_even_def)

lemma f_trunc_floor:
  assumes "0 \<le> m"
  shows "f_trunc (F m e) = \<lfloor>f_val (F m e)\<rfloor>"
proof (cases "0 \<le> e")
  case True
  then have "f_val (F m e) = of_int (m * 2 ^ nat e)"
    by (simp add: powr_int)
  then show ?thesis using True by (simp only: floor_of_int f_trunc.simps if_True)
next
  case False
  then have "f_val (F m e) = real_of_int m / real_of_int (2 ^ nat (- e))"
    by (simp add: powr_int powr_minus_divide divide_inverse)
  then have "\<lfloor>f_val (F m e)\<rfloor> = m div 2 ^ nat (- e)"
    by (simp only: floor_divide_of_int_eq)
  then show ?thesis using False assms by (simp add: go_div_nonneg)
qed


lemma scaled_fraction:
  assumes "0 < q"
  shows "real_of_int (p * 2 ^ nat s) / real_of_int (q * 2 ^ nat (- s)) = p / q * 2 powr of_int s"
proof (cases "0 \<le> s")
  case True
  then show ?thesis by (simp add: powr_int)
next
  case False
  then show ?thesis by (simp add: powr_int divide_inverse)
qed

lemma bitlen_real_bounds:
  assumes "0 < (p::int)"
  shows "2 powr (of_int (bitlen p) - 1) \<le> real_of_int p" "real_of_int p < 2 powr (of_int (bitlen p))"
proof -
  have b: "1 \<le> bitlen p"
    using assms by (metis bitlen_eq_zero_iff bitlen_nonneg int_one_le_iff_zero_less le_less linorder_not_le)
  have "2 ^ nat (bitlen p - 1) \<le> p" "p < 2 ^ nat (bitlen p)"
    using bitlen_bounds[OF assms] by auto
  then have "(2::real) ^ nat (bitlen p - 1) \<le> of_int p" "of_int p < (2::real) ^ nat (bitlen p)"
    by (metis of_int_le_iff of_int_numeral of_int_power, metis of_int_less_iff of_int_numeral of_int_power)
  moreover have "(2::real) ^ nat (bitlen p - 1) = 2 powr (of_int (bitlen p) - 1)"
    using b by (metis diff_ge_0_iff_ge of_int_1 of_int_diff powr_int powr_realpow zero_less_numeral
        of_nat_nat)
  moreover have "(2::real) ^ nat (bitlen p) = 2 powr (of_int (bitlen p))"
    using b by (simp add: powr_int)
  ultimately show "2 powr (of_int (bitlen p) - 1) \<le> real_of_int p" "real_of_int p < 2 powr (of_int (bitlen p))"
    by simp_all
qed

definition first_shift :: "int \<Rightarrow> int \<Rightarrow> int" where
  "first_shift p q = 53 - (bitlen p - bitlen q)"

lemma first_shift_bounds:
  assumes p: "0 < (p::int)" and q: "0 < (q::int)"
  shows "2 ^ 52 \<le> p / q * 2 powr of_int (first_shift p q)" and "p / q * 2 powr of_int (first_shift p q) < 2 ^ 54"
proof -
  have pos: "0 < real_of_int p" "0 < real_of_int q" using p q by simp_all
  have "2 powr (of_int (bitlen p) - 1) / 2 powr (of_int (bitlen q)) \<le> p / q"
    using bitlen_real_bounds[OF p] bitlen_real_bounds[OF q] pos by (intro frac_le) auto
  then have "2 powr (of_int (bitlen p) - 1) / 2 powr (of_int (bitlen q)) * 2 powr of_int (first_shift p q)
      \<le> p / q * 2 powr of_int (first_shift p q)"
    by (intro mult_right_mono) auto
  moreover have "2 powr (of_int (bitlen p) - 1) / 2 powr (of_int (bitlen q)) * 2 powr of_int (first_shift p q)
      = (2::real) powr 52"
    by (simp add: first_shift_def flip: powr_diff powr_add)
  ultimately show "2 ^ 52 \<le> p / q * 2 powr of_int (first_shift p q)" by simp
  have "p / q < 2 powr (of_int (bitlen p)) / 2 powr (of_int (bitlen q) - 1)"
    using bitlen_real_bounds[OF p] bitlen_real_bounds[OF q] pos by (intro frac_less) auto
  then have "p / q * 2 powr of_int (first_shift p q)
      < 2 powr (of_int (bitlen p)) / 2 powr (of_int (bitlen q) - 1) * 2 powr of_int (first_shift p q)"
    by (intro mult_strict_right_mono) auto
  moreover have "2 powr (of_int (bitlen p)) / 2 powr (of_int (bitlen q) - 1) * 2 powr of_int (first_shift p q)
      = (2::real) powr 54"
    by (simp add: first_shift_def flip: powr_diff powr_add)
  ultimately show "p / q * 2 powr of_int (first_shift p q) < 2 ^ 54" by simp
qed

lemma scaled_test:
  assumes q: "0 < (q::int)"
  shows "2 ^ 53 * (q * 2 ^ nat (- k)) \<le> p * 2 ^ nat k \<longleftrightarrow> 2 ^ 53 \<le> p / q * 2 powr of_int k"
proof -
  have D: "0 < real_of_int (q * 2 ^ nat (- k))" using q by simp
  have "2 ^ 53 \<le> p / q * 2 powr of_int k \<longleftrightarrow>
      2 ^ 53 * real_of_int (q * 2 ^ nat (- k)) \<le> real_of_int (p * 2 ^ nat k)"
    unfolding scaled_fraction[OF q, symmetric] using pos_le_divide_eq[OF D] by simp
  also have "\<dots> \<longleftrightarrow> 2 ^ 53 * (q * 2 ^ nat (- k)) \<le> p * 2 ^ nat k"
    by (metis of_int_le_iff of_int_mult of_int_numeral of_int_power)
  finally show ?thesis by simp
qed

lemma fl_shift_bounds:
  assumes p: "0 < (p::int)" and q: "0 < (q::int)"
  shows "2 ^ 52 \<le> p / q * 2 powr of_int (fl_shift p q)" "p / q * 2 powr of_int (fl_shift p q) < 2 ^ 53"
proof -
  let ?s = "first_shift p q" and ?x = "\<lambda>s. p / q * 2 powr of_int s"
  have halve: "?x (?s - 1) = ?x ?s / 2" by (simp add: powr_diff)
  have sh: "fl_shift p q = (if 2 ^ 53 \<le> ?x ?s then ?s - 1 else ?s)"
    unfolding fl_shift_def Let_def first_shift_def[symmetric] using scaled_test[OF q] by simp
  have "2 ^ 52 \<le> ?x (fl_shift p q) \<and> ?x (fl_shift p q) < 2 ^ 53"
  proof (cases "2 ^ 53 \<le> ?x ?s")
    case True
    then have "?x (fl_shift p q) = ?x ?s / 2" using sh halve by (simp only: if_True)
    moreover have "2 ^ 52 \<le> x / 2 \<and> x / 2 < 2 ^ 53" if "2 ^ 53 \<le> x" "x < 2 ^ 54" for x :: real
      using that by simp
    ultimately show ?thesis using True first_shift_bounds(2)[OF p q] by (simp only:)
  next
    case False
    then have "fl_shift p q = ?s" using sh by (simp only: if_False)
    then show ?thesis using False first_shift_bounds(1)[OF p q] by (simp only: not_le)
  qed
  then show "2 ^ 52 \<le> ?x (fl_shift p q)" "?x (fl_shift p q) < 2 ^ 53" by blast+
qed

text \<open>The rounding error of a positive fraction is at most half a unit in the last place.\<close>

lemma fl_error:
  assumes p: "0 < (p::int)" and q: "0 < (q::int)"
  shows "\<bar>f_val (fl p q) - p / q\<bar> \<le> p / q * 2 powr (- 53)"
proof -
  define s where "s = fl_shift p q"
  define m where "m = round_half_even (p * 2 ^ nat s) (q * 2 ^ nat (- s))"
  let ?x = "real_of_int p / real_of_int q"
  have "\<bar>real_of_int m - real_of_int (p * 2 ^ nat s) / real_of_int (q * 2 ^ nat (- s))\<bar> \<le> 1 / 2"
    unfolding m_def using q by (intro round_half_even_error) simp
  then have e: "\<bar>real_of_int m - ?x * 2 powr of_int s\<bar> \<le> 1 / 2"
    unfolding scaled_fraction[OF q] .
  have lo: "2 ^ 52 \<le> ?x * 2 powr of_int s"
    using fl_shift_bounds[OF p q] by (simp add: s_def)
  have v: "f_val (fl p q) = real_of_int m * 2 powr (- of_int s)"
    using p by (simp add: fl_def Let_def s_def m_def)
  have "f_val (fl p q) - ?x = (real_of_int m - ?x * 2 powr of_int s) * 2 powr (- of_int s)"
    unfolding v by (simp add: algebra_simps flip: powr_add)
  then have "\<bar>f_val (fl p q) - ?x\<bar> = \<bar>real_of_int m - ?x * 2 powr of_int s\<bar> * 2 powr (- of_int s)"
    by (simp add: abs_mult)
  also have "\<dots> \<le> 1 / 2 * 2 powr (- of_int s)"
    using e by (intro mult_right_mono) auto
  also have "\<dots> \<le> (?x * 2 powr of_int s * 2 powr (- 53)) * 2 powr (- of_int s)"
  proof (intro mult_right_mono)
    have "1 / 2 = (2::real) ^ 52 * 2 powr (- 53)"
      by (simp add: powr_minus_divide)
    also have "\<dots> \<le> ?x * 2 powr of_int s * 2 powr (- 53)"
      using lo by (intro mult_right_mono) auto
    finally show "1 / 2 \<le> ?x * 2 powr of_int s * 2 powr (- 53)" .
  qed simp
  also have "\<dots> = ?x * 2 powr (- 53)"
    by (simp add: algebra_simps flip: powr_add)
  finally show ?thesis by simp
qed


lemma round_half_even_mono_bounds:
  assumes "0 < d" and "d * k \<le> n"
  shows "k \<le> round_half_even n d"
proof -
  have "k \<le> n div d" using zdiv_mono1[OF assms(2,1)] assms(1) by simp
  then show ?thesis by (simp add: round_half_even_def Let_def)
qed

text \<open>Integers of at most 53 bits are represented exactly.\<close>

lemma fl_exact:
  assumes "0 \<le> p" and "p < 2 ^ 53"
  shows "f_val (fl p 1) = of_int p"
proof (cases "p = 0")
  case True
  then show ?thesis by (simp add: fl_def)
next
  case False
  then have p: "0 < p" using assms by simp
  define s where "s = fl_shift p 1"
  have "\<not> s < 0"
  proof
    assume "s < 0"
    then have "2 powr real_of_int s \<le> 2 powr (- 1)" by (intro powr_mono) auto
    then have "of_int p * 2 powr real_of_int s \<le> of_int p * 2 powr (- 1)"
      using p by (intro mult_left_mono) auto
    also have "\<dots> < 2 ^ 52"
    proof -
      have "real_of_int p < real_of_int (2 ^ 53)" using assms(2) by (simp only: of_int_less_iff)
      then show ?thesis by (simp add: powr_minus_divide)
    qed
    finally show False using fl_shift_bounds(1)[OF p, of 1] by (simp add: s_def)
  qed
  then have s: "0 \<le> s" by simp
  then have "fl p 1 = F (p * 2 ^ nat s) (- s)"
    using p round_half_even_exact[of 1 "p * 2 ^ nat s"] by (simp add: fl_def Let_def s_def[symmetric])
  moreover have "(2::real) ^ nat s * 2 powr (- of_int s) = 1"
    using s by (simp add: powr_minus powr_int)
  ultimately show ?thesis by simp
qed

lemma fl_sig_nonneg:
  assumes "0 \<le> p" and "0 < q"
  obtains m e where "fl p q = F m e" and "0 \<le> m"
proof -
  have "0 \<le> round_half_even n d" if "0 \<le> n" "0 < d" for n d :: int
    using round_half_even_mono_bounds[of d 0 n] that by simp
  then show thesis using assms that by (cases "p = 0") (auto simp: fl_def Let_def)
qed


lemma fl_sig_pos:
  assumes p: "0 < (p::int)" and q: "0 < (q::int)" and f: "fl p q = F m e"
  shows "0 < m"
proof -
  have pq: "0 < real_of_int p / of_int q" using p q by simp
  have "2 powr (- 53) < (1::real)" by (simp add: powr_minus_divide)
  then have "real_of_int p / of_int q * 2 powr (- 53) < real_of_int p / of_int q"
    using pq mult_strict_left_mono[OF _ pq, of "2 powr (- 53)" 1] by simp
  then have "0 < f_val (fl p q)" using fl_error[OF p q] by linarith
  then show ?thesis using f by (simp add: zero_less_mult_iff)
qed

lemma f_mul_error:
  assumes "0 < m1" and "0 < m2"
  shows "\<bar>f_val (f_mul (F m1 e1) (F m2 e2)) - f_val (F m1 e1) * f_val (F m2 e2)\<bar>
    \<le> f_val (F m1 e1) * f_val (F m2 e2) * 2 powr (- 53)"
proof -
  let ?c = "2 powr real_of_int (e1 + e2)"
  have v: "f_val (F m1 e1) * f_val (F m2 e2) = real_of_int (m1 * m2) * ?c"
    by (simp add: powr_add)
  have "\<bar>f_val (fl (m1 * m2) 1) - real_of_int (m1 * m2)\<bar> \<le> real_of_int (m1 * m2) * 2 powr (- 53)"
    using fl_error[of "m1 * m2" 1] assms by simp
  moreover have "\<bar>x * c - y * c\<bar> \<le> y * c * t" if "\<bar>x - y\<bar> \<le> y * t" "0 \<le> c" for x y c t :: real
  proof -
    have "\<bar>x * c - y * c\<bar> = \<bar>x - y\<bar> * c"
      using that(2) by (simp add: abs_mult flip: left_diff_distrib)
    also have "\<dots> \<le> y * t * c" using that by (rule mult_right_mono)
    finally show ?thesis by (simp add: ac_simps)
  qed
  ultimately have "\<bar>f_val (fl (m1 * m2) 1) * ?c - real_of_int (m1 * m2) * ?c\<bar>
      \<le> real_of_int (m1 * m2) * ?c * 2 powr (- 53)"
    by simp
  then show ?thesis
    unfolding v f_mul.simps f_val_shift .
qed


text \<open>
  \<open>time.Duration(c * float64(d))\<close> for a positive constant \<open>c\<close>, and how far its result can be from
  the exact product.
\<close>

definition scale_duration :: "f64 \<Rightarrow> duration \<Rightarrow> duration" where
  "scale_duration c d = f_trunc (f_mul c (f_of_int d))"

lemma scale_duration_bounds:
  fixes m e d :: int
  assumes "0 < m" and "0 < d" and "d < 2 ^ 53"
  defines "y \<equiv> f_val (F m e) * of_int d"
  shows "real_of_int (scale_duration (F m e) d) \<le> y * (1 + 2 powr (- 53))"
    and "y * (1 - 2 powr (- 53)) < real_of_int (scale_duration (F m e) d) + 1"
    and "0 \<le> scale_duration (F m e) d"
proof -
  obtain m2 e2 where f: "fl d 1 = F m2 e2" by (cases "fl d 1")
  have m2: "0 < m2" using fl_sig_pos[OF assms(2) _ f] by simp
  have v2: "f_val (F m2 e2) = of_int d"
    using fl_exact[of d] assms(2,3) f by simp
  obtain m3 e3 where p: "fl (m * m2) 1 = F m3 e3" by (cases "fl (m * m2) 1")
  have "0 < m3" using fl_sig_pos[OF _ _ p] assms(1) m2 by simp
  then have m3: "0 \<le> m3" by simp
  have prod: "f_mul (F m e) (F m2 e2) = F m3 (e3 + (e + e2))"
    by (simp add: p)
  have err: "\<bar>f_val (F m3 (e3 + (e + e2))) - y\<bar> \<le> y * 2 powr (- 53)"
    using f_mul_error[OF assms(1) m2, of e e2] unfolding v2 prod y_def .
  have tr: "scale_duration (F m e) d = \<lfloor>f_val (F m3 (e3 + (e + e2)))\<rfloor>"
    unfolding scale_duration_def f_of_int_def f prod by (rule f_trunc_floor[OF m3])
  have up: "f_val (F m3 (e3 + (e + e2))) \<le> y + y * 2 powr (- 53)"
    and lo: "y - y * 2 powr (- 53) \<le> f_val (F m3 (e3 + (e + e2)))" using err by linarith+
  show "real_of_int (scale_duration (F m e) d) \<le> y * (1 + 2 powr (- 53))"
    using up unfolding tr by (simp add: distrib_left del: f_val.simps) linarith
  show "y * (1 - 2 powr (- 53)) < real_of_int (scale_duration (F m e) d) + 1"
    using lo unfolding tr by (simp add: right_diff_distrib del: f_val.simps) linarith
  show "0 \<le> scale_duration (F m e) d"
    using m3 unfolding tr by simp
qed


section \<open>Instants\<close>

text \<open>
  An instant is a count of nanoseconds; the zero \<open>time.Time\<close> is 0.  \<open>t.Sub(u)\<close> saturates at the
  range of a duration.
\<close>

type_synonym instant = int

definition time_IsZero :: "instant \<Rightarrow> bool" where
  "time_IsZero t \<longleftrightarrow> t = 0"

definition time_Add :: "instant \<Rightarrow> duration \<Rightarrow> instant" where
  "time_Add t d = t + d"

definition time_Sub :: "instant \<Rightarrow> instant \<Rightarrow> duration" where
  "time_Sub t u = max min_int64 (min max_int64 (t - u))"

lemma time_Sub_pos: "u < t \<Longrightarrow> 0 < time_Sub t u"
  by (simp add: time_Sub_def min_int64_def max_int64_def)

lemma time_Sub_le: "u \<le> t \<Longrightarrow> time_Sub t u \<le> t - u"
  by (simp add: time_Sub_def min_int64_def max_int64_def)

lemma time_Sub_mono: "t \<le> t' \<Longrightarrow> u' \<le> u \<Longrightarrow> time_Sub t u \<le> time_Sub t' u'"
  by (simp add: time_Sub_def)

lemma time_Sub_eq: "in_int64 (t - u) \<Longrightarrow> time_Sub t u = t - u"
  by (simp add: time_Sub_def in_int64_def)

end
