(* ===== verification/GoDuration.thy ===== *)
theory GoDuration
  imports GoTime
begin

text \<open>
  \<open>time.ParseDuration\<close> of Go's standard library, on byte strings: an optional sign, then one or more
  groups of a decimal number and a unit.  Integer parts are accumulated in 64 bits with the library's
  overflow checks, fractions go through binary64.
\<close>

type_synonym ascii = nat

abbreviation byte_of :: "char \<Rightarrow> ascii" where
  "byte_of c \<equiv> of_char c"

definition is_digit :: "char \<Rightarrow> bool" where
  "is_digit c \<longleftrightarrow> 48 \<le> byte_of c \<and> byte_of c \<le> 57"

definition digit_val :: "char \<Rightarrow> int" where
  "digit_val c = int (byte_of c) - 48"

lemma digit_val_range: "is_digit c \<Longrightarrow> 0 \<le> digit_val c \<and> digit_val c \<le> 9"
  by (auto simp: is_digit_def digit_val_def)

text \<open>\<open>leadingInt\<close>: the value and the rest, or nothing when it exceeds \<open>1<<63\<close>.\<close>

fun leadingInt :: "int \<Rightarrow> string \<Rightarrow> (int \<times> string) option" where
  "leadingInt x [] = Some (x, [])"
| "leadingInt x (c # s) =
     (if \<not> is_digit c then Some (x, c # s)
      else if x > 2 ^ 63 div 10 then None
      else let x' = x * 10 + digit_val c
           in if x' > 2 ^ 63 then None else leadingInt x' s)"

text \<open>\<open>leadingFraction\<close>: digits beyond the precision of 64 bits are skipped.\<close>

fun leadingFraction :: "int \<Rightarrow> f64 \<Rightarrow> bool \<Rightarrow> string \<Rightarrow> int \<times> f64 \<times> string" where
  "leadingFraction x sc ovf [] = (x, sc, [])"
| "leadingFraction x sc ovf (c # s) =
     (if \<not> is_digit c then (x, sc, c # s)
      else if ovf then leadingFraction x sc ovf s
      else if x > max_int64 div 10 then leadingFraction x sc True s
      else let y = x * 10 + digit_val c
           in if y > 2 ^ 63 then leadingFraction x sc True s
              else leadingFraction y (f_mul sc (f_of_int 10)) ovf s)"

definition unit_of :: "string \<Rightarrow> int option" where
  "unit_of u =
     (if u = ''ns'' then Some 1
      else if u = ''us'' \<or> u = [CHR 0xC2, CHR 0xB5, CHR ''s''] \<or> u = [CHR 0xCE, CHR 0xBC, CHR ''s'']
        then Some Microsecond
      else if u = ''ms'' then Some Millisecond
      else if u = ''s'' then Some Second
      else if u = ''m'' then Some Minute
      else if u = ''h'' then Some Hour
      else None)"

text \<open>A unit extends to the next period or digit.\<close>

definition unit_char :: "char \<Rightarrow> bool" where
  "unit_char c \<longleftrightarrow> c \<noteq> CHR ''.'' \<and> \<not> is_digit c"

lemma leadingInt_length: "leadingInt x s = Some (v, r) \<Longrightarrow> length r \<le> length s"
  by (induction x s rule: leadingInt.induct) (auto simp: Let_def split: if_splits)

lemma leadingFraction_length:
  "leadingFraction x sc ovf s = (v, sc', r) \<Longrightarrow> length r \<le> length s"
  by (induction x sc ovf s rule: leadingFraction.induct) (auto simp: Let_def split: if_splits)

lemma leadingInt_range:
  "leadingInt x s = Some (v, r) \<Longrightarrow> 0 \<le> x \<Longrightarrow> x \<le> 2 ^ 63 \<Longrightarrow> 0 \<le> v \<and> v \<le> 2 ^ 63"
proof (induction x s rule: leadingInt.induct)
  case (2 x c s)
  then show ?case
    using digit_val_range[of c] by (auto simp: Let_def split: if_splits)
qed auto

definition invalid_duration :: go_error where
  "invalid_duration = Msg ''time: invalid duration''"

text \<open>
  One group of the loop: the nanoseconds it stands for and the rest of the input.
\<close>

definition parse_group :: "string \<Rightarrow> (int \<times> string) outcome" where
  "parse_group s =
     (if \<not> (case s of [] \<Rightarrow> False | c # _ \<Rightarrow> c = CHR ''.'' \<or> is_digit c) then Err invalid_duration
      else case leadingInt 0 s of
        None \<Rightarrow> Err invalid_duration
      | Some (v, s1) \<Rightarrow>
          (let pre = length s1 \<noteq> length s;
               dot = (case s1 of [] \<Rightarrow> False | c # _ \<Rightarrow> c = CHR ''.'');
               fr = (if dot then leadingFraction 0 (F 1 0) False (tl s1) else (0, F 1 0, s1));
               f = fst fr; sc = fst (snd fr); s2 = snd (snd fr);
               post = dot \<and> length s2 \<noteq> length (tl s1);
               u = takeWhile unit_char s2; s3 = dropWhile unit_char s2
           in if \<not> pre \<and> \<not> post then Err invalid_duration
              else if u = [] then Err (Msg ''time: missing unit in duration'')
              else case unit_of u of
                None \<Rightarrow> Err (Msg ''time: unknown unit in duration'')
              | Some unit \<Rightarrow>
                  if v > 2 ^ 63 div unit then Err invalid_duration
                  else let w = v * unit;
                           w' = (if f > 0 then w + f_trunc (f_mul (f_of_int f) (f_div (f_of_int unit) sc))
                                 else w)
                       in if f > 0 \<and> w' > 2 ^ 63 then Err invalid_duration
                          else Ok (w', s3)))"

lemma parse_group_shorter:
  assumes "parse_group s = Ok (w, r)"
  shows "length r < length s"
proof -
  from assms obtain v s1 where li: "leadingInt 0 s = Some (v, s1)"
    by (auto simp: parse_group_def split: if_splits option.splits)
  define dot where "dot = (case s1 of [] \<Rightarrow> False | c # _ \<Rightarrow> c = CHR ''.'')"
  define fr where "fr = (if dot then leadingFraction 0 (F 1 0) False (tl s1) else (0, F 1 0, s1))"
  define s2 where "s2 = snd (snd fr)"
  have l1: "length s1 \<le> length s" using leadingInt_length[OF li] .
  have l2: "length s2 \<le> length s1"
  proof (cases dot)
    case True
    then have "length s2 \<le> length (tl s1)"
      using leadingFraction_length[of 0 "F 1 0" False "tl s1"] unfolding s2_def fr_def
      by (metis prod.collapse)
    then show ?thesis by simp
  next
    case False
    then show ?thesis by (simp add: s2_def fr_def)
  qed
  have u: "takeWhile unit_char s2 \<noteq> []" and r: "r = dropWhile unit_char s2"
    using assms li unfolding parse_group_def
    by (auto simp: Let_def s2_def fr_def dot_def split: if_splits option.splits list.splits)
  have "length r < length s2"
    using u r by (metis length_append length_greater_0_conv less_add_same_cancel2
        takeWhile_dropWhile_id)
  then show ?thesis using l1 l2 by simp
qed

text \<open>
  The loop adds the groups up in an unsigned 64-bit accumulator, so the addition of two halves of
  the range wraps before the check.
\<close>

function parse_groups :: "int \<Rightarrow> string \<Rightarrow> int outcome" where
  "parse_groups d s =
     (if s = [] then Ok d
      else case parse_group s of
        Err e \<Rightarrow> Err e
      | Panic p \<Rightarrow> Panic p
      | Ok (v, r) \<Rightarrow>
          (let d' = (d + v) mod 2 ^ 64
           in if d' > 2 ^ 63 then Err invalid_duration else parse_groups d' r))"
  by pat_completeness auto
termination
  by (relation "measure (\<lambda>(d, s). length s)") (auto dest: parse_group_shorter)

declare parse_groups.simps [simp del]

definition ParseDuration :: "string \<Rightarrow> duration outcome" where
  "ParseDuration s =
     (let neg = (case s of c # _ \<Rightarrow> c = CHR ''-'' | [] \<Rightarrow> False);
          s1 = (case s of c # r \<Rightarrow> if c = CHR ''-'' \<or> c = CHR ''+'' then r else s | [] \<Rightarrow> s)
      in if s1 = ''0'' then Ok 0
         else if s1 = [] then Err invalid_duration
         else case parse_groups 0 s1 of
           Err e \<Rightarrow> Err e
         | Panic p \<Rightarrow> Panic p
         | Ok d \<Rightarrow> if neg then Ok (- d)
                   else if d > 2 ^ 63 - 1 then Err invalid_duration else Ok d)"

lemma parse_groups_range:
  "parse_groups d s = Ok r \<Longrightarrow> 0 \<le> d \<Longrightarrow> d \<le> 2 ^ 63 \<Longrightarrow> 0 \<le> r \<and> r \<le> 2 ^ 63"
proof (induction d s rule: parse_groups.induct)
  case (1 d s)
  show ?case
  proof (cases "s = []")
    case True
    then show ?thesis using 1 by (simp add: parse_groups.simps)
  next
    case False
    from False "1.prems"(1) obtain v t where g: "parse_group s = Ok (v, t)"
      by (subst (asm) parse_groups.simps) (auto split: outcome.splits)
    let ?d' = "(d + v) mod 2 ^ 64"
    have le: "\<not> ?d' > 2 ^ 63" and rec: "parse_groups ?d' t = Ok r"
      using False g "1.prems"(1)
      by (subst (asm) (1) parse_groups.simps, simp add: Let_def split: if_splits)+
    show ?thesis
      using "1.IH"[OF False g refl refl le rec] le by simp
  qed
qed

text \<open>Every parsed duration fits the type.\<close>

lemma ParseDuration_in_int64: "ParseDuration s = Ok d \<Longrightarrow> in_int64 d"
  using parse_groups_range[of 0]
  by (fastforce simp: ParseDuration_def Let_def in_int64_def min_int64_def max_int64_def
      split: if_splits outcome.splits)

lemma parse_group_no_panic: "\<not> is_Panic (parse_group s)"
  by (auto simp: parse_group_def Let_def split: option.splits)

lemma parse_groups_no_panic: "\<not> is_Panic (parse_groups d s)"
proof (induction d s rule: parse_groups.induct)
  case (1 d s)
  then show ?case
    using parse_group_no_panic[of s]
    by (subst parse_groups.simps) (auto simp: Let_def split: outcome.splits)
qed

lemma parse_groups_neq_Panic [simp]: "parse_groups d s \<noteq> Panic p"
  using parse_groups_no_panic[of d s] by auto

lemma ParseDuration_no_panic [simp]: "\<not> is_Panic (ParseDuration s)"
  by (auto simp: ParseDuration_def Let_def split: outcome.splits)

end
