(* ===== verification/NetipText.thy ===== *)
theory NetipText
  imports Netip GoDuration
begin

text \<open>
  The textual forms of \<open>net/netip\<close>: \<open>ParseAddr\<close>, \<open>ParsePrefix\<close> and the \<open>String\<close> methods of addresses
  and prefixes, as the configuration parser, the consistency checks and the HTTP interface use them.
\<close>


section \<open>Numbers\<close>

fun show_dec :: "nat \<Rightarrow> string" where
  "show_dec n = (if n < 10 then [char_of (48 + n)] else show_dec (n div 10) @ [char_of (48 + n mod 10)])"

declare show_dec.simps [simp del]

definition hex_char :: "nat \<Rightarrow> char" where
  "hex_char d = (if d < 10 then char_of (48 + d) else char_of (87 + d))"

fun show_hex :: "nat \<Rightarrow> string" where
  "show_hex n = (if n < 16 then [hex_char n] else show_hex (n div 16) @ [hex_char (n mod 16)])"

declare show_hex.simps [simp del]

definition show_int :: "int \<Rightarrow> string" where
  "show_int i = (if i < 0 then CHR ''-'' # show_dec (nat (- i)) else show_dec (nat i))"

definition is_hex :: "char \<Rightarrow> bool" where
  "is_hex c \<longleftrightarrow> is_digit c \<or> (97 \<le> byte_of c \<and> byte_of c \<le> 102) \<or> (65 \<le> byte_of c \<and> byte_of c \<le> 70)"

definition hex_val :: "char \<Rightarrow> nat" where
  "hex_val c =
     (if is_digit c then byte_of c - 48
      else if 97 \<le> byte_of c then byte_of c - 87 else byte_of c - 55)"

definition read_hex :: "string \<Rightarrow> nat" where
  "read_hex s = foldl (\<lambda>n c. 16 * n + hex_val c) 0 s"

definition read_dec :: "string \<Rightarrow> nat" where
  "read_dec s = foldl (\<lambda>n c. 10 * n + (byte_of c - 48)) 0 s"

text \<open>\<open>strings.Join\<close>.\<close>

fun str_join :: "string \<Rightarrow> string list \<Rightarrow> string" where
  "str_join sep [] = []"
| "str_join sep [s] = s"
| "str_join sep (s # t # r) = s @ sep @ str_join sep (t # r)"


section \<open>Parsing addresses\<close>

text \<open>
  \<open>parseIPv4Fields\<close>: the value and digit count of the current field, the finished fields, and
  whether the previous character was a dot or the start.
\<close>

fun ipv4_fields :: "nat \<Rightarrow> nat \<Rightarrow> nat list \<Rightarrow> bool \<Rightarrow> string \<Rightarrow> nat list outcome" where
  "ipv4_fields val n fs sep [] =
     (if length fs < 3 then Err (Msg ''IPv4 address too short'') else Ok (fs @ [val]))"
| "ipv4_fields val n fs sep (c # s) =
     (if is_digit c then
        (if n = 1 \<and> val = 0 then Err (Msg ''IPv4 field has octet with leading zero'')
         else let val' = val * 10 + (byte_of c - 48)
              in if val' > 255 then Err (Msg ''IPv4 field has value >255'')
                 else ipv4_fields val' (n + 1) fs False s)
      else if c = CHR ''.'' then
        (if sep \<or> s = [] then Err (Msg ''IPv4 field must have at least one digit'')
         else if length fs = 3 then Err (Msg ''IPv4 address too long'')
         else ipv4_fields 0 0 (fs @ [val]) True s)
      else Err (Msg ''unexpected character''))"

definition parse_ipv4 :: "string \<Rightarrow> addr outcome" where
  "parse_ipv4 s =
     bindO (ipv4_fields 0 0 [] True s)
       (\<lambda>fs. Ok (Addr4 (foldl (\<lambda>w b. push_bit 8 w OR of_nat b) 0 fs)))"

text \<open>
  The loop of \<open>parseIPv6\<close>: at most eight groups; it returns the groups read, the position of the
  \<open>::\<close> among them, and the unread input.
\<close>

fun v6_groups :: "nat \<Rightarrow> nat list \<Rightarrow> nat option \<Rightarrow> string \<Rightarrow> (nat list \<times> nat option \<times> string) outcome" where
  "v6_groups 0 gs ell s = Ok (gs, ell, s)"
| "v6_groups (Suc n) gs ell s =
     (let h = takeWhile is_hex s; r = dropWhile is_hex s
      in if length h > 4 then Err (Msg ''each group must have 4 or less digits'')
         else if h = [] then Err (Msg ''each colon-separated field must have at least one digit'')
         else if r \<noteq> [] \<and> hd r = CHR ''.'' then
           (if ell = None \<and> length gs \<noteq> 6 then
              Err (Msg ''embedded IPv4 address must replace the final 2 fields of the address'')
            else if length gs > 6 then
              Err (Msg ''too many hex fields to fit an embedded IPv4 at the end of the address'')
            else bindO (ipv4_fields 0 0 [] True s)
                   (\<lambda>fs. Ok (gs @ [256 * fs ! 0 + fs ! 1, 256 * fs ! 2 + fs ! 3], ell, [])))
         else let gs' = gs @ [read_hex h]
              in if r = [] then Ok (gs', ell, [])
                 else if hd r \<noteq> CHR '':'' then Err (Msg ''unexpected character, want colon'')
                 else if tl r = [] then Err (Msg ''colon must be followed by more characters'')
                 else if hd (tl r) = CHR '':'' then
                   (if ell \<noteq> None then Err (Msg ''multiple :: in address'')
                    else if tl (tl r) = [] then Ok (gs', Some (length gs'), [])
                    else v6_groups n gs' (Some (length gs')) (tl (tl r)))
                 else v6_groups n gs' ell (tl r))"

definition groups_word :: "nat list \<Rightarrow> u128" where
  "groups_word gs = foldl (\<lambda>w g. push_bit 16 w OR of_nat g) 0 gs"

definition v6_finish :: "string \<Rightarrow> nat list \<Rightarrow> nat option \<Rightarrow> string \<Rightarrow> addr outcome" where
  "v6_finish zone gs ell s =
     (if s \<noteq> [] then Err (Msg ''trailing garbage after address'')
      else if length gs < 8 then
        (case ell of
           None \<Rightarrow> Err (Msg ''address string too short'')
         | Some e \<Rightarrow> Ok (Addr6 (groups_word (take e gs @ replicate (8 - length gs) 0 @ drop e gs)) zone))
      else if ell \<noteq> None then Err (Msg ''the :: must expand to at least one field of zeros'')
      else Ok (Addr6 (groups_word gs) zone))"

definition parse_ipv6 :: "string \<Rightarrow> addr outcome" where
  "parse_ipv6 inp =
     (let s = takeWhile (\<lambda>c. c \<noteq> CHR ''%'') inp;
          zr = dropWhile (\<lambda>c. c \<noteq> CHR ''%'') inp
      in if zr \<noteq> [] \<and> tl zr = [] then Err (Msg ''zone must be a non-empty string'')
         else let zone = tl zr;
                  lead = (take 2 s = ''::'')
              in if lead \<and> drop 2 s = [] then Ok (Addr6 0 zone)
                 else bindO (v6_groups 8 [] (if lead then Some 0 else None) (if lead then drop 2 s else s))
                        (\<lambda>(gs, ell, r). v6_finish zone gs ell r))"

text \<open>\<open>ParseAddr\<close> decides by the first dot, colon or percent sign.\<close>

fun parse_addr_kind :: "string \<Rightarrow> char option" where
  "parse_addr_kind [] = None"
| "parse_addr_kind (c # s) =
     (if c = CHR ''.'' \<or> c = CHR '':'' \<or> c = CHR ''%'' then Some c else parse_addr_kind s)"

definition ParseAddr :: "string \<Rightarrow> addr outcome" where
  "ParseAddr s =
     (case parse_addr_kind s of
        None \<Rightarrow> Err (Msg ''unable to parse IP'')
      | Some c \<Rightarrow>
          if c = CHR ''.'' then parse_ipv4 s
          else if c = CHR '':'' then parse_ipv6 s
          else Err (Msg ''missing IPv6 address''))"

text \<open>\<open>ParsePrefix\<close> splits at the last slash; zones and padded lengths are refused.\<close>

definition last_slash :: "string \<Rightarrow> (string \<times> string) option" where
  "last_slash s =
     (let r = rev s; b = takeWhile (\<lambda>c. c \<noteq> CHR ''/'') r; a = dropWhile (\<lambda>c. c \<noteq> CHR ''/'') r
      in if a = [] then None else Some (rev (tl a), rev b))"

definition ParsePrefix :: "string \<Rightarrow> ipprefix outcome" where
  "ParsePrefix s =
     (case last_slash s of
        None \<Rightarrow> Err (Msg ''no slash'')
      | Some (a, b) \<Rightarrow>
          bindO (ParseAddr a) (\<lambda>ip.
            if Is6 ip \<and> addr_Zone ip \<noteq> [] then Err (Msg ''IPv6 zones cannot be present in a prefix'')
            else if length b > 1 \<and> (byte_of (hd b) < 49 \<or> 57 < byte_of (hd b)) then
              Err (Msg ''bad bits after slash'')
            else if b = [] \<or> \<not> list_all is_digit b then Err (Msg ''bad bits after slash'')
            else if int (read_dec b) > (if Is6 ip then 128 else 32) then
              Err (Msg ''prefix length out of range'')
            else Ok (PrefixFrom ip (int (read_dec b)))))"


section \<open>Printing addresses\<close>

definition word_groups :: "u128 \<Rightarrow> nat list" where
  "word_groups w = map (\<lambda>i. unat (take_bit 16 (drop_bit (16 * (7 - i)) w))) [0..<8]"

definition zero_run :: "nat list \<Rightarrow> nat \<Rightarrow> nat" where
  "zero_run gs i = length (takeWhile (\<lambda>g. g = 0) (drop i gs))"

text \<open>The first of the longest runs of at least two zero groups.\<close>

definition best_run :: "nat list \<Rightarrow> (nat \<times> nat) option" where
  "best_run gs =
     foldl (\<lambda>b i. let l = zero_run gs i
                  in if l \<ge> 2 \<and> l > (case b of None \<Rightarrow> 0 | Some (s, e) \<Rightarrow> e - s) then Some (i, i + l) else b)
       None [0..<8]"

definition show_v6 :: "u128 \<Rightarrow> string" where
  "show_v6 w =
     (let gs = word_groups w; hs = map show_hex gs
      in case best_run gs of
           None \<Rightarrow> str_join '':'' hs
         | Some (s, e) \<Rightarrow> str_join '':'' (take s hs) @ ''::'' @ str_join '':'' (drop e hs))"

definition show_v4 :: "u32 \<Rightarrow> string" where
  "show_v4 w =
     str_join ''.'' (map (\<lambda>i. show_dec (unat (take_bit 8 (drop_bit (8 * (3 - i)) w)))) [0..<4])"

fun addr_String :: "addr \<Rightarrow> string" where
  "addr_String AddrZero = ''invalid IP''"
| "addr_String (Addr4 w) = show_v4 w"
| "addr_String (Addr6 w z) =
     (if drop_bit 32 w = 0xffff then ''::ffff:'' @ show_v4 (ucast w) else show_v6 w) @
     (if z = [] then [] else CHR ''%'' # z)"

definition pfx_String :: "ipprefix \<Rightarrow> string" where
  "pfx_String p =
     (if \<not> pfx_IsValid p then ''invalid Prefix''
      else addr_String (pfx_Addr p) @ ''/'' @ show_int (pfx_Bits p))"

lemma ipv4_fields_no_panic: "\<not> is_Panic (ipv4_fields v n fs sep s)"
  by (induction v n fs sep s rule: ipv4_fields.induct) (auto simp: Let_def)

lemma v6_groups_no_panic: "\<not> is_Panic (v6_groups n gs ell s)"
  by (induction n arbitrary: gs ell s)
    (auto simp: Let_def bindO_Panic_iff ipv4_fields_no_panic)

lemma ParseAddr_no_panic [simp]: "\<not> is_Panic (ParseAddr s)"
  by (auto simp: ParseAddr_def parse_ipv4_def parse_ipv6_def v6_finish_def Let_def bindO_Panic_iff
      ipv4_fields_no_panic v6_groups_no_panic split: option.splits)

lemma ParsePrefix_no_panic [simp]: "\<not> is_Panic (ParsePrefix s)"
  by (auto simp: ParsePrefix_def bindO_Panic_iff split: option.splits)

lemma ParseAddr_not_zero: "ParseAddr s = Ok a \<Longrightarrow> a \<noteq> AddrZero"
  by (auto simp: ParseAddr_def parse_ipv4_def parse_ipv6_def v6_finish_def Let_def bindO_Ok_iff
      split: option.splits if_splits)

text \<open>A parsed prefix is valid, has no zone, and its length fits its address.\<close>

lemma ParsePrefix_valid:
  assumes "ParsePrefix s = Ok p"
  shows "pfx_IsValid p" "pfx_Bits p \<le> addr_BitLen (pfx_Addr p)" "addr_Zone (pfx_Addr p) = []"
proof -
  from assms obtain a b ip where ip: "ParseAddr a = Ok ip" and p: "p = PrefixFrom ip (int (read_dec b))"
    and le: "\<not> int (read_dec b) > (if Is6 ip then 128 else 32)"
    by (auto simp: ParsePrefix_def bindO_Ok_iff split: option.splits if_splits)
  have nz: "ip \<noteq> AddrZero" using ParseAddr_not_zero[OF ip] .
  have "int (read_dec b) \<le> addr_BitLen ip"
    using le nz by (cases ip) auto
  then show "pfx_IsValid p" "pfx_Bits p \<le> addr_BitLen (pfx_Addr p)" "addr_Zone (pfx_Addr p) = []"
    using nz p by (cases ip; simp add: PrefixFrom_def pfx_IsValid_def)+
qed

end
