(* ===== verification/Ndp.thy ===== *)
theory Ndp
  imports NetipText
begin

text \<open>
  The data types of package \<open>ndp\<close> (a dependency) that the program builds and inspects, by the fields
  it uses.  Options are held by reference: an element of \<open>Options\<close> is an address together with the
  option stored there, and \<open>==\<close> on two option pointers compares the addresses.  What the program
  relies on from the package beyond its types is collected in the record \<open>ndp_pkg\<close>, an argument of
  the definitions that use it.
\<close>

text \<open>A preference is one of the three named constants, or the conversion of a raw number.\<close>

datatype preference = PrefLow | PrefMedium | PrefHigh | PrefCode int

datatype direction = SourceLL | TargetLL

type_synonym hwaddr = "u8 list"

record prefix_information =
  pi_PrefixLength :: u8
  pi_OnLink :: bool
  pi_Autonomous :: bool
  pi_ValidLifetime :: duration
  pi_PreferredLifetime :: duration
  pi_Prefix :: addr

record route_information =
  ri_PrefixLength :: u8
  ri_Preference :: preference
  ri_RouteLifetime :: duration
  ri_Prefix :: addr

record recursive_dns_server =
  rd_Lifetime :: duration
  rd_Servers :: "addr list"

record dns_search_list =
  sl_Lifetime :: duration
  sl_DomainNames :: "string list"

record link_layer_address =
  ll_Direction :: direction
  ll_Addr :: hwaddr

record pref64_option =
  p64_Prefix :: ipprefix
  p64_Lifetime :: duration

datatype ndp_option =
    CaptivePortalOpt string
  | DNSSearchListOpt dns_search_list
  | LinkLayerAddressOpt link_layer_address
  | MTUOpt u32
  | PREF64Opt pref64_option
  | PrefixInformationOpt prefix_information
  | RecursiveDNSServerOpt recursive_dns_server
  | RouteInformationOpt route_information
  | UnknownOpt nat

type_synonym ptr = nat
type_synonym opt_ptr = "ptr \<times> ndp_option"

record router_advertisement =
  ra_CurrentHopLimit :: u8
  ra_ManagedConfiguration :: bool
  ra_OtherConfiguration :: bool
  ra_MobileIPv6HomeAgent :: bool
  ra_RouterSelectionPreference :: preference
  ra_NeighborDiscoveryProxy :: bool
  ra_RouterLifetime :: duration
  ra_ReachableTime :: duration
  ra_RetransmitTimer :: duration
  ra_Options :: "opt_ptr list"

datatype ndp_message =
    RouterSolicitation "opt_ptr list"
  | RouterAdvertisement router_advertisement
  | OtherMessage string

text \<open>
  \<open>Infinity\<close> is the lifetime constant, \<open>NewCaptivePortal\<close> validates a URI and returns the one to
  store in the option.
\<close>

record ndp_pkg =
  ndp_Infinity :: duration
  ndp_HopLimit :: int
  ndp_Unrestricted :: string
  ndp_NewCaptivePortal :: "string \<Rightarrow> string outcome"

text \<open>
  Allocation.  A composite literal \<open>&ndp.T{...}\<close> yields a fresh address: the allocator is a counter
  and every address below it is in use.
\<close>

definition new_opt :: "ptr \<Rightarrow> ndp_option \<Rightarrow> opt_ptr \<times> ptr" where
  "new_opt h o' = ((h, o'), Suc h)"

definition append_opt :: "opt_ptr \<Rightarrow> router_advertisement \<Rightarrow> router_advertisement" where
  "append_opt p ra = ra\<lparr>ra_Options := ra_Options ra @ [p]\<rparr>"

definition opts_below :: "ptr \<Rightarrow> opt_ptr list \<Rightarrow> bool" where
  "opts_below h ps \<longleftrightarrow> (\<forall>p \<in> set ps. fst p < h)"

lemma opts_below_Nil [simp]: "opts_below h []"
  by (simp add: opts_below_def)

lemma opts_below_append [simp]: "opts_below h (ps @ qs) \<longleftrightarrow> opts_below h ps \<and> opts_below h qs"
  by (auto simp: opts_below_def)

lemma opts_below_Cons [simp]: "opts_below h (p # ps) \<longleftrightarrow> fst p < h \<and> opts_below h ps"
  by (auto simp: opts_below_def)

lemma opts_below_mono: "opts_below h ps \<Longrightarrow> h \<le> h' \<Longrightarrow> opts_below h' ps"
  by (auto simp: opts_below_def)

lemma append_opt_Options [simp]: "ra_Options (append_opt p ra) = ra_Options ra @ [p]"
  by (simp add: append_opt_def)

text \<open>The fields of an advertisement other than its options.\<close>

definition ra_header :: "router_advertisement \<Rightarrow> router_advertisement" where
  "ra_header ra = ra\<lparr>ra_Options := []\<rparr>"

lemma ra_header_append_opt [simp]: "ra_header (append_opt p ra) = ra_header ra"
  by (simp add: ra_header_def append_opt_def)

lemma ra_header_Options [simp]: "ra_header (ra\<lparr>ra_Options := os\<rparr>) = ra_header ra"
  by (simp add: ra_header_def)

text \<open>\<open>RouterAdvertisement.RouterLifetime\<close> is part of the header, options are not.\<close>

lemma ra_eq_header:
  "ra_header a = ra_header b \<Longrightarrow> ra_Options a = ra_Options b \<Longrightarrow> a = (b :: router_advertisement)"
  unfolding ra_header_def by (cases a; cases b) simp

end
