(* ===== verification/Addresser.thy ===== *)
theory Addresser
  imports Ndp
begin

text \<open>
  \<open>internal/system/addresser.go\<close> and \<open>addresser_linux.go\<close>: interface addresses and loopback routes.
  The operating system is a record of its answers: the clock, the interface list, and the rtnetlink
  and \<open>net\<close> queries.  Messages of package \<open>rtnetlink\<close> appear by the fields the program reads; address
  flags are the set of flags whose bit is set.
\<close>

record sys_ip =
  ip_Address :: ipprefix
  ip_Deprecated :: bool
  ip_ManageTemporaryAddresses :: bool
  ip_StablePrivacy :: bool
  ip_Temporary :: bool
  ip_Tentative :: bool
  ip_ValidForever :: bool

record sys_route =
  rt_Prefix :: ipprefix
  rt_Index :: int
  rt_Preference :: preference

datatype family = AF_INET6 | AF_Other nat

datatype ifa_flag =
    IFA_F_DEPRECATED | IFA_F_MANAGETEMPADDR | IFA_F_STABLE_PRIVACY | IFA_F_TEMPORARY | IFA_F_TENTATIVE

record address_attributes =
  aa_Address :: "u8 list"
  aa_CacheInfo_Valid :: u32
  aa_Flags :: "ifa_flag list"

record address_message =
  am_Family :: family
  am_PrefixLength :: u8
  am_Attributes :: "address_attributes option"

record route_message =
  rm_Family :: family
  rm_DstLength :: u8
  rm_Dst :: "u8 list"
  rm_OutIface :: u32
  rm_Pref :: "nat option"

datatype rtnl_message =
    AddressMsg address_message
  | RouteMsg route_message
  | UnknownMsg

datatype rt_table = RT_TABLE_MAIN | RT_TABLE_Other nat

datatype rtnl_request =
    RTM_GETADDR family u32
  | RTM_GETROUTE family u32 rt_table

record net_interface =
  if_Name :: string
  if_Index :: int
  if_Up :: bool
  if_Loopback :: bool
  if_HardwareAddr :: "hwaddr option"

datatype net_addr = IPNet "u8 list" int | OtherNetAddr

record os =
  os_Now :: instant
  os_Execute :: "rtnl_request \<Rightarrow> rtnl_message list outcome"
  os_Interfaces :: "net_interface list outcome"
  os_InterfaceByIndex :: "int \<Rightarrow> net_interface outcome"
  os_InterfaceAddrs :: "net_interface \<Rightarrow> net_addr list outcome"

text \<open>\<open>netip.AddrFromSlice\<close>: 4 or 16 bytes, most significant first.\<close>

definition bytes_word :: "u8 list \<Rightarrow> 'a::len word" where
  "bytes_word bs = foldl (\<lambda>w b. push_bit 8 w OR ucast b) 0 bs"

definition AddrFromSlice :: "u8 list \<Rightarrow> addr option" where
  "AddrFromSlice bs =
     (if length bs = 4 then Some (Addr4 (bytes_word bs))
      else if length bs = 16 then Some (Addr6 (bytes_word bs) [])
      else None)"

definition plain_v6 :: "addr \<Rightarrow> bool" where
  "plain_v6 a \<longleftrightarrow> Is6 a \<and> \<not> Is4In6 a"


section \<open>The rtnetlink addresser\<close>

definition address_ip :: "rtnl_message \<Rightarrow> sys_ip outcome" where
  "address_ip m =
     (case m of
        AddressMsg am \<Rightarrow>
          (case am_Attributes am of
             None \<Rightarrow> Panic ''corerad: invalid rtnetlink message type''
           | Some aa \<Rightarrow>
               if am_Family am \<noteq> AF_INET6 then Panic ''corerad: invalid rtnetlink message type''
               else case AddrFromSlice (aa_Address aa) of
                 None \<Rightarrow> Panic ''corerad: invalid IPv6 address from rtnetlink''
               | Some ip \<Rightarrow>
                   if \<not> Is6 ip \<or> Is4In6 ip then Panic ''corerad: invalid IPv6 address from rtnetlink''
                   else Ok \<lparr>ip_Address = PrefixFrom ip (uint (am_PrefixLength am)),
                        ip_Deprecated = IFA_F_DEPRECATED \<in> set (aa_Flags aa),
                        ip_ManageTemporaryAddresses = IFA_F_MANAGETEMPADDR \<in> set (aa_Flags aa),
                        ip_StablePrivacy = IFA_F_STABLE_PRIVACY \<in> set (aa_Flags aa),
                        ip_Temporary = IFA_F_TEMPORARY \<in> set (aa_Flags aa),
                        ip_Tentative = IFA_F_TENTATIVE \<in> set (aa_Flags aa),
                        ip_ValidForever = (aa_CacheInfo_Valid aa = 0xffffffff)\<rparr>)
      | _ \<Rightarrow> Panic ''corerad: invalid rtnetlink message type'')"

definition AddressesByIndex :: "os \<Rightarrow> int \<Rightarrow> sys_ip list outcome" where
  "AddressesByIndex os index =
     bindO (os_Execute os (RTM_GETADDR AF_INET6 (of_int index))) (mapO address_ip)"

definition message_route :: "rtnl_message \<Rightarrow> sys_route outcome" where
  "message_route m =
     (case m of
        RouteMsg rm \<Rightarrow>
          (if rm_Family rm \<noteq> AF_INET6 then Panic ''corerad: invalid rtnetlink message type''
           else case AddrFromSlice (rm_Dst rm) of
             None \<Rightarrow> Panic ''corerad: invalid IPv6 route from rtnetlink''
           | Some ip \<Rightarrow>
               if \<not> Is6 ip \<or> Is4In6 ip then Panic ''corerad: invalid IPv6 route from rtnetlink''
               else Ok \<lparr>rt_Prefix = PrefixFrom ip (uint (rm_DstLength rm)),
                        rt_Index = uint (rm_OutIface rm),
                        rt_Preference =
                          (case rm_Pref rm of None \<Rightarrow> PrefMedium | Some p \<Rightarrow> PrefCode (int p))\<rparr>)
      | _ \<Rightarrow> Panic ''corerad: invalid rtnetlink message type'')"

definition routesByIndex :: "os \<Rightarrow> int \<Rightarrow> sys_route list outcome" where
  "routesByIndex os index =
     bindO (os_Execute os (RTM_GETROUTE AF_INET6 (of_int index) RT_TABLE_MAIN)) (mapO message_route)"

text \<open>Only interfaces that are loopback and up contribute routes.\<close>

definition loopback_iteration :: "os \<Rightarrow> sys_route list \<Rightarrow> net_interface \<Rightarrow> sys_route list outcome" where
  "loopback_iteration os routes ifi =
     (if \<not> if_Loopback ifi \<or> \<not> if_Up ifi then Ok routes
      else bindO (routesByIndex os (if_Index ifi)) (\<lambda>rs. Ok (routes @ rs)))"

definition LoopbackRoutes :: "os \<Rightarrow> sys_route list outcome" where
  "LoopbackRoutes os = bindO (os_Interfaces os) (foldO (loopback_iteration os) [])"


section \<open>The generic addresser\<close>

definition net_addr_ip :: "net_addr \<Rightarrow> sys_ip list" where
  "net_addr_ip a =
     (case a of
        OtherNetAddr \<Rightarrow> []
      | IPNet ip bits \<Rightarrow>
          (case AddrFromSlice ip of
             None \<Rightarrow> []
           | Some v \<Rightarrow>
               if \<not> Is6 v \<or> Is4In6 v then []
               else [\<lparr>ip_Address = PrefixFrom v bits, ip_Deprecated = False,
                      ip_ManageTemporaryAddresses = False, ip_StablePrivacy = False,
                      ip_Temporary = False, ip_Tentative = False, ip_ValidForever = False\<rparr>]))"

definition net_AddressesByIndex :: "os \<Rightarrow> int \<Rightarrow> sys_ip list outcome" where
  "net_AddressesByIndex os index =
     bindO (os_InterfaceByIndex os index) (\<lambda>ifi.
     bindO (os_InterfaceAddrs os ifi) (\<lambda>addrs. Ok (concat (map net_addr_ip addrs))))"

definition net_LoopbackRoutes :: "os \<Rightarrow> sys_route list outcome" where
  "net_LoopbackRoutes os = Ok []"


section \<open>The interface\<close>

text \<open>
  What callers of an \<open>Addresser\<close> rely on: whatever it returns is plain IPv6 without a zone.  Both
  implementations keep the promise, so the IPv4 guards of the callers are a second line of defence.
\<close>

locale addresser =
  fixes addresses :: "os \<Rightarrow> int \<Rightarrow> sys_ip list outcome"
    and routes :: "os \<Rightarrow> sys_route list outcome"
  assumes addresses_v6:
      "addresses os i = Ok ips \<Longrightarrow> a \<in> set ips \<Longrightarrow> plain_v6 (pfx_Addr (ip_Address a))"
    and addresses_zone:
      "addresses os i = Ok ips \<Longrightarrow> a \<in> set ips \<Longrightarrow> addr_Zone (pfx_Addr (ip_Address a)) = []"
    and routes_v6:
      "routes os = Ok rs \<Longrightarrow> r \<in> set rs \<Longrightarrow> plain_v6 (pfx_Addr (rt_Prefix r))"
begin

lemma addresses_not_v4:
  "addresses os i = Ok ips \<Longrightarrow> a \<in> set ips \<Longrightarrow> \<not> Is4 (pfx_Addr (ip_Address a))"
  using addresses_v6 by (cases "pfx_Addr (ip_Address a)") (fastforce simp: plain_v6_def)+

lemma routes_not_v4:
  "routes os = Ok rs \<Longrightarrow> r \<in> set rs \<Longrightarrow> \<not> Is4 (pfx_Addr (rt_Prefix r))"
  using routes_v6 by (cases "pfx_Addr (rt_Prefix r)") (fastforce simp: plain_v6_def)+

text \<open>Two addresses with the same value are the same \<open>netip.Addr\<close>.\<close>

lemma addresses_eq_by_value:
  assumes "addresses os i = Ok ips" and "a \<in> set ips" and "b \<in> set ips"
    and "As16_word (pfx_Addr (ip_Address a)) = As16_word (pfx_Addr (ip_Address b))"
  shows "pfx_Addr (ip_Address a) = pfx_Addr (ip_Address b)"
proof -
  have "plain_v6 (pfx_Addr (ip_Address a))" "plain_v6 (pfx_Addr (ip_Address b))"
    and "addr_Zone (pfx_Addr (ip_Address a)) = []" "addr_Zone (pfx_Addr (ip_Address b)) = []"
    using addresses_v6 addresses_zone assms(1-3) by blast+
  then show ?thesis
    using assms(4) by (cases "pfx_Addr (ip_Address a)"; cases "pfx_Addr (ip_Address b)")
      (auto simp: plain_v6_def)
qed

end

lemma PrefixFrom_addr_simps [simp]:
  "Is6 (pfx_Addr (PrefixFrom ip b)) \<longleftrightarrow> Is6 ip"
  "Is4 (pfx_Addr (PrefixFrom ip b)) \<longleftrightarrow> Is4 ip"
  "Is4In6 (pfx_Addr (PrefixFrom ip b)) \<longleftrightarrow> Is4In6 ip"
  "addr_Zone (pfx_Addr (PrefixFrom ip b)) = []"
  by (cases ip; simp add: PrefixFrom_def)+

lemma address_ip_v6:
  "address_ip m = Ok a \<Longrightarrow> plain_v6 (pfx_Addr (ip_Address a)) \<and> addr_Zone (pfx_Addr (ip_Address a)) = []"
  by (auto simp: address_ip_def plain_v6_def split: rtnl_message.splits option.splits if_splits)

lemma message_route_v6: "message_route m = Ok r \<Longrightarrow> plain_v6 (pfx_Addr (rt_Prefix r))"
  by (auto simp: message_route_def plain_v6_def split: rtnl_message.splits option.splits if_splits)

lemma AddressesByIndex_elem:
  assumes "AddressesByIndex os i = Ok ips" and "a \<in> set ips"
  obtains m where "address_ip m = Ok a"
  using assms by (auto simp: AddressesByIndex_def bindO_Ok_iff dest: mapO_Ok_set)

lemma loopback_iteration_Ok:
  assumes "loopback_iteration os routes ifi = Ok routes'"
  shows "routes' = routes \<or>
    (\<exists>rs. if_Loopback ifi \<and> if_Up ifi \<and> routesByIndex os (if_Index ifi) = Ok rs \<and> routes' = routes @ rs)"
  using assms by (auto simp: loopback_iteration_def bindO_Ok_iff split: if_splits)

lemma routesByIndex_v6:
  "routesByIndex os i = Ok rs \<Longrightarrow> r \<in> set rs \<Longrightarrow> plain_v6 (pfx_Addr (rt_Prefix r))"
  by (auto simp: routesByIndex_def bindO_Ok_iff dest!: mapO_Ok_set dest: message_route_v6)

lemma LoopbackRoutes_v6:
  assumes "LoopbackRoutes os = Ok rs" and "r \<in> set rs"
  shows "plain_v6 (pfx_Addr (rt_Prefix r))"
proof -
  from assms(1) obtain ifis where f: "foldO (loopback_iteration os) [] ifis = Ok rs"
    unfolding LoopbackRoutes_def bindO_Ok_iff by blast
  have "\<forall>r \<in> set rs. plain_v6 (pfx_Addr (rt_Prefix r))"
    by (rule foldO_invariant[OF f]) (auto dest!: loopback_iteration_Ok dest: routesByIndex_v6)
  then show ?thesis using assms(2) by blast
qed

interpretation rtnl: addresser AddressesByIndex LoopbackRoutes
  by unfold_locales (auto elim!: AddressesByIndex_elem dest: address_ip_v6 LoopbackRoutes_v6)

interpretation net: addresser net_AddressesByIndex net_LoopbackRoutes
  by unfold_locales
    (auto simp: net_AddressesByIndex_def net_LoopbackRoutes_def net_addr_ip_def bindO_Ok_iff
      plain_v6_def split: net_addr.splits option.splits if_splits)

end
