(* ===== verification/Plugin.thy ===== *)
theory Plugin
  imports Addresser
begin

text \<open>
  \<open>internal/plugin/plugin.go\<close>: the plugins that contribute options to a router advertisement.  Each
  plugin struct is a record; the interface \<open>Plugin\<close> is the datatype \<open>plugin\<close> with \<open>Prepare\<close> and
  \<open>Apply\<close> as functions by cases.  A function-valued field is the closure \<open>Prepare\<close> stores in it, or
  \<open>None\<close> for nil; calling nil panics.  Definitions come in the order of the source; lemmas about them
  are in the theories \<open>Prefix_Selection\<close>, \<open>Route_Selection\<close>, \<open>Rdnss_Selection\<close> and \<open>Plugin_Contract\<close>.
\<close>

datatype time_fn = TimeNow
datatype addrs_fn = AddrsByIndex int
datatype routes_fn = RoutesOfLoopback

definition nil_call :: string where
  "nil_call = ''invalid memory address or nil pointer dereference''"

definition call_now :: "os \<Rightarrow> time_fn option \<Rightarrow> instant outcome" where
  "call_now os f = (case f of None \<Rightarrow> Panic nil_call | Some TimeNow \<Rightarrow> Ok (os_Now os))"

definition call_addrs :: "os \<Rightarrow> addrs_fn option \<Rightarrow> sys_ip list outcome" where
  "call_addrs os f =
     (case f of None \<Rightarrow> Panic nil_call | Some (AddrsByIndex i) \<Rightarrow> AddressesByIndex os i)"

definition call_routes :: "os \<Rightarrow> routes_fn option \<Rightarrow> sys_route list outcome" where
  "call_routes os f =
     (case f of None \<Rightarrow> Panic nil_call | Some RoutesOfLoopback \<Rightarrow> LoopbackRoutes os)"

type_synonym ra_state = "router_advertisement \<times> ptr"

text \<open>\<open>ra.Options = append(ra.Options, &T{...})\<close> with a fresh option.\<close>

definition push_new :: "ndp_option \<Rightarrow> ra_state \<Rightarrow> ra_state" where
  "push_new o' s = (case s of (ra, h) \<Rightarrow> (append_opt (h, o') ra, Suc h))"


section \<open>Captive portal, PREF64, DNSSL, link-layer address, MTU\<close>

record captive_portal =
  cp_Portal :: opt_ptr

definition NewCaptivePortal :: "ndp_pkg \<Rightarrow> string \<Rightarrow> ptr \<Rightarrow> (captive_portal \<times> ptr) outcome" where
  "NewCaptivePortal ndp uri h =
     bindO (ndp_NewCaptivePortal ndp uri)
       (\<lambda>u. Ok (\<lparr>cp_Portal = (h, CaptivePortalOpt u)\<rparr>, Suc h))"

definition UnrestrictedPortal :: "ndp_pkg \<Rightarrow> ptr \<Rightarrow> captive_portal \<times> ptr" where
  "UnrestrictedPortal ndp h = (\<lparr>cp_Portal = (h, CaptivePortalOpt (ndp_Unrestricted ndp))\<rparr>, Suc h)"

definition captive_portal_Apply :: "captive_portal \<Rightarrow> ra_state \<Rightarrow> ra_state outcome" where
  "captive_portal_Apply cp s = (case s of (ra, h) \<Rightarrow> Ok (append_opt (cp_Portal cp) ra, h))"

record pref64 =
  pf_Inner :: opt_ptr

definition maxPref64Lifetime :: duration where
  "maxPref64Lifetime = 8191 * 8 * Second"

definition pref64_lifetime :: "duration \<Rightarrow> duration" where
  "pref64_lifetime maxInterval =
     (if seconds_int maxInterval * 3 < seconds_int maxPref64Lifetime then
        (let ls = seconds_int maxInterval * 3;
             r = go_rem ls 8;
             ls' = (if r > 0 then ls + (8 - r) else ls)
         in wrap64 (ls' * Second))
      else maxPref64Lifetime)"

definition NewPREF64 :: "ipprefix \<Rightarrow> duration \<Rightarrow> ptr \<Rightarrow> pref64 \<times> ptr" where
  "NewPREF64 prefix maxInterval h =
     (\<lparr>pf_Inner = (h, PREF64Opt \<lparr>p64_Prefix = prefix, p64_Lifetime = pref64_lifetime maxInterval\<rparr>)\<rparr>,
      Suc h)"

definition pref64_Apply :: "pref64 \<Rightarrow> ra_state \<Rightarrow> ra_state outcome" where
  "pref64_Apply p s = (case s of (ra, h) \<Rightarrow> Ok (append_opt (pf_Inner p) ra, h))"

record dnssl_plugin =
  dl_Lifetime :: duration
  dl_DomainNames :: "string list"

definition dnssl_Apply :: "dnssl_plugin \<Rightarrow> ra_state \<Rightarrow> ra_state outcome" where
  "dnssl_Apply d s =
     Ok (push_new (DNSSearchListOpt \<lparr>sl_Lifetime = dl_Lifetime d, sl_DomainNames = dl_DomainNames d\<rparr>) s)"

record lla_plugin =
  la_Addr :: "hwaddr option"

definition lla_Prepare :: "lla_plugin \<Rightarrow> net_interface \<Rightarrow> lla_plugin outcome" where
  "lla_Prepare l ifi = Ok (l\<lparr>la_Addr := if_HardwareAddr ifi\<rparr>)"

definition lla_Apply :: "lla_plugin \<Rightarrow> ra_state \<Rightarrow> ra_state outcome" where
  "lla_Apply l s =
     (case la_Addr l of
        None \<Rightarrow> Ok s
      | Some a \<Rightarrow> Ok (push_new (LinkLayerAddressOpt \<lparr>ll_Direction = SourceLL, ll_Addr = a\<rparr>) s))"

definition mtu_Apply :: "int \<Rightarrow> ra_state \<Rightarrow> ra_state outcome" where
  "mtu_Apply m s = Ok (push_new (MTUOpt (of_int m)) s)"


section \<open>Prefix\<close>

record prefix_plugin =
  px_Auto :: bool
  px_Prefix :: ipprefix
  px_OnLink :: bool
  px_Autonomous :: bool
  px_ValidLifetime :: duration
  px_PreferredLifetime :: duration
  px_Epoch :: instant
  px_Deprecated :: bool
  px_TimeNow :: "time_fn option"
  px_Addrs :: "addrs_fn option"

definition prefix_Prepare :: "prefix_plugin \<Rightarrow> net_interface \<Rightarrow> prefix_plugin outcome" where
  "prefix_Prepare p ifi =
     Ok (p\<lparr>px_TimeNow := Some TimeNow, px_Addrs := Some (AddrsByIndex (if_Index ifi))\<rparr>)"

definition usableAddr :: "sys_ip \<Rightarrow> bool" where
  "usableAddr a =
     (let ip = pfx_Addr (ip_Address a)
      in if Is4 ip \<or> IsLinkLocalUnicast ip then False
         else \<not> ip_Temporary a \<and> \<not> ip_Tentative a)"

text \<open>The loop of \<open>current\<close> over the interface addresses, with the set of prefixes already seen.\<close>

fun prefix_loop :: "int \<Rightarrow> ipprefix set \<Rightarrow> sys_ip list \<Rightarrow> ipprefix list" where
  "prefix_loop bits seen [] = []"
| "prefix_loop bits seen (a # as) =
     (if \<not> usableAddr a \<or> pfx_Bits (ip_Address a) \<noteq> bits then prefix_loop bits seen as
      else let pfx = pfx_Masked (ip_Address a)
           in if pfx \<in> seen then prefix_loop bits seen as
              else pfx # prefix_loop bits (insert pfx seen) as)"

definition prefix_current :: "os \<Rightarrow> prefix_plugin \<Rightarrow> ipprefix list outcome" where
  "prefix_current os p =
     bindO (wrapErr (FmtV ''failed to fetch IP addresses: %v'') (call_addrs os (px_Addrs p)))
       (\<lambda>addrs. Ok (sort_key pfx_Addr (prefix_loop (pfx_Bits (px_Prefix p)) {} addrs)))"

text \<open>One end of a deprecated lifetime, counted down from the epoch.\<close>

definition remaining :: "instant \<Rightarrow> instant \<Rightarrow> duration" where
  "remaining now t = (if now = t \<or> t < now then 0 else time_Sub t now)"

definition prefix_lifetimes :: "os \<Rightarrow> prefix_plugin \<Rightarrow> (duration \<times> duration) outcome" where
  "prefix_lifetimes os p =
     (if \<not> px_Deprecated p then Ok (px_ValidLifetime p, px_PreferredLifetime p)
      else if time_IsZero (px_Epoch p) then
        Panic ''plugin: cannot calculate deprecated Prefix lifetimes with zero epoch''
      else bindO (call_now os (px_TimeNow p)) (\<lambda>now.
        Ok (remaining now (time_Add (px_Epoch p) (px_ValidLifetime p)),
            remaining now (time_Add (px_Epoch p) (px_PreferredLifetime p)))))"

definition prefix_option :: "prefix_plugin \<Rightarrow> duration \<Rightarrow> duration \<Rightarrow> ipprefix \<Rightarrow> ndp_option" where
  "prefix_option p valid pref pfx =
     PrefixInformationOpt
       \<lparr>pi_PrefixLength = of_int (pfx_Bits pfx),
        pi_OnLink = px_OnLink p,
        pi_Autonomous = px_Autonomous p,
        pi_ValidLifetime = valid,
        pi_PreferredLifetime = pref,
        pi_Prefix = pfx_Addr pfx\<rparr>"

definition prefix_apply_list :: "os \<Rightarrow> prefix_plugin \<Rightarrow> ipprefix list \<Rightarrow> ra_state \<Rightarrow> ra_state outcome" where
  "prefix_apply_list os p prefixes s =
     bindO (prefix_lifetimes os p) (\<lambda>(valid, pref).
       Ok (fold (\<lambda>pfx. push_new (prefix_option p valid pref pfx)) prefixes s))"

definition prefix_Apply :: "os \<Rightarrow> prefix_plugin \<Rightarrow> ra_state \<Rightarrow> ra_state outcome" where
  "prefix_Apply os p s =
     (if \<not> px_Auto p then prefix_apply_list os p [px_Prefix p] s
      else bindO (prefix_current os p) (\<lambda>prefixes. prefix_apply_list os p prefixes s))"


section \<open>Route\<close>

record route_plugin =
  ro_Auto :: bool
  ro_Prefix :: ipprefix
  ro_Preference :: preference
  ro_Lifetime :: duration
  ro_Epoch :: instant
  ro_Deprecated :: bool
  ro_TimeNow :: "time_fn option"
  ro_Routes :: "routes_fn option"
  ro_Addrs :: "addrs_fn option"

definition route_Prepare :: "route_plugin \<Rightarrow> net_interface \<Rightarrow> route_plugin outcome" where
  "route_Prepare r ifi =
     Ok (r\<lparr>ro_TimeNow := Some TimeNow, ro_Routes := Some RoutesOfLoopback,
           ro_Addrs := Some (AddrsByIndex (if_Index ifi))\<rparr>)"

definition coversUsableAddr :: "ipprefix \<Rightarrow> sys_ip list \<Rightarrow> bool" where
  "coversUsableAddr prefix addrs =
     list_ex (\<lambda>a. usableAddr a \<and> pfx_Contains prefix (pfx_Addr (ip_Address a))) addrs"

fun covering_loop :: "sys_ip list \<Rightarrow> ipprefix set \<Rightarrow> sys_route list \<Rightarrow> ipprefix list" where
  "covering_loop addrs seen [] = []"
| "covering_loop addrs seen (rt # rts) =
     (let pfx = rt_Prefix rt
      in if Is4 (pfx_Addr pfx) \<or> pfx_IsSingleIP pfx then covering_loop addrs seen rts
         else if pfx \<in> seen then covering_loop addrs seen rts
         else if \<not> coversUsableAddr pfx addrs then covering_loop addrs seen rts
         else pfx # covering_loop addrs (insert pfx seen) rts)"

definition coveringRoutes :: "sys_route list \<Rightarrow> sys_ip list \<Rightarrow> ipprefix list" where
  "coveringRoutes routes addrs = covering_loop addrs {} routes"

definition isCovered :: "ipprefix \<Rightarrow> ipprefix list \<Rightarrow> bool" where
  "isCovered prefix prefixes =
     list_ex (\<lambda>p. pfx_Bits p < pfx_Bits prefix \<and> pfx_Contains p (pfx_Addr prefix)) prefixes"

definition uncoveredPrefixes :: "ipprefix list \<Rightarrow> ipprefix list" where
  "uncoveredPrefixes prefixes = filter (\<lambda>pfx. \<not> isCovered pfx prefixes) prefixes"

definition route_current :: "os \<Rightarrow> route_plugin \<Rightarrow> ipprefix list outcome" where
  "route_current os r =
     (if ro_Routes r = None \<or> ro_Addrs r = None then
        Err (Msg ''plugin: route has not been prepared'')
      else bindO (call_routes os (ro_Routes r)) (\<lambda>routes.
           bindO (wrapErr (FmtV ''failed to fetch IP addresses: %v'') (call_addrs os (ro_Addrs r))) (\<lambda>addrs.
             Ok (sort_key pfx_Addr (uncoveredPrefixes (coveringRoutes routes addrs))))))"

definition route_lifetime :: "os \<Rightarrow> route_plugin \<Rightarrow> duration outcome" where
  "route_lifetime os r =
     (if \<not> ro_Deprecated r then Ok (ro_Lifetime r)
      else if time_IsZero (ro_Epoch r) then
        Panic ''plugin: cannot calculate deprecated Route lifetimes with zero epoch''
      else bindO (call_now os (ro_TimeNow r)) (\<lambda>now.
        Ok (remaining now (time_Add (ro_Epoch r) (ro_Lifetime r)))))"

definition route_option :: "route_plugin \<Rightarrow> duration \<Rightarrow> ipprefix \<Rightarrow> ndp_option" where
  "route_option r lt rt =
     RouteInformationOpt
       \<lparr>ri_PrefixLength = of_int (pfx_Bits rt),
        ri_Preference = ro_Preference r,
        ri_RouteLifetime = lt,
        ri_Prefix = pfx_Addr rt\<rparr>"

definition route_apply_list :: "os \<Rightarrow> route_plugin \<Rightarrow> ipprefix list \<Rightarrow> ra_state \<Rightarrow> ra_state outcome" where
  "route_apply_list os r routes s =
     bindO (route_lifetime os r) (\<lambda>lt.
       Ok (fold (\<lambda>rt. push_new (route_option r lt rt)) routes s))"

definition route_Apply :: "os \<Rightarrow> route_plugin \<Rightarrow> ra_state \<Rightarrow> ra_state outcome" where
  "route_Apply os r s =
     (if \<not> ro_Auto r then route_apply_list os r [ro_Prefix r] s
      else bindO (route_current os r) (\<lambda>routes. route_apply_list os r routes s))"


section \<open>RDNSS\<close>

record rdnss_plugin =
  rs_Auto :: bool
  rs_Lifetime :: duration
  rs_Servers :: "addr list"
  rs_Addrs :: "addrs_fn option"

definition rdnss_Prepare :: "rdnss_plugin \<Rightarrow> net_interface \<Rightarrow> rdnss_plugin outcome" where
  "rdnss_Prepare r ifi = Ok (r\<lparr>rs_Addrs := Some (AddrsByIndex (if_Index ifi))\<rparr>)"

definition isEUI64 :: "addr \<Rightarrow> bool" where
  "isEUI64 ip \<longleftrightarrow> As16_byte ip 11 = 0xff \<and> As16_byte ip 12 = 0xfe"

definition isStable :: "sys_ip \<Rightarrow> bool" where
  "isStable ip \<longleftrightarrow>
     ip_ValidForever ip \<or> ip_ManageTemporaryAddresses ip \<or> ip_StablePrivacy ip \<or>
     isEUI64 (pfx_Addr (ip_Address ip))"

text \<open>The loop over the address classes: the first class that tells the two apart, or both.\<close>

fun class_loop :: "(addr \<Rightarrow> bool) list \<Rightarrow> sys_ip \<Rightarrow> sys_ip \<Rightarrow> sys_ip" where
  "class_loop [] best current =
     (if pfx_Addr (ip_Address current) < pfx_Addr (ip_Address best) then current else best)"
| "class_loop (fn # fns) best current =
     (let cIP = pfx_Addr (ip_Address current); bIP = pfx_Addr (ip_Address best);
          okC = fn cIP; okB = fn bIP
      in if okC \<and> \<not> okB then current
         else if \<not> okC \<and> okB then best
         else if okC \<and> okB then (if cIP < bIP then current else best)
         else class_loop fns best current)"

definition betterRDNSS :: "sys_ip \<Rightarrow> sys_ip \<Rightarrow> sys_ip" where
  "betterRDNSS best current =
     (if \<not> pfx_IsValid (ip_Address best) then current
      else if isStable current \<and> \<not> isStable best then current
      else if \<not> isStable current \<and> isStable best then best
      else class_loop [IsPrivate, IsGlobalUnicast, IsLinkLocalUnicast] best current)"

definition zero_ip :: sys_ip where
  "zero_ip = \<lparr>ip_Address = pfx_zero, ip_Deprecated = False, ip_ManageTemporaryAddresses = False,
     ip_StablePrivacy = False, ip_Temporary = False, ip_Tentative = False, ip_ValidForever = False\<rparr>"

definition rdnss_usable :: "sys_ip \<Rightarrow> bool" where
  "rdnss_usable a \<longleftrightarrow>
     \<not> (Is4 (pfx_Addr (ip_Address a)) \<or> ip_Deprecated a \<or> ip_Temporary a \<or> ip_Tentative a)"

fun rdnss_loop :: "sys_ip \<Rightarrow> sys_ip list \<Rightarrow> sys_ip" where
  "rdnss_loop best [] = best"
| "rdnss_loop best (a # as) =
     (if \<not> rdnss_usable a then rdnss_loop best as else rdnss_loop (betterRDNSS best a) as)"

definition rdnss_current :: "os \<Rightarrow> rdnss_plugin \<Rightarrow> addr outcome" where
  "rdnss_current os r =
     bindO (wrapErr (FmtV ''failed to fetch IP addresses: %v'') (call_addrs os (rs_Addrs r))) (\<lambda>addrs.
       let ip = pfx_Addr (ip_Address (rdnss_loop zero_ip addrs))
       in if \<not> addr_IsValid ip then Err (Msg ''interface has no usable IPv6 addresses'') else Ok ip)"

definition rdnss_apply_list :: "rdnss_plugin \<Rightarrow> addr list \<Rightarrow> ra_state \<Rightarrow> ra_state" where
  "rdnss_apply_list r servers =
     push_new (RecursiveDNSServerOpt \<lparr>rd_Lifetime = rs_Lifetime r, rd_Servers = servers\<rparr>)"

definition rdnss_Apply :: "os \<Rightarrow> rdnss_plugin \<Rightarrow> ra_state \<Rightarrow> ra_state outcome" where
  "rdnss_Apply os r s =
     (if \<not> rs_Auto r then Ok (rdnss_apply_list r (rs_Servers r) s)
      else bindO (rdnss_current os r) (\<lambda>server. Ok (rdnss_apply_list r (server # rs_Servers r) s)))"


section \<open>The plugin interface\<close>

datatype plugin =
    CaptivePortalP captive_portal
  | PREF64P pref64
  | DNSSLP dnssl_plugin
  | LLAP lla_plugin
  | MTUP int
  | PrefixP prefix_plugin
  | RouteP route_plugin
  | RDNSSP rdnss_plugin

fun plugin_Name :: "plugin \<Rightarrow> string" where
  "plugin_Name (CaptivePortalP _) = ''captive-portal''"
| "plugin_Name (PREF64P _) = ''pref64''"
| "plugin_Name (DNSSLP _) = ''dnssl''"
| "plugin_Name (LLAP _) = ''lla''"
| "plugin_Name (MTUP _) = ''mtu''"
| "plugin_Name (PrefixP _) = ''prefix''"
| "plugin_Name (RouteP _) = ''route''"
| "plugin_Name (RDNSSP _) = ''rdnss''"

fun plugin_Prepare :: "plugin \<Rightarrow> net_interface \<Rightarrow> plugin outcome" where
  "plugin_Prepare (CaptivePortalP c) ifi = Ok (CaptivePortalP c)"
| "plugin_Prepare (PREF64P p) ifi = Ok (PREF64P p)"
| "plugin_Prepare (DNSSLP d) ifi = Ok (DNSSLP d)"
| "plugin_Prepare (LLAP l) ifi = bindO (lla_Prepare l ifi) (\<lambda>l. Ok (LLAP l))"
| "plugin_Prepare (MTUP m) ifi = Ok (MTUP m)"
| "plugin_Prepare (PrefixP p) ifi = bindO (prefix_Prepare p ifi) (\<lambda>p. Ok (PrefixP p))"
| "plugin_Prepare (RouteP r) ifi = bindO (route_Prepare r ifi) (\<lambda>r. Ok (RouteP r))"
| "plugin_Prepare (RDNSSP r) ifi = bindO (rdnss_Prepare r ifi) (\<lambda>r. Ok (RDNSSP r))"

fun plugin_Apply :: "os \<Rightarrow> plugin \<Rightarrow> ra_state \<Rightarrow> ra_state outcome" where
  "plugin_Apply os (CaptivePortalP c) s = captive_portal_Apply c s"
| "plugin_Apply os (PREF64P p) s = pref64_Apply p s"
| "plugin_Apply os (DNSSLP d) s = dnssl_Apply d s"
| "plugin_Apply os (LLAP l) s = lla_Apply l s"
| "plugin_Apply os (MTUP m) s = mtu_Apply m s"
| "plugin_Apply os (PrefixP p) s = prefix_Apply os p s"
| "plugin_Apply os (RouteP r) s = route_Apply os r s"
| "plugin_Apply os (RDNSSP r) s = rdnss_Apply os r s"

end
