(* ===== verification/Prefix_Selection.thy ===== *)
theory Prefix_Selection
  imports Plugin
begin

text \<open>
  Facts about the \<open>Prefix\<close> plugin: which prefixes the \<open>::/64\<close> wildcard expands to, that the expansion
  depends on the set of interface addresses only, and how the lifetimes of a deprecated prefix or
  route count down.
\<close>

section \<open>Sorting by a key that identifies the elements\<close>

lemma sort_key_strict:
  assumes "distinct xs" and "inj_on f (set xs)"
  shows "sorted_wrt (<) (map f (sort_key f xs))"
proof -
  have "sorted (map f (sort_key f xs))" by simp
  moreover have "distinct (map f (sort_key f xs))"
    using assms by (simp add: distinct_map)
  ultimately show ?thesis by (simp add: strict_sorted_iff)
qed

lemma sort_key_set_eq:
  assumes "distinct xs" and "distinct ys" and "set xs = set ys" and "inj_on f (set xs)"
  shows "sort_key f xs = sort_key f ys"
proof -
  have "map f (sort_key f xs) = map f (sort_key f ys)"
  proof (rule strict_sorted_equal)
    show "sorted_wrt (<) (map f (sort_key f ys))"
      using assms by (intro sort_key_strict) auto
    show "sorted_wrt (<) (map f (sort_key f xs))"
      using assms by (intro sort_key_strict) auto
    show "set (map f (sort_key f xs)) = set (map f (sort_key f ys))"
      using assms(3) by simp
  qed
  then show ?thesis
    using assms(3,4) by (intro map_inj_on[of f]) (auto simp: inj_on_def)
qed


section \<open>The wildcard expansion\<close>

text \<open>What \<open>::/bits\<close> stands for on an interface with addresses \<open>A\<close>.\<close>

definition auto_prefixes :: "int \<Rightarrow> sys_ip set \<Rightarrow> ipprefix set" where
  "auto_prefixes bits A = (pfx_Masked \<circ> ip_Address) ` {a \<in> A. usableAddr a \<and> pfx_Bits (ip_Address a) = bits}"

lemma prefix_loop_set: "set (prefix_loop bits seen as) = auto_prefixes bits (set as) - seen"
  by (induction bits seen as rule: prefix_loop.induct) (auto simp: auto_prefixes_def Let_def)

lemma prefix_loop_distinct: "distinct (prefix_loop bits seen as)"
  by (induction bits seen as rule: prefix_loop.induct) (auto simp: Let_def prefix_loop_set)

lemma pfx_Masked_cases:
  "pfx_Masked p = pfx_zero \<or> (pfx_Bits (pfx_Masked p) = pfx_Bits p \<and> pfx_Addr (pfx_Masked p) \<noteq> AddrZero)"
  by (cases "pfx_Addr p") (auto simp: pfx_Masked_def)

lemma auto_prefixes_inj: "inj_on pfx_Addr (auto_prefixes bits A)"
proof (rule inj_onI)
  fix p q
  assume p: "p \<in> auto_prefixes bits A" and q: "q \<in> auto_prefixes bits A" and e: "pfx_Addr p = pfx_Addr q"
  have c: "x = pfx_zero \<or> (pfx_Bits x = bits \<and> pfx_Addr x \<noteq> AddrZero)" if "x \<in> auto_prefixes bits A" for x
    using that pfx_Masked_cases by (auto simp: auto_prefixes_def)
  have z: "pfx_Addr pfx_zero = AddrZero" by (simp add: pfx_zero_def)
  show "p = q"
    using c[OF p] c[OF q] e z by (metis ipprefix.expand)
qed

lemma prefix_current_Ok:
  "call_addrs os (px_Addrs p) = Ok addrs \<Longrightarrow>
   prefix_current os p = Ok (sort_key pfx_Addr (prefix_loop (pfx_Bits (px_Prefix p)) {} addrs))"
  by (simp add: prefix_current_def)

lemma prefix_current_facts:
  assumes "call_addrs os (px_Addrs p) = Ok addrs" and "prefix_current os p = Ok ps"
  shows "set ps = auto_prefixes (pfx_Bits (px_Prefix p)) (set addrs)"
    and "sorted_wrt (<) (map pfx_Addr ps)"
proof -
  let ?l = "prefix_loop (pfx_Bits (px_Prefix p)) {} addrs"
  have ps: "ps = sort_key pfx_Addr ?l" using assms by (simp add: prefix_current_Ok)
  show "set ps = auto_prefixes (pfx_Bits (px_Prefix p)) (set addrs)"
    by (simp add: ps prefix_loop_set)
  show "sorted_wrt (<) (map pfx_Addr ps)"
    unfolding ps by (rule sort_key_strict[OF prefix_loop_distinct]) (simp add: prefix_loop_set auto_prefixes_inj)
qed

lemma prefix_loop_sorted_set_eq:
  assumes "set as = set bs"
  shows "sort_key pfx_Addr (prefix_loop bits {} as) = sort_key pfx_Addr (prefix_loop bits {} bs)"
  by (rule sort_key_set_eq)
    (simp_all add: prefix_loop_distinct prefix_loop_set assms auto_prefixes_inj)


section \<open>Deprecated lifetimes\<close>

lemma remaining_nonneg: "0 \<le> remaining now t"
  using time_Sub_pos[of now t] by (auto simp: remaining_def)

lemma remaining_zero_iff: "remaining now t = 0 \<longleftrightarrow> t \<le> now"
  using time_Sub_pos[of now t] by (auto simp: remaining_def)

lemma remaining_mono: "t \<le> u \<Longrightarrow> now' \<le> now \<Longrightarrow> remaining now t \<le> remaining now' u"
  using time_Sub_mono[of t u now' now] time_Sub_pos[of now' u] by (auto simp: remaining_def)

lemma remaining_le: "now \<le> t \<Longrightarrow> remaining now t \<le> t - now"
  using time_Sub_le[of now t] by (auto simp: remaining_def)

lemma remaining_eq: "now \<le> t \<Longrightarrow> in_int64 (t - now) \<Longrightarrow> remaining now t = t - now"
  by (auto simp: remaining_def time_Sub_eq)

end
