(* ===== verification/Route_Selection.thy ===== *)
theory Route_Selection
  imports Prefix_Selection
begin

text \<open>
  Facts about the \<open>Route\<close> plugin's \<open>::/0\<close> wildcard: the loopback routes it keeps cover an address of
  the interface, none of them lies inside another, and together they cover what all eligible routes
  cover.  A prefix is read as the set of addresses it contains.
\<close>

definition pfx_set :: "ipprefix \<Rightarrow> addr set" where
  "pfx_set p = {a. pfx_Contains p a}"

text \<open>A well-formed IPv6 prefix: valid, without a zone, with a length that fits.\<close>

definition v6_prefix :: "ipprefix \<Rightarrow> bool" where
  "v6_prefix p \<longleftrightarrow>
     (\<exists>w b. p = Pfx (Addr6 w []) b \<and> 0 \<le> b \<and> b \<le> 128)"

lemma v6_prefix_contains:
  "pfx_Contains (Pfx (Addr6 w []) b) a \<longleftrightarrow>
     0 \<le> b \<and> (\<exists>v. a = Addr6 v [] \<and> same_head (nat b) v w)"
  by (cases a) auto

lemma pfx_set_nonempty: "v6_prefix p \<Longrightarrow> pfx_Addr p \<in> pfx_set p"
  by (auto simp: v6_prefix_def pfx_set_def)

text \<open>Two prefixes are nested or disjoint.\<close>

lemma pfx_set_nested:
  assumes p: "v6_prefix p" and q: "v6_prefix q" and le: "pfx_Bits p \<le> pfx_Bits q"
    and a: "a \<in> pfx_set p" "a \<in> pfx_set q"
  shows "pfx_set q \<subseteq> pfx_set p"
proof -
  obtain w b where pw: "p = Pfx (Addr6 w []) b" "0 \<le> b" using p by (auto simp: v6_prefix_def)
  obtain v c where qv: "q = Pfx (Addr6 v []) c" using q by (auto simp: v6_prefix_def)
  have bc: "nat b \<le> nat c" using le pw qv by simp
  obtain u where u: "same_head (nat b) u w" "same_head (nat c) u v"
    using a by (auto simp: pfx_set_def pw qv v6_prefix_contains)
  have vw: "same_head (nat b) v w"
    using u same_head_shorter[OF u(2) bc] by (metis same_head_sym same_head_trans)
  show ?thesis
  proof
    fix x assume "x \<in> pfx_set q"
    then obtain y where "x = Addr6 y []" "same_head (nat c) y v"
      by (auto simp: pfx_set_def qv v6_prefix_contains)
    moreover have "same_head (nat b) y w"
      using same_head_shorter[OF \<open>same_head (nat c) y v\<close> bc] vw by (rule same_head_trans)
    ultimately show "x \<in> pfx_set p" using pw by (simp add: pfx_set_def)
  qed
qed

lemma covered_subset:
  assumes "v6_prefix p" and "v6_prefix q" and "pfx_Bits p < pfx_Bits q" and "pfx_Contains p (pfx_Addr q)"
  shows "pfx_set q \<subseteq> pfx_set p"
proof (rule pfx_set_nested[OF assms(1,2) _ _ pfx_set_nonempty[OF assms(2)]])
  show "pfx_Bits p \<le> pfx_Bits q" using assms(3) by simp
  show "pfx_Addr q \<in> pfx_set p" using assms(4) by (simp add: pfx_set_def)
qed

lemma canonical_eq:
  assumes p: "v6_prefix p" "pfx_Masked p = p" and q: "v6_prefix q" "pfx_Masked q = q"
    and b: "pfx_Bits p = pfx_Bits q" and a: "a \<in> pfx_set p" "a \<in> pfx_set q"
  shows "p = q"
proof -
  obtain w b where pw: "p = Pfx (Addr6 w []) b" "0 \<le> b" "b \<le> 128"
    using p(1) by (auto simp: v6_prefix_def)
  obtain v where qv: "q = Pfx (Addr6 v []) b" using q(1) b pw by (auto simp: v6_prefix_def)
  obtain u where u: "same_head (nat b) u w" "same_head (nat b) u v"
    using a by (auto simp: pfx_set_def pw qv v6_prefix_contains)
  have "keep_bits (nat b) w = w" "keep_bits (nat b) v = v"
    using p(2) q(2) pw by (simp_all add: pw(1) qv pfx_Masked_def)
  moreover have "keep_bits (nat b) w = keep_bits (nat b) v"
    unfolding keep_bits_eq_iff using u by (metis same_head_sym same_head_trans)
  ultimately have "w = v" by metis
  then show ?thesis by (simp only: pw qv)
qed


section \<open>Removing covered prefixes\<close>

lemma isCovered_iff:
  "isCovered q ps \<longleftrightarrow> (\<exists>p \<in> set ps. pfx_Bits p < pfx_Bits q \<and> pfx_Contains p (pfx_Addr q))"
  by (auto simp: isCovered_def list_ex_iff)

lemma uncovered_set: "set (uncoveredPrefixes ps) = {p \<in> set ps. \<not> isCovered p ps}"
  by (auto simp: uncoveredPrefixes_def)

text \<open>Every prefix of the list lies inside one that is kept: descend to the shortest cover.\<close>

lemma covered_by_kept:
  assumes "\<forall>p \<in> set ps. v6_prefix p" and "q \<in> set ps"
  shows "\<exists>p \<in> set (uncoveredPrefixes ps). pfx_set q \<subseteq> pfx_set p"
  using assms(2)
proof (induction "nat (pfx_Bits q)" arbitrary: q rule: less_induct)
  case less
  show ?case
  proof (cases "isCovered q ps")
    case False
    then show ?thesis using less.prems by (auto simp: uncovered_set)
  next
    case True
    then obtain p where p: "p \<in> set ps" "pfx_Bits p < pfx_Bits q" "pfx_Contains p (pfx_Addr q)"
      by (auto simp: isCovered_iff)
    have "0 \<le> pfx_Bits p" using assms(1) p(1) by (auto simp: v6_prefix_def)
    then obtain k where "k \<in> set (uncoveredPrefixes ps)" "pfx_set p \<subseteq> pfx_set k"
      using less.hyps[of p] p by auto
    moreover have "pfx_set q \<subseteq> pfx_set p"
      using assms(1) p less.prems by (intro covered_subset) auto
    ultimately show ?thesis by blast
  qed
qed

text \<open>A longer prefix has fewer addresses: flip the first bit that the shorter one leaves open.\<close>

lemma longer_differs:
  assumes "v6_prefix p" and "v6_prefix q" and "pfx_Bits p < pfx_Bits q"
  shows "pfx_set q \<noteq> pfx_set p"
proof
  assume eq: "pfx_set q = pfx_set p"
  obtain w b where p: "p = Pfx (Addr6 w []) b" "0 \<le> b" using assms(1) by (auto simp: v6_prefix_def)
  obtain v c where q: "q = Pfx (Addr6 v []) c" "c \<le> 128" using assms(2) by (auto simp: v6_prefix_def)
  let ?i = "127 - nat b"
  define u where "u = v XOR push_bit ?i (1 :: u128)"
  have i: "?i < 128 - nat b" "128 - nat c \<le> ?i" "?i < 128" using assms(3) p q by auto
  have x: "u XOR v = push_bit ?i 1" by (simp add: u_def xor.commute xor.left_commute)
  have "same_head (nat b) v w"
    using eq pfx_set_nonempty[OF assms(2)] by (simp add: p q pfx_set_def)
  moreover have "same_head (nat b) u v"
    unfolding same_head_def x using i by (auto simp: bit_simps intro!: bit_eqI)
  ultimately have "Addr6 u [] \<in> pfx_set p"
    using p by (auto simp: pfx_set_def intro: same_head_trans simp: same_head_sym)
  moreover have "bit (drop_bit (128 - nat c) (push_bit ?i (1 :: u128))) (?i - (128 - nat c))"
    using i by (simp add: bit_simps) linarith
  then have "\<not> same_head (nat c) u v" unfolding same_head_def x by auto
  ultimately show False unfolding eq[symmetric] by (simp add: pfx_set_def q)
qed

text \<open>So a prefix is covered exactly when another one of the list contains it strictly.\<close>

lemma isCovered_subset:
  assumes "\<forall>p \<in> set ps. v6_prefix p" and "q \<in> set ps"
  shows "isCovered q ps \<longleftrightarrow> (\<exists>p \<in> set ps. pfx_set q \<subset> pfx_set p)"
proof
  assume "isCovered q ps"
  then obtain p where p: "p \<in> set ps" "pfx_Bits p < pfx_Bits q" "pfx_Contains p (pfx_Addr q)"
    by (auto simp: isCovered_iff)
  have v: "v6_prefix p" "v6_prefix q" using assms p(1) by auto
  show "\<exists>p \<in> set ps. pfx_set q \<subset> pfx_set p"
    using covered_subset[OF v p(2,3)] longer_differs[OF v p(2)] p(1) by blast
next
  assume "\<exists>p \<in> set ps. pfx_set q \<subset> pfx_set p"
  then obtain p where p: "p \<in> set ps" "pfx_set q \<subset> pfx_set p" by blast
  have v: "v6_prefix p" "v6_prefix q" using assms p(1) by auto
  have a: "pfx_Addr q \<in> pfx_set p" using pfx_set_nonempty[OF v(2)] p(2) by auto
  have "pfx_Bits p < pfx_Bits q"
  proof (rule ccontr)
    assume "\<not> pfx_Bits p < pfx_Bits q"
    then have "pfx_set p \<subseteq> pfx_set q"
      using pfx_set_nested[OF v(2,1) _ pfx_set_nonempty[OF v(2)] a] by simp
    then show False using p(2) by blast
  qed
  then show "isCovered q ps" using a p(1) by (auto simp: isCovered_iff pfx_set_def)
qed

lemma uncovered_maximal:
  assumes "\<forall>p \<in> set ps. v6_prefix p"
  shows "set (uncoveredPrefixes ps) = {q \<in> set ps. \<not> (\<exists>p \<in> set ps. pfx_set q \<subset> pfx_set p)}"
  using isCovered_subset[OF assms] by (auto simp: uncovered_set)

lemma uncovered_same_addresses:
  assumes "\<forall>p \<in> set ps. v6_prefix p"
  shows "(\<Union>p \<in> set (uncoveredPrefixes ps). pfx_set p) = (\<Union>p \<in> set ps. pfx_set p)"
proof
  show "(\<Union>p \<in> set (uncoveredPrefixes ps). pfx_set p) \<subseteq> (\<Union>p \<in> set ps. pfx_set p)"
    by (auto simp: uncovered_set)
  show "(\<Union>p \<in> set ps. pfx_set p) \<subseteq> (\<Union>p \<in> set (uncoveredPrefixes ps). pfx_set p)"
    using covered_by_kept[OF assms] by blast
qed

lemma uncovered_disjoint:
  assumes v: "\<forall>p \<in> set ps. v6_prefix p" and c: "\<forall>p \<in> set ps. pfx_Masked p = p"
    and p: "p \<in> set (uncoveredPrefixes ps)" and q: "q \<in> set (uncoveredPrefixes ps)" and ne: "p \<noteq> q"
  shows "pfx_set p \<inter> pfx_set q = {}"
proof -
  have excl: "False"
    if x: "x \<in> set (uncoveredPrefixes ps)" and y: "y \<in> set (uncoveredPrefixes ps)" and "x \<noteq> y"
      and le: "pfx_Bits x \<le> pfx_Bits y" and a: "a \<in> pfx_set x" "a \<in> pfx_set y" for x y a
  proof -
    have xy: "x \<in> set ps" "y \<in> set ps" "\<not> isCovered y ps" using x y by (auto simp: uncovered_set)
    have vx: "v6_prefix x" "v6_prefix y" using v xy by auto
    have "pfx_set y \<subseteq> pfx_set x" using pfx_set_nested[OF vx le a] .
    then have "pfx_Contains x (pfx_Addr y)" using pfx_set_nonempty[OF vx(2)] by (auto simp: pfx_set_def)
    then have "\<not> pfx_Bits x < pfx_Bits y" using xy by (auto simp: isCovered_iff)
    then have "x = y" using canonical_eq[OF vx(1) _ vx(2) _ _ a] c xy le by auto
    then show False using \<open>x \<noteq> y\<close> by simp
  qed
  show ?thesis
  proof (cases "pfx_Bits p \<le> pfx_Bits q")
    case True
    then show ?thesis using excl[OF p q ne] by blast
  next
    case False
    then show ?thesis using excl[OF q p] ne by fastforce
  qed
qed


section \<open>The eligible routes\<close>

text \<open>
  By the reference configuration: IPv6 networks that cover an address of the interface, link-local,
  temporary and tentative addresses excluded.
\<close>

definition eligible_route :: "sys_ip list \<Rightarrow> ipprefix \<Rightarrow> bool" where
  "eligible_route addrs p \<longleftrightarrow>
     \<not> Is4 (pfx_Addr p) \<and> \<not> pfx_IsSingleIP p \<and>
     (\<exists>a \<in> set addrs. \<not> IsLinkLocalUnicast (pfx_Addr (ip_Address a)) \<and> \<not> Is4 (pfx_Addr (ip_Address a)) \<and>
        \<not> ip_Temporary a \<and> \<not> ip_Tentative a \<and> pfx_Contains p (pfx_Addr (ip_Address a)))"

lemma covering_loop_set:
  "set (covering_loop addrs seen rts) = {p \<in> rt_Prefix ` set rts. eligible_route addrs p} - seen"
  by (induction addrs seen rts rule: covering_loop.induct)
    (auto simp: Let_def eligible_route_def coversUsableAddr_def list_ex_iff usableAddr_def)

lemma covering_loop_distinct: "distinct (covering_loop addrs seen rts)"
  by (induction addrs seen rts rule: covering_loop.induct) (auto simp: Let_def covering_loop_set)

lemma coveringRoutes_set:
  "set (coveringRoutes rts addrs) = {p \<in> rt_Prefix ` set rts. eligible_route addrs p}"
  by (simp add: coveringRoutes_def covering_loop_set)

lemma eligible_valid:
  assumes "eligible_route addrs p" and "plain_v6 (pfx_Addr p)" and "addr_Zone (pfx_Addr p) = []"
    and "pfx_Bits p \<le> 128"
  shows "v6_prefix p"
proof -
  obtain a where a: "pfx_Contains p a" using assms(1) by (auto simp: eligible_route_def)
  obtain x b where p: "p = Pfx x b" by (cases p)
  obtain w where x: "x = Addr6 w []" using assms(2,3) p by (cases x) (auto simp: plain_v6_def)
  have "0 \<le> b" using a by (simp add: p x v6_prefix_contains)
  then show ?thesis using assms(4) by (simp add: v6_prefix_def p x)
qed


section \<open>What the wildcard expands to\<close>

lemma PrefixFrom_Bits_le: "pfx_Bits (PrefixFrom ip b) \<le> 128"
  by (cases ip) (auto simp: PrefixFrom_def)

lemma message_route_bits:
  "message_route m = Ok r \<Longrightarrow> pfx_Bits (rt_Prefix r) \<le> 128 \<and> addr_Zone (pfx_Addr (rt_Prefix r)) = []"
  by (auto simp: message_route_def PrefixFrom_Bits_le split: rtnl_message.splits option.splits if_splits)

lemma LoopbackRoutes_bits:
  assumes "LoopbackRoutes os = Ok rs" and "r \<in> set rs"
  shows "pfx_Bits (rt_Prefix r) \<le> 128 \<and> addr_Zone (pfx_Addr (rt_Prefix r)) = []"
proof -
  have elem: "routesByIndex os i = Ok qs \<Longrightarrow> q \<in> set qs \<Longrightarrow>
      pfx_Bits (rt_Prefix q) \<le> 128 \<and> addr_Zone (pfx_Addr (rt_Prefix q)) = []" for i qs q
    by (auto simp: routesByIndex_def bindO_Ok_iff dest!: mapO_Ok_set dest: message_route_bits)
  from assms(1) obtain ifis where f: "foldO (loopback_iteration os) [] ifis = Ok rs"
    unfolding LoopbackRoutes_def bindO_Ok_iff by blast
  have "\<forall>r \<in> set rs. pfx_Bits (rt_Prefix r) \<le> 128 \<and> addr_Zone (pfx_Addr (rt_Prefix r)) = []"
    by (rule foldO_invariant[OF f]) (auto dest!: loopback_iteration_Ok dest: elem)
  then show ?thesis using assms(2) by blast
qed

lemma route_current_parts:
  assumes "ro_Routes r = Some RoutesOfLoopback" and "ro_Addrs r = Some (AddrsByIndex i)"
    and "route_current os r = Ok ps"
  obtains addrs routes where "AddressesByIndex os i = Ok addrs" and "LoopbackRoutes os = Ok routes"
    and "ps = sort_key pfx_Addr (uncoveredPrefixes (coveringRoutes routes addrs))"
    and "\<forall>p \<in> set (coveringRoutes routes addrs). v6_prefix p"
proof -
  obtain addrs routes where a: "AddressesByIndex os i = Ok addrs" "LoopbackRoutes os = Ok routes"
    "ps = sort_key pfx_Addr (uncoveredPrefixes (coveringRoutes routes addrs))"
    using assms by (auto simp: route_current_def call_routes_def call_addrs_def bindO_Ok_iff)
  moreover have "\<forall>p \<in> set (coveringRoutes routes addrs). v6_prefix p"
    using LoopbackRoutes_bits[OF a(2)] rtnl.routes_v6[OF a(2)]
    by (auto simp: coveringRoutes_set intro: eligible_valid)
  ultimately show thesis by (rule that)
qed

end
