(* ===== verification/Rdnss_Selection.thy ===== *)
theory Rdnss_Selection
  imports Plugin
begin

text \<open>
  Facts about the \<open>RDNSS\<close> plugin's \<open>::\<close> wildcard.  Choosing by pairwise comparison is choosing the
  least element of a linear order; the locale \<open>min_selection\<close> states that contract and derives what the
  loop over a list returns, and \<open>betterRDNSS\<close> is shown to meet it for the key made of stability,
  address class and address.
\<close>

locale min_selection =
  fixes valid :: "'a \<Rightarrow> bool"
    and better :: "'a \<Rightarrow> 'a \<Rightarrow> 'a"
    and key :: "'a \<Rightarrow> 'k::linorder"
  assumes better_initial: "\<not> valid b \<Longrightarrow> better b c = c"
    and better_key: "valid b \<Longrightarrow> valid c \<Longrightarrow> better b c = (if key c < key b then c else b)"
begin

lemma better_valid: "valid c \<Longrightarrow> valid (better b c)"
  by (cases "valid b") (simp_all add: better_initial better_key)

lemma fold_from_valid:
  assumes "valid b" and "\<forall>c \<in> set cs. valid c"
  shows "fold (\<lambda>c b. better b c) cs b \<in> insert b (set cs) \<and>
    (\<forall>c \<in> insert b (set cs). key (fold (\<lambda>c b. better b c) cs b) \<le> key c)"
  using assms
proof (induction cs arbitrary: b)
  case Nil
  then show ?case by simp
next
  case (Cons c cs)
  let ?m = "better b c"
  have m: "valid ?m" "?m \<in> {b, c}" "key ?m \<le> key b" "key ?m \<le> key c"
    using Cons.prems by (auto simp: better_key)
  have "fold (\<lambda>c b. better b c) cs ?m \<in> insert ?m (set cs) \<and>
    (\<forall>c \<in> insert ?m (set cs). key (fold (\<lambda>c b. better b c) cs ?m) \<le> key c)"
    using Cons.IH[OF m(1)] Cons.prems by simp
  then show ?case using m(2-4) by (auto intro: order_trans)
qed

lemma fold_from_initial:
  assumes "\<not> valid z" and "\<forall>c \<in> set cs. valid c" and "cs \<noteq> []"
  shows "fold (\<lambda>c b. better b c) cs z \<in> set cs"
    and "\<forall>c \<in> set cs. key (fold (\<lambda>c b. better b c) cs z) \<le> key c"
proof -
  obtain c cs' where "cs = c # cs'" using assms(3) by (cases cs) auto
  then show "fold (\<lambda>c b. better b c) cs z \<in> set cs"
    "\<forall>c \<in> set cs. key (fold (\<lambda>c b. better b c) cs z) \<le> key c"
    using fold_from_valid[of c cs'] assms by (auto simp: better_initial)
qed

end


section \<open>The order of candidate servers\<close>

definition addr_class :: "addr \<Rightarrow> nat" where
  "addr_class a =
     (if IsPrivate a then 0 else if IsGlobalUnicast a then 1 else if IsLinkLocalUnicast a then 2 else 3)"

definition rdnss_key :: "sys_ip \<Rightarrow> nat \<times> nat \<times> addr" where
  "rdnss_key a =
     (if isStable a then 0 else 1, addr_class (pfx_Addr (ip_Address a)), pfx_Addr (ip_Address a))"

lemma class_loop_key:
  "class_loop [IsPrivate, IsGlobalUnicast, IsLinkLocalUnicast] b c =
     (if (addr_class (pfx_Addr (ip_Address c)), pfx_Addr (ip_Address c))
          < (addr_class (pfx_Addr (ip_Address b)), pfx_Addr (ip_Address b)) then c else b)"
  by (simp add: addr_class_def Let_def)

lemma betterRDNSS_key:
  assumes "pfx_IsValid (ip_Address b)"
  shows "betterRDNSS b c = (if rdnss_key c < rdnss_key b then c else b)"
  unfolding betterRDNSS_def class_loop_key rdnss_key_def using assms by auto

lemma betterRDNSS_initial: "\<not> pfx_IsValid (ip_Address b) \<Longrightarrow> betterRDNSS b c = c"
  by (simp add: betterRDNSS_def)

interpretation rdnss: min_selection "\<lambda>a. pfx_IsValid (ip_Address a)" betterRDNSS rdnss_key
  by unfold_locales (simp_all add: betterRDNSS_initial betterRDNSS_key)

lemma rdnss_loop_fold: "rdnss_loop b as = fold (\<lambda>c b. betterRDNSS b c) (filter rdnss_usable as) b"
  by (induction b as rule: rdnss_loop.induct) auto

lemma rdnss_loop_none: "filter rdnss_usable as = [] \<Longrightarrow> rdnss_loop b as = b"
  by (simp add: rdnss_loop_fold)

lemma rdnss_loop_min:
  assumes "\<forall>a \<in> set as. pfx_IsValid (ip_Address a)" and "filter rdnss_usable as \<noteq> []"
  shows "rdnss_loop zero_ip as \<in> set (filter rdnss_usable as)"
    and "\<forall>a \<in> set (filter rdnss_usable as). rdnss_key (rdnss_loop zero_ip as) \<le> rdnss_key a"
proof -
  have z: "\<not> pfx_IsValid (ip_Address zero_ip)"
    by (simp add: zero_ip_def pfx_zero_def pfx_IsValid_def)
  have v: "\<forall>c \<in> set (filter rdnss_usable as). pfx_IsValid (ip_Address c)" using assms(1) by simp
  show "rdnss_loop zero_ip as \<in> set (filter rdnss_usable as)"
    unfolding rdnss_loop_fold by (rule rdnss.fold_from_initial(1)[OF z v assms(2)])
  show "\<forall>a \<in> set (filter rdnss_usable as). rdnss_key (rdnss_loop zero_ip as) \<le> rdnss_key a"
    unfolding rdnss_loop_fold by (rule rdnss.fold_from_initial(2)[OF z v assms(2)])
qed

text \<open>The key ends in the address, so two least candidates have the same address.\<close>

lemma rdnss_key_addr: "rdnss_key a = rdnss_key b \<Longrightarrow> pfx_Addr (ip_Address a) = pfx_Addr (ip_Address b)"
  by (simp add: rdnss_key_def)

lemma pfx_IsValid_addr:
  "pfx_IsValid p \<Longrightarrow> p = PrefixFrom ip b \<Longrightarrow> addr_IsValid (pfx_Addr p)"
  by (cases ip) (auto simp: PrefixFrom_def pfx_IsValid_def)

end
