(* ===== verification/GoSeconds.thy ===== *)
theory GoSeconds
  imports GoTime
begin

text \<open>
  \<open>int(d.Seconds())\<close> through floating point is the number of whole seconds of \<open>d\<close>, for durations of up
  to a million seconds.
\<close>

lemma fl_exact_shape:
  assumes "0 < p" and "p < 2 ^ 53"
  obtains k where "0 \<le> k" and "fl p 1 = F (p * 2 ^ nat k) (- k)" and "p * 2 ^ nat k < 2 ^ 53"
proof -
  define s where "s = fl_shift p 1"
  have b: "2 ^ 52 \<le> real_of_int p * 2 powr real_of_int s" "real_of_int p * 2 powr real_of_int s < 2 ^ 53"
    using fl_shift_bounds[OF assms(1), of 1] by (simp_all add: s_def)
  have "\<not> s < 0"
  proof
    assume "s < 0"
    then have "2 powr real_of_int s \<le> 2 powr (- 1)" by (intro powr_mono) auto
    then have "real_of_int p * 2 powr real_of_int s \<le> real_of_int p * 2 powr (- 1)"
      using assms(1) by (intro mult_left_mono) auto
    moreover have "real_of_int p < real_of_int (2 ^ 53)" using assms(2) by (simp only: of_int_less_iff)
    ultimately show False using b(1) by (simp add: powr_minus_divide)
  qed
  then have s: "0 \<le> s" by simp
  have "fl p 1 = F (p * 2 ^ nat s) (- s)"
    using s assms(1) round_half_even_exact[of 1 "p * 2 ^ nat s"] by (simp add: fl_def Let_def s_def[symmetric])
  moreover have "p * 2 ^ nat s < 2 ^ 53"
  proof -
    have "real_of_int (p * 2 ^ nat s) < real_of_int (2 ^ 53)" using b(2) s by (simp add: powr_int)
    then show ?thesis by (simp only: of_int_less_iff)
  qed
  ultimately show thesis using that s by blast
qed

lemma f_of_Second: "f_of_int Second = F (Second * 2 ^ 23) (- 23)"
  by code_simp

lemma Second_val: "f_val (F (Second * 2 ^ 23) (- 23)) = 1000000000"
  by (simp add: powr_minus_divide)

text \<open>A whole number of seconds is exact.\<close>

lemma dur_Seconds_whole:
  assumes "0 \<le> s" and "s < 2 ^ 53"
  shows "f_trunc (f_add (f_of_int s) (f_div (f_of_int 0) (f_of_int Second))) = s"
proof (cases "s = 0")
  case True
  have "f_trunc (f_add (f_of_int 0) (f_div (f_of_int 0) (f_of_int Second))) = 0" by code_simp
  then show ?thesis using True by simp
next
  case False
  then have s0: "0 < s" using assms(1) by simp
  obtain k where k: "0 \<le> k" "fl s 1 = F (s * 2 ^ nat k) (- k)" "s * 2 ^ nat k < 2 ^ 53"
    using fl_exact_shape[OF s0 assms(2)] .
  define t where "t = s * 2 ^ nat k"
  have t: "0 < t" "t < 2 ^ 53" using s0 k(3) by (simp_all add: t_def)
  have "f_div (f_of_int 0) (f_of_int Second) = F 0 23" by (simp add: f_of_Second) (simp add: f_of_int_def fl_def)
  then have add: "f_add (f_of_int s) (f_div (f_of_int 0) (f_of_int Second)) = f_shift (- k) (fl t 1)"
    using k(1,2) by (simp add: f_of_int_def t_def Let_def min_def)
  obtain m e where f: "fl t 1 = F m e" "0 \<le> m" using fl_sig_nonneg[of t 1] t(1) by auto
  have "f_val (F m (e + - k)) = f_val (fl t 1) * 2 powr (- real_of_int k)"
    unfolding f(1) using f_val_shift[of "- k" "F m e"] by simp
  also have "\<dots> = real_of_int t * 2 powr (- real_of_int k)" using fl_exact[of t] t by simp
  also have "\<dots> = real_of_int s" using k(1) by (simp add: t_def powr_minus powr_int)
  finally have "f_val (F m (e + - k)) = real_of_int s" .
  then show ?thesis
    unfolding add f(1) f_shift.simps f_trunc_floor[OF f(2)] by simp
qed

lemma f_div_seconds:
  assumes "0 < n"
  obtains m e where "f_div (f_of_int n) (f_of_int Second) = F m e" and "0 < m"
    and "n < 2 ^ 53 \<Longrightarrow> \<bar>f_val (F m e) - n / 1000000000\<bar> \<le> n / 1000000000 * 2 powr (- 53)"
proof -
  obtain mn en where N: "f_of_int n = F mn en" by (cases "f_of_int n")
  have mn: "0 < mn" using fl_sig_pos[OF assms, of 1 mn en] N by (simp add: f_of_int_def)
  let ?mb = "Second * 2 ^ 23 :: int"
  obtain m e where M: "fl mn ?mb = F m e" by (cases "fl mn ?mb")
  have m: "0 < m" using fl_sig_pos[OF mn _ M] by simp
  have D: "f_div (f_of_int n) (f_of_int Second) = F m (e + (en + 23))"
    unfolding N f_of_Second by (simp add: M[simplified])
  have err: "\<bar>f_val (F m e) - mn / ?mb\<bar> \<le> mn / ?mb * 2 powr (- 53)"
    using fl_error[OF mn, of ?mb] M by simp
  have "\<bar>f_val (F m (e + (en + 23))) - n / 1000000000\<bar> \<le> n / 1000000000 * 2 powr (- 53)" if "n < 2 ^ 53"
  proof -
    have nv: "real_of_int n = real_of_int mn * 2 powr real_of_int en"
      using fl_exact[of n] assms that N by (simp add: f_of_int_def)
    let ?c = "2 powr real_of_int (en + 23)"
    have q: "real_of_int n / 1000000000 = real_of_int mn / real_of_int ?mb * ?c"
      unfolding nv by (simp add: powr_add)
    have v: "f_val (F m (e + (en + 23))) = f_val (F m e) * ?c"
      using f_val_shift[of "en + 23" "F m e"] by simp
    have "\<bar>x * ?c - y * ?c\<bar> = \<bar>x - y\<bar> * ?c" for x y :: real
      by (simp add: abs_mult flip: left_diff_distrib)
    then have "\<bar>f_val (F m e) * ?c - mn / ?mb * ?c\<bar> = \<bar>f_val (F m e) - mn / ?mb\<bar> * ?c" .
    also have "\<dots> \<le> mn / ?mb * 2 powr (- 53) * ?c" using err by (rule mult_right_mono) simp
    finally show ?thesis unfolding v q by (simp add: ac_simps)
  qed
  with D m show thesis by (rule that)
qed

lemma floor_between:
  fixes s :: int and n :: int and y w :: real
  assumes s: "0 \<le> s" "s \<le> 10 ^ 6" and n: "0 < n" "n < 1000000000"
    and y: "\<bar>y - n / 1000000000\<bar> \<le> n / 1000000000 * 2 powr (- 53)"
    and w: "\<bar>w - (s + y)\<bar> \<le> (s + y) * 2 powr (- 53)"
  shows "\<lfloor>w\<rfloor> = s"
proof -
  define t where "t = real_of_int n / 1000000000"
  define u where "u = (2 :: real) powr (- 53)"
  have u: "0 < u" "u < 1 / (9 * 10 ^ 15)" by (simp_all add: u_def powr_minus_divide)
  have n1: "1 \<le> real_of_int n" "real_of_int n \<le> 1000000000 - 1" using n by linarith+
  have t: "1 / 10 ^ 9 \<le> t" "t \<le> 1 - 1 / 10 ^ 9" using n1 by (simp_all add: t_def)
  have sr: "0 \<le> real_of_int s" "real_of_int s \<le> 10 ^ 6" using s by simp_all
  have tu: "t * u \<le> u" "0 \<le> t * u" using t u by (simp_all add: mult_le_cancel_right1)
  have yb: "t - u \<le> y" "y \<le> t + u" using y tu unfolding t_def[symmetric] u_def[symmetric] by linarith+
  have sy: "0 \<le> s + y" "s + y \<le> 10 ^ 6 + 1" using yb t u sr by simp_all
  have su: "(s + y) * u \<le> (10 ^ 6 + 1) * u" using sy(2) u(1) by (intro mult_right_mono) simp_all
  have "(10 ^ 6 + 1) * u + u < 1 / 10 ^ 9" using u by simp
  then have "s \<le> w" "w < s + 1"
    using w su yb t sy unfolding u_def[symmetric] by linarith+
  then show ?thesis by linarith
qed

lemma f_add_value:
  assumes "0 \<le> m1" and "0 \<le> m2" and "0 < m1 \<or> 0 < m2"
  obtains m e where "f_add (F m1 e1) (F m2 e2) = F m e" and "0 \<le> m"
    and "\<bar>f_val (F m e) - (f_val (F m1 e1) + f_val (F m2 e2))\<bar>
      \<le> (f_val (F m1 e1) + f_val (F m2 e2)) * 2 powr (- 53)"
proof -
  define x where "x = min e1 e2"
  define t where "t = m1 * 2 ^ nat (e1 - x) + m2 * 2 ^ nat (e2 - x)"
  have t: "0 < t" using assms by (auto simp: t_def intro: add_pos_nonneg add_nonneg_pos)
  obtain m e where f: "fl t 1 = F m e" "0 \<le> m" using fl_sig_nonneg[of t 1] t by auto
  let ?c = "2 powr real_of_int x"
  have part: "real_of_int (k * 2 ^ nat (d - x)) * ?c = f_val (F k d)" if "x \<le> d" for k d
  proof -
    have "(2 :: real) ^ nat (d - x) = 2 powr real_of_int (d - x)" using that by (simp add: powr_int del: of_int_diff)
    then have "real_of_int (k * 2 ^ nat (d - x)) * ?c = real_of_int k * (2 powr real_of_int (d - x) * ?c)"
      by simp
    also have "2 powr real_of_int (d - x) * ?c = 2 powr real_of_int d" by (simp flip: powr_add)
    finally show ?thesis by simp
  qed
  have tv: "real_of_int t * ?c = f_val (F m1 e1) + f_val (F m2 e2)"
    using part[of e1 m1] part[of e2 m2] unfolding t_def by (simp add: x_def distrib_right del: f_val.simps)
  have "\<bar>a * ?c - b * ?c\<bar> = \<bar>a - b\<bar> * ?c" for a b :: real
    by (simp add: abs_mult flip: left_diff_distrib)
  then have "\<bar>f_val (F m e) * ?c - real_of_int t * ?c\<bar> = \<bar>f_val (F m e) - real_of_int t\<bar> * ?c" .
  also have "\<dots> \<le> real_of_int t * 2 powr (- 53) * ?c"
    using fl_error[OF t, of 1] f(1) by (intro mult_right_mono) simp_all
  finally have scaled: "\<bar>f_val (F m e) * ?c - real_of_int t * ?c\<bar> \<le> real_of_int t * 2 powr (- 53) * ?c" .
  have v: "f_val (F m (e + x)) = f_val (F m e) * ?c" using f_val_shift[of x "F m e"] by simp
  have err: "\<bar>f_val (F m (e + x)) - (f_val (F m1 e1) + f_val (F m2 e2))\<bar>
      \<le> (f_val (F m1 e1) + f_val (F m2 e2)) * 2 powr (- 53)"
    using scaled unfolding tv[symmetric] v by (simp add: ac_simps del: f_val.simps)
  have "f_add (F m1 e1) (F m2 e2) = F m (e + x)"
    using f(1) by (simp add: Let_def x_def t_def)
  with f(2) err show thesis by (rule that[rotated])
qed

lemma seconds_int_eq:
  assumes "0 \<le> d" and "d \<le> 10 ^ 6 * Second"
  shows "seconds_int d = d div Second"
proof -
  define s n where "s = d div Second" and "n = d mod Second"
  have s: "0 \<le> s" using assms(1) by (simp add: s_def pos_imp_zdiv_nonneg_iff)
  have s2: "s \<le> 10 ^ 6" using zdiv_mono1[OF assms(2), of Second] by (simp add: s_def)
  have n: "0 \<le> n" "n < 1000000000" by (simp_all add: n_def)
  have eq: "dur_Seconds d = f_add (f_of_int s) (f_div (f_of_int n) (f_of_int Second))"
    using assms(1) by (simp add: dur_Seconds_def go_div_nonneg go_rem_nonneg s_def n_def)
  show ?thesis
  proof (cases "n = 0")
    case True
    then show ?thesis using dur_Seconds_whole[of s] s s2 by (simp add: seconds_int_def eq s_def)
  next
    case False
    then have n0: "0 < n" using n by simp
    have n53: "(1000000000 :: int) < 2 ^ 53" by simp
    obtain m2 e2 where y: "f_div (f_of_int n) (f_of_int Second) = F m2 e2" "0 < m2"
      "\<bar>f_val (F m2 e2) - n / 1000000000\<bar> \<le> n / 1000000000 * 2 powr (- 53)"
    proof (rule f_div_seconds[OF n0])
      fix m e assume "f_div (f_of_int n) (f_of_int Second) = F m e" "0 < m"
        and "n < 2 ^ 53 \<Longrightarrow> \<bar>f_val (F m e) - n / 1000000000\<bar> \<le> n / 1000000000 * 2 powr (- 53)"
      then show thesis using less_trans[OF n(2) n53] by (intro that[of m e]) blast+
    qed
    obtain m1 e1 where a: "f_of_int s = F m1 e1" "0 \<le> m1"
      using fl_sig_nonneg[of s 1] s by (auto simp: f_of_int_def)
    have av: "f_val (F m1 e1) = s" using fl_exact[of s] s s2 a(1) by (simp add: f_of_int_def)
    obtain m e where w: "f_add (F m1 e1) (F m2 e2) = F m e" "0 \<le> m"
      "\<bar>f_val (F m e) - (f_val (F m1 e1) + f_val (F m2 e2))\<bar>
        \<le> (f_val (F m1 e1) + f_val (F m2 e2)) * 2 powr (- 53)"
      using f_add_value[of m1 m2 e1 e2] a(2) y(2) by auto
    have "\<lfloor>f_val (F m e)\<rfloor> = s"
      using floor_between[OF s s2 n0 n(2) y(3)] w(3) unfolding av by blast
    then show ?thesis
      unfolding seconds_int_def eq a(1) y(1) w(1) f_trunc_floor[OF w(2)] by (simp add: s_def)
  qed
qed

end
