(* ===== verification/Plugin_Contract.thy ===== *)
theory Plugin_Contract
  imports Plugin
begin

text \<open>
  The contract of the interface \<open>Plugin\<close>: \<open>Apply\<close> only appends options, leaves every other field of the
  advertisement alone, and takes new addresses from the allocator.  The abstract counterpart
  \<open>plugin_options\<close> gives the options a plugin contributes without addresses; the locale
  \<open>option_source\<close> relates the two for any implementation and lifts the relation to a list of plugins.
\<close>

section \<open>Options without addresses\<close>

definition prefix_options :: "os \<Rightarrow> prefix_plugin \<Rightarrow> ndp_option list outcome" where
  "prefix_options os p =
     bindO (if px_Auto p then prefix_current os p else Ok [px_Prefix p]) (\<lambda>ps.
     bindO (prefix_lifetimes os p) (\<lambda>(valid, pref). Ok (map (prefix_option p valid pref) ps)))"

definition route_options :: "os \<Rightarrow> route_plugin \<Rightarrow> ndp_option list outcome" where
  "route_options os r =
     bindO (if ro_Auto r then route_current os r else Ok [ro_Prefix r]) (\<lambda>rs.
     bindO (route_lifetime os r) (\<lambda>lt. Ok (map (route_option r lt) rs)))"

definition rdnss_options :: "os \<Rightarrow> rdnss_plugin \<Rightarrow> ndp_option list outcome" where
  "rdnss_options os r =
     bindO (if rs_Auto r then bindO (rdnss_current os r) (\<lambda>s. Ok (s # rs_Servers r)) else Ok (rs_Servers r))
       (\<lambda>ss. Ok [RecursiveDNSServerOpt \<lparr>rd_Lifetime = rs_Lifetime r, rd_Servers = ss\<rparr>])"

fun plugin_options :: "os \<Rightarrow> plugin \<Rightarrow> ndp_option list outcome" where
  "plugin_options os (CaptivePortalP c) = Ok [snd (cp_Portal c)]"
| "plugin_options os (PREF64P p) = Ok [snd (pf_Inner p)]"
| "plugin_options os (DNSSLP d) =
     Ok [DNSSearchListOpt \<lparr>sl_Lifetime = dl_Lifetime d, sl_DomainNames = dl_DomainNames d\<rparr>]"
| "plugin_options os (LLAP l) =
     Ok (case la_Addr l of
           None \<Rightarrow> []
         | Some a \<Rightarrow> [LinkLayerAddressOpt \<lparr>ll_Direction = SourceLL, ll_Addr = a\<rparr>])"
| "plugin_options os (MTUP m) = Ok [MTUOpt (of_int m)]"
| "plugin_options os (PrefixP p) = prefix_options os p"
| "plugin_options os (RouteP r) = route_options os r"
| "plugin_options os (RDNSSP r) = rdnss_options os r"

text \<open>The addresses a plugin already holds: portals and PREF64 options are allocated once.\<close>

fun plugin_owned :: "plugin \<Rightarrow> opt_ptr list" where
  "plugin_owned (CaptivePortalP c) = [cp_Portal c]"
| "plugin_owned (PREF64P p) = [pf_Inner p]"
| "plugin_owned _ = []"


section \<open>The contract\<close>

definition extends :: "opt_ptr list \<Rightarrow> ndp_option list \<Rightarrow> ra_state \<Rightarrow> ra_state \<Rightarrow> bool" where
  "extends owned opts s s' \<longleftrightarrow>
     (\<exists>ps. map snd ps = opts \<and>
        fst s' = (fst s)\<lparr>ra_Options := ra_Options (fst s) @ ps\<rparr> \<and>
        snd s \<le> snd s' \<and>
        (\<forall>p \<in> set ps. p \<in> set owned \<or> snd s \<le> fst p \<and> fst p < snd s'))"

locale option_source =
  fixes app :: "'p \<Rightarrow> ra_state \<Rightarrow> ra_state outcome"
    and options :: "'p \<Rightarrow> ndp_option list outcome"
    and owned :: "'p \<Rightarrow> opt_ptr list"
  assumes apply_Ok: "options p = Ok opts \<Longrightarrow> \<exists>s'. app p s = Ok s' \<and> extends (owned p) opts s s'"
    and apply_Err: "options p = Err e \<Longrightarrow> app p s = Err e"
    and apply_Panic: "options p = Panic m \<Longrightarrow> app p s = Panic m"
begin

lemma apply_extends:
  assumes "app p s = Ok s'"
  shows "\<exists>opts. options p = Ok opts \<and> extends (owned p) opts s s'"
proof (cases "options p")
  case (Ok opts)
  then show ?thesis using apply_Ok[OF Ok, of s] assms by auto
next
  case (Err e)
  then show ?thesis using apply_Err[OF Err, of s] assms by simp
next
  case (Panic m)
  then show ?thesis using apply_Panic[OF Panic, of s] assms by simp
qed

lemma apply_options:
  assumes "app p s = Ok s'" and "options p = Ok opts"
  shows "extends (owned p) opts s s'"
  using apply_extends[OF assms(1)] assms(2) by auto

lemma apply_header: "app p s = Ok s' \<Longrightarrow> ra_header (fst s') = ra_header (fst s)"
  by (auto simp: extends_def dest!: apply_extends)

lemma apply_below:
  assumes "app p s = Ok s'" and "opts_below (snd s) (ra_Options (fst s))" and "opts_below (snd s) (owned p)"
  shows "opts_below (snd s') (ra_Options (fst s')) \<and> snd s \<le> snd s'"
proof -
  obtain ps where ps: "fst s' = (fst s)\<lparr>ra_Options := ra_Options (fst s) @ ps\<rparr>" "snd s \<le> snd s'"
      "\<forall>p' \<in> set ps. p' \<in> set (owned p) \<or> snd s \<le> fst p' \<and> fst p' < snd s'"
    using apply_extends[OF assms(1)] unfolding extends_def by blast
  have "opts_below (snd s') ps"
    using ps(2,3) assms(3) by (force simp: opts_below_def)
  then show ?thesis using ps(1,2) assms(2) by (auto intro: opts_below_mono)
qed

text \<open>A list of plugins contributes the concatenation of their options.\<close>

lemma fold_options:
  assumes "foldO (\<lambda>s p. wrapErr (w p) (app p s)) s ps = Ok s'"
  shows "\<exists>optss. mapO options ps = Ok optss \<and> ra_header (fst s') = ra_header (fst s) \<and>
    map snd (ra_Options (fst s')) = map snd (ra_Options (fst s)) @ concat optss \<and> snd s \<le> snd s'"
  using assms
proof (induction ps arbitrary: s)
  case Nil
  then show ?case by simp
next
  case (Cons p ps)
  then obtain t where t: "app p s = Ok t" "foldO (\<lambda>s p. wrapErr (w p) (app p s)) t ps = Ok s'"
    by (auto simp: bindO_Ok_iff)
  obtain opts where opts: "options p = Ok opts" "extends (owned p) opts s t"
    using apply_extends[OF t(1)] by auto
  show ?case
    using Cons.IH[OF t(2)] opts by (auto simp: extends_def)
qed

lemma fold_succeeds:
  assumes "mapO options ps = Ok optss"
  shows "\<exists>s'. foldO (\<lambda>s p. wrapErr (w p) (app p s)) s ps = Ok s'"
  using assms
proof (induction ps arbitrary: s optss)
  case Nil
  then show ?case by simp
next
  case (Cons p ps)
  then obtain opts optss' where o: "options p = Ok opts" "mapO options ps = Ok optss'"
    by (auto simp: bindO_Ok_iff)
  obtain t where "app p s = Ok t" using apply_Ok[OF o(1), of s] by auto
  then show ?case using Cons.IH[OF o(2), of t] by simp
qed

lemma fold_below:
  assumes "foldO (\<lambda>s p. wrapErr (w p) (app p s)) s ps = Ok s'"
    and "opts_below (snd s) (ra_Options (fst s))" and "\<forall>p \<in> set ps. opts_below (snd s) (owned p)"
  shows "opts_below (snd s') (ra_Options (fst s')) \<and> snd s \<le> snd s'"
  using assms
proof (induction ps arbitrary: s)
  case Nil
  then show ?case by simp
next
  case (Cons p ps)
  then obtain t where t: "app p s = Ok t" "foldO (\<lambda>s p. wrapErr (w p) (app p s)) t ps = Ok s'"
    by (auto simp: bindO_Ok_iff)
  have b: "opts_below (snd t) (ra_Options (fst t))" "snd s \<le> snd t"
    using apply_below[OF t(1)] Cons.prems by auto
  have "\<forall>p \<in> set ps. opts_below (snd t) (owned p)"
    using Cons.prems(3) b(2) by (auto intro: opts_below_mono)
  then show ?case using Cons.IH[OF t(2) b(1)] b(2) by auto
qed

text \<open>Every option is old, owned by a plugin, or fresh.\<close>

lemma fold_fresh:
  assumes "foldO (\<lambda>s p. wrapErr (w p) (app p s)) s ps = Ok s'" and "q \<in> set (ra_Options (fst s'))"
  shows "q \<in> set (ra_Options (fst s)) \<or> (\<exists>p \<in> set ps. q \<in> set (owned p)) \<or> snd s \<le> fst q"
  using assms
proof (induction ps arbitrary: s)
  case Nil
  then show ?case by simp
next
  case (Cons p ps)
  then obtain t where t: "app p s = Ok t" "foldO (\<lambda>s p. wrapErr (w p) (app p s)) t ps = Ok s'"
    by (auto simp: bindO_Ok_iff)
  obtain qs where qs: "fst t = (fst s)\<lparr>ra_Options := ra_Options (fst s) @ qs\<rparr>" "snd s \<le> snd t"
      "\<forall>p' \<in> set qs. p' \<in> set (owned p) \<or> snd s \<le> fst p' \<and> fst p' < snd t"
    using apply_extends[OF t(1)] unfolding extends_def by blast
  have "q \<in> set (ra_Options (fst t)) \<or> (\<exists>p \<in> set ps. q \<in> set (owned p)) \<or> snd t \<le> fst q"
    using Cons.IH[OF t(2) Cons.prems(2)] .
  then show ?case using qs by auto
qed

end


section \<open>The plugins meet the contract\<close>

lemma extends_single:
  "p \<in> set owned \<Longrightarrow> extends owned [snd p] s (append_opt p (fst s), snd s)"
  unfolding extends_def by (intro exI[of _ "[p]"]) (simp add: append_opt_def)

lemma extends_none: "extends owned [] s s"
  by (simp add: extends_def)

lemma extends_push: "extends owned [o'] s (push_new o' s)"
  unfolding extends_def push_new_def
  by (intro exI[of _ "[(snd s, o')]"]) (simp add: append_opt_def split: prod.splits)

lemma extends_trans:
  assumes "extends owned os1 s t" and "extends owned os2 t u"
  shows "extends owned (os1 @ os2) s u"
proof -
  obtain ps where ps: "map snd ps = os1" "fst t = (fst s)\<lparr>ra_Options := ra_Options (fst s) @ ps\<rparr>"
      "snd s \<le> snd t" "\<forall>p \<in> set ps. p \<in> set owned \<or> snd s \<le> fst p \<and> fst p < snd t"
    using assms(1) unfolding extends_def by blast
  obtain qs where qs: "map snd qs = os2" "fst u = (fst t)\<lparr>ra_Options := ra_Options (fst t) @ qs\<rparr>"
      "snd t \<le> snd u" "\<forall>p \<in> set qs. p \<in> set owned \<or> snd t \<le> fst p \<and> fst p < snd u"
    using assms(2) unfolding extends_def by blast
  show ?thesis
    unfolding extends_def using ps qs by (intro exI[of _ "ps @ qs"]) fastforce
qed

lemma extends_fold_push: "extends owned (map f xs) s (fold (\<lambda>x. push_new (f x)) xs s)"
proof (induction xs arbitrary: s)
  case Nil
  then show ?case by (simp add: extends_none)
next
  case (Cons x xs)
  then show ?case using extends_trans[OF extends_push[of owned "f x" s] Cons] by simp
qed

lemmas extends_intros = extends_single extends_none extends_push extends_fold_push

lemma prefix_Apply_split:
  "prefix_Apply os p s =
     bindO (if px_Auto p then prefix_current os p else Ok [px_Prefix p]) (\<lambda>ps. prefix_apply_list os p ps s)"
  by (simp add: prefix_Apply_def)

lemma route_Apply_split:
  "route_Apply os r s =
     bindO (if ro_Auto r then route_current os r else Ok [ro_Prefix r]) (\<lambda>rs. route_apply_list os r rs s)"
  by (simp add: route_Apply_def)

lemma rdnss_Apply_split:
  "rdnss_Apply os r s =
     bindO (if rs_Auto r then bindO (rdnss_current os r) (\<lambda>s. Ok (s # rs_Servers r)) else Ok (rs_Servers r))
       (\<lambda>ss. Ok (rdnss_apply_list r ss s))"
  by (simp add: rdnss_Apply_def bindO_assoc)

lemmas apply_defs = captive_portal_Apply_def pref64_Apply_def dnssl_Apply_def lla_Apply_def mtu_Apply_def
  prefix_Apply_split route_Apply_split rdnss_Apply_split prefix_apply_list_def route_apply_list_def
  rdnss_apply_list_def

lemmas options_defs = prefix_options_def route_options_def rdnss_options_def

lemma bindO_cases:
  "(bindO m f = Err e) \<longleftrightarrow> m = Err e \<or> (\<exists>x. m = Ok x \<and> f x = Err e)"
  "(bindO m f = Panic p) \<longleftrightarrow> m = Panic p \<or> (\<exists>x. m = Ok x \<and> f x = Panic p)"
  by (cases m; auto)+

lemma plugin_Apply_Ok:
  assumes "plugin_options os p = Ok opts"
  shows "\<exists>s'. plugin_Apply os p s = Ok s' \<and> extends (plugin_owned p) opts s s'"
  using assms
  by (cases p)
    (auto simp: apply_defs options_defs bindO_Ok_iff extends_intros case_prod_beta
      simp del: split_paired_Ex split: option.splits)

lemma plugin_Apply_Err: "plugin_options os p = Err e \<Longrightarrow> plugin_Apply os p s = Err e"
  by (cases p) (auto simp: apply_defs options_defs bindO_cases split: prod.splits)

lemma plugin_Apply_Panic: "plugin_options os p = Panic m \<Longrightarrow> plugin_Apply os p s = Panic m"
  by (cases p) (auto simp: apply_defs options_defs bindO_cases split: prod.splits)

interpretation plug: option_source "plugin_Apply os" "plugin_options os" plugin_owned for os
  by unfold_locales (rule plugin_Apply_Ok plugin_Apply_Err plugin_Apply_Panic; assumption)+

end
