(* ===== verification/Config.thy ===== *)
theory Config
  imports Plugin_Contract
begin

text \<open>
  \<open>internal/config/config.go\<close>: the parsed configuration of an interface and the router advertisement it
  generates.  Parsing is in \<open>Config_Parse\<close>.
\<close>

record interface_config =
  ci_Name :: string
  ci_Monitor :: bool
  ci_Advertise :: bool
  ci_Verbose :: bool
  ci_MinInterval :: duration
  ci_MaxInterval :: duration
  ci_Managed :: bool
  ci_OtherConfig :: bool
  ci_ReachableTime :: duration
  ci_RetransmitTimer :: duration
  ci_HopLimit :: u8
  ci_DefaultLifetime :: duration
  ci_UnicastOnly :: bool
  ci_Preference :: preference
  ci_Plugins :: "plugin list"

record debug_config =
  dbg_Address :: string
  dbg_Prometheus :: bool
  dbg_PProf :: bool

record config =
  cfg_Interfaces :: "interface_config list"
  cfg_Debug :: debug_config

datatype misconfiguration = InterfaceNotForwarding

definition base_ra :: "interface_config \<Rightarrow> router_advertisement" where
  "base_ra ifi =
     \<lparr>ra_CurrentHopLimit = ci_HopLimit ifi,
      ra_ManagedConfiguration = ci_Managed ifi,
      ra_OtherConfiguration = ci_OtherConfig ifi,
      ra_MobileIPv6HomeAgent = False,
      ra_RouterSelectionPreference = ci_Preference ifi,
      ra_NeighborDiscoveryProxy = False,
      ra_RouterLifetime = ci_DefaultLifetime ifi,
      ra_ReachableTime = ci_ReachableTime ifi,
      ra_RetransmitTimer = ci_RetransmitTimer ifi,
      ra_Options = []\<rparr>"

definition apply_plugins :: "os \<Rightarrow> plugin list \<Rightarrow> ra_state \<Rightarrow> ra_state outcome" where
  "apply_plugins os ps s =
     foldO (\<lambda>s p. wrapErr (FmtV (''failed to apply plugin '' @ plugin_Name p)) (plugin_Apply os p s)) s ps"

text \<open>
  \<open>Interface.RouterAdvertisement\<close>.  The allocator \<open>h\<close> is threaded through for the options it creates.
\<close>

definition RouterAdvertisement_of ::
  "os \<Rightarrow> interface_config \<Rightarrow> bool \<Rightarrow> ptr \<Rightarrow>
     (router_advertisement \<times> misconfiguration list \<times> ptr) outcome" where
  "RouterAdvertisement_of os ifi forwarding h =
     bindO (apply_plugins os (ci_Plugins ifi) (base_ra ifi, h)) (\<lambda>(ra, h').
       if 0 < ra_RouterLifetime ra \<and> \<not> forwarding
       then Ok (ra\<lparr>ra_RouterLifetime := 0\<rparr>, [InterfaceNotForwarding], h')
       else Ok (ra, [], h'))"


section \<open>What an advertisement contains\<close>

text \<open>The router lifetime an interface advertises, given its forwarding state.\<close>

definition effective_lifetime :: "interface_config \<Rightarrow> bool \<Rightarrow> duration" where
  "effective_lifetime ifi forwarding =
     (if 0 < ci_DefaultLifetime ifi \<and> \<not> forwarding then 0 else ci_DefaultLifetime ifi)"

definition reports_misconfiguration :: "interface_config \<Rightarrow> bool \<Rightarrow> bool" where
  "reports_misconfiguration ifi forwarding \<longleftrightarrow> 0 < ci_DefaultLifetime ifi \<and> \<not> forwarding"

lemma ra_header_lifetime: "ra_header a = ra_header b \<Longrightarrow> ra_RouterLifetime a = ra_RouterLifetime b"
  by (metis ra_header_def router_advertisement.select_convs(7) router_advertisement.surjective
      router_advertisement.update_convs(10))

lemma apply_plugins_facts:
  assumes "apply_plugins os ps s = Ok s'"
  obtains optss where "mapO (plugin_options os) ps = Ok optss"
    and "ra_header (fst s') = ra_header (fst s)"
    and "map snd (ra_Options (fst s')) = map snd (ra_Options (fst s)) @ concat optss"
    and "snd s \<le> snd s'"
  using plug.fold_options[OF assms[unfolded apply_plugins_def]] by blast

lemma RouterAdvertisement_facts:
  assumes "RouterAdvertisement_of os ifi forwarding h = Ok (ra, ms, h')"
  shows "ra_header ra = ra_header ((base_ra ifi)\<lparr>ra_RouterLifetime := effective_lifetime ifi forwarding\<rparr>)"
    and "ms = (if reports_misconfiguration ifi forwarding then [InterfaceNotForwarding] else [])"
    and "\<exists>optss. mapO (plugin_options os) (ci_Plugins ifi) = Ok optss \<and> map snd (ra_Options ra) = concat optss"
    and "h \<le> h'"
proof -
  from assms obtain ra0 where
    ap: "apply_plugins os (ci_Plugins ifi) (base_ra ifi, h) = Ok (ra0, h')" and
    r: "if 0 < ra_RouterLifetime ra0 \<and> \<not> forwarding
        then ra = ra0\<lparr>ra_RouterLifetime := 0\<rparr> \<and> ms = [InterfaceNotForwarding]
        else ra = ra0 \<and> ms = []"
    by (auto simp: RouterAdvertisement_of_def bindO_Ok_iff split: if_splits)
  obtain optss where o: "mapO (plugin_options os) (ci_Plugins ifi) = Ok optss"
    "ra_header ra0 = ra_header (base_ra ifi)" "map snd (ra_Options ra0) = concat optss" "h \<le> h'"
    using apply_plugins_facts[OF ap] by (auto simp: base_ra_def)
  have lt: "ra_RouterLifetime ra0 = ci_DefaultLifetime ifi"
    using ra_header_lifetime[OF o(2)] by (simp add: base_ra_def)
  have upd: "ra_header (ra0\<lparr>ra_RouterLifetime := x\<rparr>) = ra_header ((base_ra ifi)\<lparr>ra_RouterLifetime := x\<rparr>)" for x
    using o(2) by (cases ra0) (simp add: ra_header_def base_ra_def)
  have same: "(base_ra ifi)\<lparr>ra_RouterLifetime := ci_DefaultLifetime ifi\<rparr> = base_ra ifi"
    by (simp add: base_ra_def)
  show "ra_header ra = ra_header ((base_ra ifi)\<lparr>ra_RouterLifetime := effective_lifetime ifi forwarding\<rparr>)"
    using r o(2) upd same by (auto simp: effective_lifetime_def lt split: if_splits)
  show "ms = (if reports_misconfiguration ifi forwarding then [InterfaceNotForwarding] else [])"
    using r by (auto simp: reports_misconfiguration_def lt split: if_splits)
  show "\<exists>optss. mapO (plugin_options os) (ci_Plugins ifi) = Ok optss \<and> map snd (ra_Options ra) = concat optss"
    using o r by (auto split: if_splits)
  show "h \<le> h'" by fact
qed

text \<open>Generation succeeds exactly when every plugin yields its options.\<close>

lemma apply_plugins_is_Ok: "is_Ok (apply_plugins os ps s) \<longleftrightarrow> is_Ok (mapO (plugin_options os) ps)"
proof (induction ps arbitrary: s)
  case (Cons p ps)
  show ?case
  proof (cases "plugin_options os p")
    case (Ok opts)
    then obtain s' where "plugin_Apply os p s = Ok s'" using plugin_Apply_Ok by blast
    then have "is_Ok (apply_plugins os (p # ps) s) \<longleftrightarrow> is_Ok (apply_plugins os ps s')"
      by (simp add: apply_plugins_def)
    also have "\<dots> \<longleftrightarrow> is_Ok (mapO (plugin_options os) (p # ps))"
      unfolding Cons.IH using Ok by (cases "mapO (plugin_options os) ps") simp_all
    finally show ?thesis .
  qed (simp_all add: apply_plugins_def plugin_Apply_Err plugin_Apply_Panic)
qed (simp add: apply_plugins_def)

lemma RouterAdvertisement_is_Ok:
  "is_Ok (RouterAdvertisement_of os ifi forwarding h) \<longleftrightarrow> is_Ok (mapO (plugin_options os) (ci_Plugins ifi))"
  unfolding apply_plugins_is_Ok[of os "ci_Plugins ifi" "(base_ra ifi, h)", symmetric] RouterAdvertisement_of_def
  by (cases "apply_plugins os (ci_Plugins ifi) (base_ra ifi, h)") (auto split: prod.splits)

text \<open>
  Fresh options: when every address a plugin owns was allocated earlier, all options of the
  generated advertisement lie below the allocator, and distinct from anything allocated later.
\<close>

definition plugins_allocated :: "ptr \<Rightarrow> interface_config \<Rightarrow> bool" where
  "plugins_allocated h ifi \<longleftrightarrow> (\<forall>p \<in> set (ci_Plugins ifi). opts_below h (plugin_owned p))"

lemma RouterAdvertisement_below:
  assumes "RouterAdvertisement_of os ifi forwarding h = Ok (ra, ms, h')" and "plugins_allocated h ifi"
  shows "opts_below h' (ra_Options ra)"
proof -
  from assms(1) obtain ra0 where
    ap: "apply_plugins os (ci_Plugins ifi) (base_ra ifi, h) = Ok (ra0, h')" and
    r: "ra_Options ra = ra_Options ra0"
    by (auto simp: RouterAdvertisement_of_def bindO_Ok_iff split: if_splits)
  have "opts_below (snd (ra0, h')) (ra_Options (fst (ra0, h')))"
    using plug.fold_below[OF ap[unfolded apply_plugins_def]] assms(2)
    by (auto simp: base_ra_def plugins_allocated_def)
  then show ?thesis by (simp add: r)
qed

text \<open>Options not held by a plugin are new.\<close>

lemma RouterAdvertisement_fresh:
  assumes "RouterAdvertisement_of os ifi forwarding h = Ok (ra, ms, h')" and "q \<in> set (ra_Options ra)"
  shows "(\<exists>p \<in> set (ci_Plugins ifi). q \<in> set (plugin_owned p)) \<or> h \<le> fst q"
proof -
  from assms(1) obtain ra0 where
    ap: "apply_plugins os (ci_Plugins ifi) (base_ra ifi, h) = Ok (ra0, h')" and
    r: "ra_Options ra = ra_Options ra0"
    by (auto simp: RouterAdvertisement_of_def bindO_Ok_iff split: if_splits)
  show ?thesis
    using plug.fold_fresh[OF ap[unfolded apply_plugins_def], of q] assms(2) by (auto simp: r base_ra_def)
qed

end
