(* ===== verification/Examples.thy ===== *)
theory Examples
  imports Config
begin

text \<open>
  A concrete host, on which the properties are instantiated: an interface with two addresses in
  \<open>2001:db8::/64\<close> and a link-local one, and a loopback interface with nested routes.
\<close>

definition v6_bytes :: "u8 \<Rightarrow> u8 \<Rightarrow> u8 list" where
  "v6_bytes subnet last_byte = [0x20, 0x01, 0x0d, 0xb8, 0, 0, 0, subnet, 0, 0, 0, 0, 0, 0, 0, last_byte]"

definition ll_bytes :: "u8 list" where
  "ll_bytes = [0xfe, 0x80, 0, 0, 0, 0, 0, 0, 0, 0, 0, 0, 0, 0, 0, 1]"

definition addr_msg :: "u8 list \<Rightarrow> u8 \<Rightarrow> u32 \<Rightarrow> ifa_flag list \<Rightarrow> rtnl_message" where
  "addr_msg bs len valid flags =
     AddressMsg \<lparr>am_Family = AF_INET6, am_PrefixLength = len,
       am_Attributes = Some \<lparr>aa_Address = bs, aa_CacheInfo_Valid = valid, aa_Flags = flags\<rparr>\<rparr>"

definition route_msg :: "u8 list \<Rightarrow> u8 \<Rightarrow> rtnl_message" where
  "route_msg bs len =
     RouteMsg \<lparr>rm_Family = AF_INET6, rm_DstLength = len, rm_Dst = bs, rm_OutIface = 1, rm_Pref = None\<rparr>"

definition host_addrs :: "rtnl_message list" where
  "host_addrs =
     [addr_msg (v6_bytes 1 2) 64 3600 [], addr_msg ll_bytes 64 0xffffffff [],
      addr_msg (v6_bytes 0 1) 64 0xffffffff [], addr_msg (v6_bytes 1 9) 64 3600 [IFA_F_TEMPORARY]]"

definition host_routes :: "rtnl_message list" where
  "host_routes = [route_msg (v6_bytes 0 0) 64, route_msg (v6_bytes 0 0) 48]"

definition loopback :: net_interface where
  "loopback = \<lparr>if_Name = ''lo'', if_Index = 1, if_Up = True, if_Loopback = True, if_HardwareAddr = None\<rparr>"

definition eth0 :: net_interface where
  "eth0 = \<lparr>if_Name = ''eth0'', if_Index = 2, if_Up = True, if_Loopback = False,
     if_HardwareAddr = Some [2, 0, 0, 0, 0, 1]\<rparr>"

definition host :: "rtnl_message list \<Rightarrow> instant \<Rightarrow> os" where
  "host addrs now =
     \<lparr>os_Now = now,
      os_Execute = (\<lambda>r. case r of RTM_GETADDR _ _ \<Rightarrow> Ok addrs | RTM_GETROUTE _ _ _ \<Rightarrow> Ok host_routes),
      os_Interfaces = Ok [loopback, eth0],
      os_InterfaceByIndex = (\<lambda>_. Ok eth0),
      os_InterfaceAddrs = (\<lambda>_. Ok [])\<rparr>"

definition auto64 :: prefix_plugin where
  "auto64 = \<lparr>px_Auto = True, px_Prefix = Pfx IPv6Unspecified 64, px_OnLink = True, px_Autonomous = True,
     px_ValidLifetime = 24 * Hour, px_PreferredLifetime = 4 * Hour, px_Epoch = 1, px_Deprecated = True,
     px_TimeNow = Some TimeNow, px_Addrs = Some (AddrsByIndex 2)\<rparr>"

definition auto_route :: route_plugin where
  "auto_route = \<lparr>ro_Auto = True, ro_Prefix = Pfx IPv6Unspecified 0, ro_Preference = PrefMedium,
     ro_Lifetime = 24 * Hour, ro_Epoch = 1, ro_Deprecated = False, ro_TimeNow = Some TimeNow,
     ro_Routes = Some RoutesOfLoopback, ro_Addrs = Some (AddrsByIndex 2)\<rparr>"

definition auto_rdnss :: rdnss_plugin where
  "auto_rdnss = \<lparr>rs_Auto = True, rs_Lifetime = Hour, rs_Servers = [], rs_Addrs = Some (AddrsByIndex 2)\<rparr>"

lemmas host_defs = host_def host_addrs_def host_routes_def addr_msg_def route_msg_def v6_bytes_def ll_bytes_def
  loopback_def eth0_def auto64_def auto_route_def auto_rdnss_def

text \<open>What the operating system's messages decode to.\<close>

definition mk_ip :: "u128 \<Rightarrow> int \<Rightarrow> bool \<Rightarrow> bool \<Rightarrow> sys_ip" where
  "mk_ip w bits temporary valid_forever =
     \<lparr>ip_Address = Pfx (Addr6 w []) bits, ip_Deprecated = False, ip_ManageTemporaryAddresses = False,
      ip_StablePrivacy = False, ip_Temporary = temporary, ip_Tentative = False,
      ip_ValidForever = valid_forever\<rparr>"

definition host_ips :: "sys_ip list" where
  "host_ips =
     [mk_ip 0x20010db8000000010000000000000002 64 False False,
      mk_ip 0xfe800000000000000000000000000001 64 False True,
      mk_ip 0x20010db8000000000000000000000001 64 False True,
      mk_ip 0x20010db8000000010000000000000009 64 True False]"

lemma host_addrs_ips: "mapO address_ip host_addrs = Ok host_ips"
  by code_simp

lemma host_AddressesByIndex: "AddressesByIndex (host host_addrs now) i = Ok host_ips"
  by (simp add: AddressesByIndex_def host_def host_addrs_ips)

definition net0 :: ipprefix where "net0 = Pfx (Addr6 0x20010db8000000000000000000000000 []) 64"
definition net1 :: ipprefix where "net1 = Pfx (Addr6 0x20010db8000000010000000000000000 []) 64"
definition net48 :: ipprefix where "net48 = Pfx (Addr6 0x20010db8000000000000000000000000 []) 48"

lemma host_prefixes: "sort_key pfx_Addr (prefix_loop 64 {} host_ips) = [net0, net1]"
  by code_simp

lemma host_prefix_current: "prefix_current (host host_addrs now) auto64 = Ok [net0, net1]"
  by (simp add: prefix_current_def call_addrs_def auto64_def host_AddressesByIndex host_prefixes)

lemma host_LoopbackRoutes:
  "LoopbackRoutes (host host_addrs now) =
     Ok [\<lparr>rt_Prefix = net0, rt_Index = 1, rt_Preference = PrefMedium\<rparr>,
         \<lparr>rt_Prefix = net48, rt_Index = 1, rt_Preference = PrefMedium\<rparr>]"
proof -
  have m: "mapO message_route host_routes =
     Ok [\<lparr>rt_Prefix = net0, rt_Index = 1, rt_Preference = PrefMedium\<rparr>,
         \<lparr>rt_Prefix = net48, rt_Index = 1, rt_Preference = PrefMedium\<rparr>]"
    by code_simp
  show ?thesis
    by (simp add: LoopbackRoutes_def host_def loopback_iteration_def loopback_def eth0_def routesByIndex_def m)
qed

lemma host_routes_kept:
  "sort_key pfx_Addr (uncoveredPrefixes (coveringRoutes
      [\<lparr>rt_Prefix = net0, rt_Index = 1, rt_Preference = PrefMedium\<rparr>,
       \<lparr>rt_Prefix = net48, rt_Index = 1, rt_Preference = PrefMedium\<rparr>] host_ips)) = [net48]"
  by code_simp

lemma host_route_current: "route_current (host host_addrs now) auto_route = Ok [net48]"
  by (simp add: route_current_def call_routes_def call_addrs_def auto_route_def host_LoopbackRoutes
      host_AddressesByIndex host_routes_kept)

lemma host_rdnss_loop:
  "pfx_Addr (ip_Address (rdnss_loop zero_ip host_ips)) = Addr6 0x20010db8000000000000000000000001 []"
  by code_simp

lemma host_rdnss_current:
  "rdnss_current (host host_addrs now) auto_rdnss = Ok (Addr6 0x20010db8000000000000000000000001 [])"
  by (simp add: rdnss_current_def call_addrs_def auto_rdnss_def host_AddressesByIndex host_rdnss_loop Let_def)

end
