(* ===== verification/Plugin_Properties.thy ===== *)
theory Plugin_Properties
  imports Prefix_Selection Route_Selection Rdnss_Selection GoSeconds Examples
begin

text \<open>
  The properties of the plugins: what the wildcards of the \<open>Prefix\<close>, \<open>Route\<close> and \<open>RDNSS\<close> plugins expand
  to on the addresses and routes of the host, how deprecated lifetimes count down, and the lifetime of a
  PREF64 option.
\<close>

section \<open>Prefixes\<close>

text \<open>
  C9: the \<open>::/N\<close> wildcard expands to exactly the networks of length N of the interface's IPv6 addresses
  that are neither link-local nor temporary nor tentative, each once, in increasing order.  A
  deprecated address counts like any other, although the change log says that it is no candidate.
\<close>

theorem prefix_wildcard:
  assumes "px_Addrs p = Some (AddrsByIndex i)" and "prefix_current os p = Ok ps"
  shows "\<exists>addrs. AddressesByIndex os i = Ok addrs \<and>
    set ps = {pfx_Masked (ip_Address a) | a.
      a \<in> set addrs \<and> \<not> Is4 (pfx_Addr (ip_Address a)) \<and> \<not> IsLinkLocalUnicast (pfx_Addr (ip_Address a)) \<and>
      \<not> ip_Temporary a \<and> \<not> ip_Tentative a \<and> pfx_Bits (ip_Address a) = pfx_Bits (px_Prefix p)} \<and>
    sorted_wrt (<) (map pfx_Addr ps)"
proof -
  obtain addrs where a: "call_addrs os (px_Addrs p) = Ok addrs"
    using assms(2) by (auto simp: prefix_current_def bindO_Ok_iff)
  then have "AddressesByIndex os i = Ok addrs" using assms(1) by (simp add: call_addrs_def)
  moreover have "auto_prefixes (pfx_Bits (px_Prefix p)) (set addrs) = {pfx_Masked (ip_Address a) | a.
      a \<in> set addrs \<and> \<not> Is4 (pfx_Addr (ip_Address a)) \<and> \<not> IsLinkLocalUnicast (pfx_Addr (ip_Address a)) \<and>
      \<not> ip_Temporary a \<and> \<not> ip_Tentative a \<and> pfx_Bits (ip_Address a) = pfx_Bits (px_Prefix p)}"
    by (auto simp: auto_prefixes_def usableAddr_def Let_def)
  ultimately show ?thesis using prefix_current_facts[OF a assms(2)] by auto
qed

theorem prefix_wildcard_witness:
  "\<exists>addrs. AddressesByIndex (host host_addrs 5) 2 = Ok addrs \<and>
    set [net0, net1] = {pfx_Masked (ip_Address a) | a.
      a \<in> set addrs \<and> \<not> Is4 (pfx_Addr (ip_Address a)) \<and> \<not> IsLinkLocalUnicast (pfx_Addr (ip_Address a)) \<and>
      \<not> ip_Temporary a \<and> \<not> ip_Tentative a \<and> pfx_Bits (ip_Address a) = pfx_Bits (px_Prefix auto64)} \<and>
    sorted_wrt (<) (map pfx_Addr [net0, net1])"
  by (rule prefix_wildcard[of auto64, OF _ host_prefix_current]) (simp add: auto64_def)

text \<open>
  The expansion does not depend on the order in which the system lists the addresses, nor on
  duplicates, so that advertisements are stable.
\<close>

theorem prefix_wildcard_stable:
  assumes "px_Addrs p = Some (AddrsByIndex i)" and "AddressesByIndex os i = Ok as"
    and "AddressesByIndex os' i = Ok bs" and "set as = set bs"
  shows "prefix_current os p = prefix_current os' p"
  using assms prefix_loop_sorted_set_eq[OF assms(4)]
  by (simp add: prefix_current_def call_addrs_def)

theorem prefix_wildcard_stable_witness:
  "prefix_current (host host_addrs 5) auto64 = prefix_current (host (rev host_addrs) 5) auto64"
proof (rule prefix_wildcard_stable[of auto64 2 _ host_ips _ "rev host_ips"])
  have "mapO address_ip (rev host_addrs) = Ok (rev host_ips)" by code_simp
  then show "AddressesByIndex (host (rev host_addrs) 5) 2 = Ok (rev host_ips)"
    by (simp add: AddressesByIndex_def host_def)
qed (simp_all add: auto64_def host_AddressesByIndex)

text \<open>
  C24: the lifetimes of a deprecated prefix count down: at any time from the epoch on, each is the
  configured one less the time that has passed, and zero from its end on.  So they are never negative,
  never grow, and the preferred one never exceeds the valid one.
\<close>

theorem deprecated_prefix_lifetimes:
  assumes "px_Deprecated p" and "px_Epoch p \<noteq> 0" and "px_TimeNow p = Some TimeNow"
    and "in_int64 (px_ValidLifetime p)" and "in_int64 (px_PreferredLifetime p)"
    and "px_Epoch p \<le> os_Now os"
  shows "prefix_lifetimes os p =
      Ok (max 0 (px_ValidLifetime p - (os_Now os - px_Epoch p)),
          max 0 (px_PreferredLifetime p - (os_Now os - px_Epoch p)))"
proof -
  have "remaining (os_Now os) (time_Add (px_Epoch p) lt) = max 0 (lt - (os_Now os - px_Epoch p))"
    if "in_int64 lt" for lt
    using that assms(6)
    by (auto simp: remaining_def time_Add_def time_Sub_def in_int64_def max_int64_def min_int64_def)
  then show ?thesis
    using assms by (simp add: prefix_lifetimes_def time_IsZero_def call_now_def)
qed

theorem deprecated_prefix_lifetimes_witness:
  "prefix_lifetimes (host [] (5 * Hour + 1)) auto64 =
      Ok (max 0 (px_ValidLifetime auto64 - (os_Now (host [] (5 * Hour + 1)) - px_Epoch auto64)),
          max 0 (px_PreferredLifetime auto64 - (os_Now (host [] (5 * Hour + 1)) - px_Epoch auto64)))
      \<and> max 0 (px_ValidLifetime auto64 - 5 * Hour) = 19 * Hour \<and> max 0 (px_PreferredLifetime auto64 - 5 * Hour) = 0"
proof
  show "prefix_lifetimes (host [] (5 * Hour + 1)) auto64 =
      Ok (max 0 (px_ValidLifetime auto64 - (os_Now (host [] (5 * Hour + 1)) - px_Epoch auto64)),
          max 0 (px_PreferredLifetime auto64 - (os_Now (host [] (5 * Hour + 1)) - px_Epoch auto64)))"
    by (rule deprecated_prefix_lifetimes)
      (simp_all add: auto64_def host_def in_int64_def max_int64_def min_int64_def)
qed (simp add: auto64_def)


section \<open>Routes\<close>



text \<open>
  The advertised routes are disjoint: no advertised prefix lies inside another one, provided the
  routes of the system are in canonical form.
\<close>

theorem route_wildcard_disjoint:
  assumes "ro_Routes r = Some RoutesOfLoopback" and "ro_Addrs r = Some (AddrsByIndex i)"
    and "route_current os r = Ok ps"
    and "\<forall>routes. LoopbackRoutes os = Ok routes \<longrightarrow> (\<forall>rt \<in> set routes. pfx_Masked (rt_Prefix rt) = rt_Prefix rt)"
    and "p \<in> set ps" and "q \<in> set ps" and "p \<noteq> q"
  shows "pfx_set p \<inter> pfx_set q = {}"
proof -
  obtain addrs routes where a: "AddressesByIndex os i = Ok addrs" "LoopbackRoutes os = Ok routes"
    "ps = sort_key pfx_Addr (uncoveredPrefixes (coveringRoutes routes addrs))"
    "\<forall>p \<in> set (coveringRoutes routes addrs). v6_prefix p"
    using route_current_parts[OF assms(1-3)] .
  have c: "\<forall>p \<in> set (coveringRoutes routes addrs). pfx_Masked p = p"
    using assms(4) a(2) by (auto simp: coveringRoutes_set)
  show ?thesis
    using uncovered_disjoint[OF a(4) c _ _ assms(7)] assms(5,6) by (simp add: a(3))
qed

lemma nested_routes:
  "coveringRoutes
      [\<lparr>rt_Prefix = net0, rt_Index = 1, rt_Preference = PrefMedium\<rparr>,
       \<lparr>rt_Prefix = net1, rt_Index = 1, rt_Preference = PrefMedium\<rparr>] host_ips = [net0, net1]"
  by code_simp

definition two_routes_host :: os where
  "two_routes_host = (host host_addrs 5)\<lparr>os_Execute :=
     (\<lambda>r. case r of RTM_GETADDR _ _ \<Rightarrow> Ok host_addrs
        | RTM_GETROUTE _ _ _ \<Rightarrow> Ok [route_msg (v6_bytes 0 0) 64, route_msg (v6_bytes 1 0) 64])\<rparr>"

lemma two_routes:
  "LoopbackRoutes two_routes_host =
     Ok [\<lparr>rt_Prefix = net0, rt_Index = 1, rt_Preference = PrefMedium\<rparr>,
         \<lparr>rt_Prefix = net1, rt_Index = 1, rt_Preference = PrefMedium\<rparr>]"
proof -
  have m: "mapO message_route [route_msg (v6_bytes 0 0) 64, route_msg (v6_bytes 1 0) 64] =
     Ok [\<lparr>rt_Prefix = net0, rt_Index = 1, rt_Preference = PrefMedium\<rparr>,
         \<lparr>rt_Prefix = net1, rt_Index = 1, rt_Preference = PrefMedium\<rparr>]"
    by code_simp
  show ?thesis
    by (simp add: LoopbackRoutes_def two_routes_host_def host_def loopback_iteration_def loopback_def
        eth0_def routesByIndex_def m del: mapO.simps)
qed

lemma two_routes_current: "route_current two_routes_host auto_route = Ok [net0, net1]"
proof -
  have "AddressesByIndex two_routes_host 2 = Ok host_ips"
    by (simp add: AddressesByIndex_def two_routes_host_def host_addrs_ips)
  moreover have "sort_key pfx_Addr (uncoveredPrefixes [net0, net1]) = [net0, net1]" by code_simp
  ultimately show ?thesis
    by (simp add: route_current_def call_routes_def call_addrs_def auto_route_def two_routes nested_routes)
qed

theorem route_wildcard_disjoint_witness: "pfx_set net0 \<inter> pfx_set net1 = {}"
proof (rule route_wildcard_disjoint[of auto_route, OF _ _ two_routes_current])
  have "pfx_Masked net0 = net0" "pfx_Masked net1 = net1" by code_simp+
  then show "\<forall>routes. LoopbackRoutes two_routes_host = Ok routes \<longrightarrow>
      (\<forall>rt \<in> set routes. pfx_Masked (rt_Prefix rt) = rt_Prefix rt)"
    by (auto simp: two_routes)
  show "net0 \<noteq> net1" by code_simp
qed (simp_all add: auto_route_def)

section \<open>Servers\<close>

lemma rdnss_zero: "pfx_Addr (ip_Address zero_ip) = AddrZero"
  by (simp add: zero_ip_def pfx_zero_def)

lemma rtnl_valid_addr:
  "rdnss_usable a \<Longrightarrow> plain_v6 (pfx_Addr (ip_Address a)) \<Longrightarrow> addr_IsValid (pfx_Addr (ip_Address a))"
  by (cases "pfx_Addr (ip_Address a)") (auto simp: plain_v6_def)

text \<open>
  C11: the \<open>::\<close> wildcard of RDNSS picks the best usable address of the interface: stable before
  temporary, then unique local, global, link-local, then the lowest.
\<close>

theorem rdnss_wildcard:
  assumes "rs_Addrs r = Some (AddrsByIndex i)" and "AddressesByIndex os i = Ok addrs"
    and "\<forall>a \<in> set addrs. pfx_IsValid (ip_Address a)" and "rdnss_current os r = Ok ip"
  shows "\<exists>a \<in> set addrs. rdnss_usable a \<and> ip = pfx_Addr (ip_Address a) \<and>
    (\<forall>b \<in> set addrs. rdnss_usable b \<longrightarrow> rdnss_key a \<le> rdnss_key b)"
proof -
  have ip: "ip = pfx_Addr (ip_Address (rdnss_loop zero_ip addrs))" "addr_IsValid ip"
    using assms by (auto simp: rdnss_current_def call_addrs_def Let_def split: if_splits)
  then have "filter rdnss_usable addrs \<noteq> []"
    using rdnss_loop_none[of addrs zero_ip] by (auto simp: rdnss_zero)
  from rdnss_loop_min[OF assms(3) this] show ?thesis using ip(1) by fastforce
qed

lemma host_ips_valid: "\<forall>a \<in> set host_ips. pfx_IsValid (ip_Address a)"
  by (simp add: host_ips_def mk_ip_def pfx_IsValid_def)

theorem rdnss_wildcard_witness:
  "\<exists>a \<in> set host_ips. rdnss_usable a \<and> Addr6 0x20010db8000000000000000000000001 [] = pfx_Addr (ip_Address a) \<and>
    (\<forall>b \<in> set host_ips. rdnss_usable b \<longrightarrow> rdnss_key a \<le> rdnss_key b)"
  by (rule rdnss_wildcard[of auto_rdnss 2 "host host_addrs 5", OF _ host_AddressesByIndex host_ips_valid
        host_rdnss_current]) (simp add: auto_rdnss_def)

text \<open>
  The wildcard fails exactly when the interface has no usable address, and otherwise its choice
  depends on the set of the addresses only.
\<close>

theorem rdnss_wildcard_total:
  assumes "rs_Addrs r = Some (AddrsByIndex i)" and "AddressesByIndex os i = Ok as"
    and "AddressesByIndex os' i = Ok bs" and "set as = set bs"
    and "\<forall>a \<in> set as. pfx_IsValid (ip_Address a)"
  shows "rdnss_current os r = rdnss_current os' r \<and>
    (rdnss_current os r = Err (Msg ''interface has no usable IPv6 addresses'') \<longleftrightarrow>
      (\<forall>a \<in> set as. \<not> rdnss_usable a))"
proof (cases "filter rdnss_usable as = []")
  case True
  then have "\<forall>a \<in> set as. \<not> rdnss_usable a" by (simp add: filter_empty_conv)
  moreover from this have "filter rdnss_usable bs = []" using assms(4) by (simp add: filter_empty_conv)
  ultimately show ?thesis
    using assms True rdnss_loop_none[of as zero_ip] rdnss_loop_none[of bs zero_ip]
    by (simp add: rdnss_current_def call_addrs_def Let_def rdnss_zero)
next
  case False
  obtain u where u: "u \<in> set as" "rdnss_usable u" using False by (auto simp: filter_empty_conv)
  then have Fb: "filter rdnss_usable bs \<noteq> []" using assms(4) by (auto simp: filter_empty_conv)
  have vb: "\<forall>a \<in> set bs. pfx_IsValid (ip_Address a)" using assms(4,5) by simp
  let ?a = "rdnss_loop zero_ip as" and ?b = "rdnss_loop zero_ip bs"
  have same: "set (filter rdnss_usable as) = set (filter rdnss_usable bs)" using assms(4) by auto
  have "rdnss_key ?a = rdnss_key ?b"
    using rdnss_loop_min[OF assms(5) False] rdnss_loop_min[OF vb Fb] same by (metis antisym)
  then have eq: "pfx_Addr (ip_Address ?a) = pfx_Addr (ip_Address ?b)" by (rule rdnss_key_addr)
  have "?a \<in> set as" "rdnss_usable ?a" using rdnss_loop_min(1)[OF assms(5) False] by auto
  then have "addr_IsValid (pfx_Addr (ip_Address ?a))"
    using rtnl_valid_addr rtnl.addresses_v6[OF assms(2)] by blast
  then show ?thesis
    using assms(1-3) eq u by (auto simp: rdnss_current_def call_addrs_def Let_def)
qed

theorem rdnss_wildcard_total_witness:
  "rdnss_current (host host_addrs 5) auto_rdnss = rdnss_current (host host_addrs 6) auto_rdnss \<and>
    (rdnss_current (host host_addrs 5) auto_rdnss = Err (Msg ''interface has no usable IPv6 addresses'') \<longleftrightarrow>
      (\<forall>a \<in> set host_ips. \<not> rdnss_usable a))"
  by (rule rdnss_wildcard_total[of auto_rdnss 2 _ host_ips _ host_ips])
    (simp_all add: auto_rdnss_def host_AddressesByIndex host_ips_valid)


section \<open>PREF64\<close>

text \<open>
  The lifetime of a PREF64 option is a multiple of eight seconds, as its wire format needs, and three
  times the advertisement interval in whole seconds rounded up to that, within the format's limit.
\<close>

theorem pref64_lifetime_spec:
  assumes "0 \<le> mx" and "mx \<le> 10 ^ 6 * Second"
  shows "8 * Second dvd pref64_lifetime mx \<and> pref64_lifetime mx \<le> 8191 * 8 * Second \<and>
    min (3 * (mx div Second)) 65528 * Second \<le> pref64_lifetime mx \<and>
    pref64_lifetime mx < (3 * (mx div Second) + 8) * Second"
proof -
  define k where "k = mx div Second"
  have k: "0 \<le> k" "k \<le> 10 ^ 6"
    using assms(1) zdiv_mono1[OF assms(2), of Second] by (simp_all add: k_def pos_imp_zdiv_nonneg_iff)
  have si: "seconds_int mx = k" using seconds_int_eq[OF assms] by (simp add: k_def)
  have mxl: "seconds_int maxPref64Lifetime = 65528"
    using seconds_int_eq[of maxPref64Lifetime] by (simp add: maxPref64Lifetime_def)
  show ?thesis
  proof (cases "k * 3 < 65528")
    case True
    define m where "m = (k * 3) mod 8"
    define up where "up = (if 0 < m then k * 3 + (8 - m) else k * 3)"
    have m: "0 \<le> m" "m < 8" by (simp_all add: m_def)
    have dv: "8 dvd up"
    proof -
      have q: "k * 3 = 8 * (k * 3 div 8) + m" by (simp add: m_def)
      show ?thesis
      proof (cases "0 < m")
        case True
        then have "up = 8 * (k * 3 div 8 + 1)" using q by (simp add: up_def)
        then show ?thesis by simp
      next
        case False
        then have "up = 8 * (k * 3 div 8)" using q m by (simp add: up_def)
        then show ?thesis by simp
      qed
    qed
    have b: "k * 3 \<le> up" "up < k * 3 + 8" using m by (auto simp: up_def)
    have "up \<le> 65528" using dv b True by presburger
    then have "wrap64 (up * Second) = up * Second"
      using k(1) b by (intro wrap64_id) (simp add: in_int64_def min_int64_def max_int64_def)
    moreover have "pref64_lifetime mx = wrap64 (up * Second)"
      unfolding pref64_lifetime_def si mxl Let_def up_def m_def
      using True k(1) by (simp only: if_True go_rem_nonneg[of "k * 3" 8] mult_nonneg_nonneg)
    ultimately have "pref64_lifetime mx = up * Second" by simp
    moreover have "8 * Second dvd up * Second" by (rule mult_dvd_mono[OF dv dvd_refl])
    ultimately show ?thesis
      using b True \<open>up \<le> 65528\<close> by (simp add: k_def[symmetric] min_def)
  next
    case False
    then have "pref64_lifetime mx = maxPref64Lifetime" by (simp only: pref64_lifetime_def si mxl if_False)
    then show ?thesis using False k(1) by (simp add: maxPref64Lifetime_def k_def[symmetric] dvd_def)
  qed
qed

theorem pref64_lifetime_spec_witness:
  "8 * Second dvd pref64_lifetime (600 * Second) \<and> pref64_lifetime (600 * Second) \<le> 8191 * 8 * Second \<and>
    min (3 * (600 * Second div Second)) 65528 * Second \<le> pref64_lifetime (600 * Second) \<and>
    pref64_lifetime (600 * Second) < (3 * (600 * Second div Second) + 8) * Second"
  by (rule pref64_lifetime_spec) simp_all

end
