(* ===== verification/Config_Parse.thy ===== *)
theory Config_Parse
  imports Config
begin

text \<open>
  \<open>internal/config\<close>: parsing of the decoded configuration file (\<open>config.go\<close>, \<open>interface.go\<close>,
  \<open>plugin.go\<close>).  The TOML decoder is a dependency, so \<open>Parse\<close> takes what it returns; resolving the debug
  address is the operating system's.  A key that may be missing is a pointer: following it is \<open>deref\<close>,
  which panics on nil.  Definitions are in the order they call each other; the facts about
  them are in \<open>Config_Invariant\<close>.
\<close>

section \<open>The raw file\<close>

record raw_prefix =
  rwp_Prefix :: string
  rwp_OnLink :: "bool option"
  rwp_Autonomous :: "bool option"
  rwp_ValidLifetime :: "string option"
  rwp_PreferredLifetime :: "string option"
  rwp_Deprecated :: bool

record raw_route =
  rwr_Prefix :: string
  rwr_Preference :: string
  rwr_Lifetime :: "string option"
  rwr_Deprecated :: bool

record raw_dnssl =
  rwd_Lifetime :: "string option"
  rwd_DomainNames :: "string list"

record raw_rdnss =
  rws_Lifetime :: "string option"
  rws_Servers :: "string list"

record raw_pref64 =
  rw64_Prefix :: "string option"

record raw_interface =
  rwi_Name :: string
  rwi_Names :: "string list"
  rwi_Monitor :: bool
  rwi_Advertise :: bool
  rwi_Verbose :: bool
  rwi_MaxInterval :: string
  rwi_MinInterval :: string
  rwi_Managed :: bool
  rwi_OtherConfig :: bool
  rwi_ReachableTime :: string
  rwi_RetransmitTimer :: string
  rwi_HopLimit :: "int option"
  rwi_DefaultLifetime :: "string option"
  rwi_UnicastOnly :: bool
  rwi_Preference :: string
  rwi_Prefixes :: "raw_prefix list"
  rwi_Routes :: "raw_route list"
  rwi_RDNSS :: "raw_rdnss list"
  rwi_DNSSL :: "raw_dnssl list"
  rwi_PREF64 :: "raw_pref64 list"
  rwi_MTU :: int
  rwi_SourceLLA :: "bool option"
  rwi_CaptivePortal :: string

record raw_file =
  file_Interfaces :: "raw_interface list"
  file_Debug :: debug_config


section \<open>Optional keys\<close>

text \<open>
  A key that may be missing is a pointer; \<open>deref p\<close> is \<open>*p\<close>, which panics when \<open>p\<close> is nil.
\<close>

definition deref :: "'a option \<Rightarrow> 'a outcome" where
  "deref p = (case p of None \<Rightarrow> Panic nil_call | Some x \<Rightarrow> Ok x)"

lemma deref_Some [simp]: "deref (Some x) = Ok x"
  by (simp add: deref_def)

lemma deref_Panic [simp]: "is_Panic (deref p) \<longleftrightarrow> p = None"
  by (simp add: deref_def split: option.split)

text \<open>Behind a check the dereference is safe: the value, or the default.\<close>

lemma deref_default [simp]:
  "(if p = None then Ok d else deref p) = Ok (case p of None \<Rightarrow> d | Some x \<Rightarrow> x)"
  by (cases p) simp_all

lemma deref_bind [simp]:
  "(if p = None then c else bindO (deref p) f) = (case p of None \<Rightarrow> c | Some x \<Rightarrow> f x)"
  by (cases p) simp_all


section \<open>Durations and preferences\<close>

definition parseDuration :: "ndp_pkg \<Rightarrow> string option \<Rightarrow> duration \<Rightarrow> duration outcome" where
  "parseDuration ndp s def =
     (if s = None then Ok def
      else bindO (deref s) (\<lambda>t.
        if t = ''infinite'' then Ok (ndp_Infinity ndp)
        else if t = ''auto'' then Ok def
        else if t = '''' then Ok 0
        else ParseDuration t))"

definition parsePreference :: "string \<Rightarrow> preference outcome" where
  "parsePreference s =
     (if s = '''' \<or> s = ''medium'' then Ok PrefMedium
      else if s = ''low'' then Ok PrefLow
      else if s = ''high'' then Ok PrefHigh
      else Err (Msg ''invalid preference: %q''))"

text \<open>The constants \<open>0.33\<close> and \<open>0.75\<close> as doubles.\<close>

definition f_0_33 :: f64 where "f_0_33 = F 5944751508129055 (-54)"
definition f_0_75 :: f64 where "f_0_75 = F 3 (-2)"

definition parseMinInterval :: "string \<Rightarrow> duration \<Rightarrow> duration outcome" where
  "parseMinInterval s mx =
     (if s = '''' \<or> s = ''auto'' then
        (if 9 * Second \<le> mx then Ok (dur_Truncate (scale_duration f_0_33 mx) Second) else Ok mx)
      else bindO (wrapErr (FmtV ''invalid min interval: %v'') (ParseDuration s)) (\<lambda>mn.
        let upper = dur_Truncate (scale_duration f_0_75 mx) Second
        in if mn < 3 * Second \<or> upper < mn then
             Err (Msg ''min interval (%d) must be between 3 and (.75 * max_interval = %d) seconds'')
           else Ok mn))"

definition parseDefaultLifetime :: "ndp_pkg \<Rightarrow> string option \<Rightarrow> duration \<Rightarrow> duration outcome" where
  "parseDefaultLifetime ndp s mx =
     bindO (wrapErr (FmtV ''invalid default lifetime: %v'') (parseDuration ndp s (wrap64 (3 * mx)))) (\<lambda>lt.
       if lt \<noteq> 0 \<and> (lt < mx \<or> 9000 * Second < lt) then
         Err (Msg ''default lifetime (%d) must be 0 or between (max_interval = %d) and 9000 seconds'')
       else Ok lt)"


section \<open>Plugins\<close>

definition parseIPPrefix :: "string \<Rightarrow> ipprefix outcome" where
  "parseIPPrefix s =
     (if s = '''' then Ok pfx_zero
      else bindO (ParsePrefix s) (\<lambda>p1.
        if p1 \<noteq> pfx_Masked p1 then Err (Msg ''individual IP address, not a CIDR prefix'')
        else if \<not> Is6 (pfx_Addr p1) \<or> Is4In6 (pfx_Addr p1) then Err (Msg ''not an IPv6 CIDR prefix'')
        else Ok p1))"

definition autoPrefix :: ipprefix where "autoPrefix = Pfx IPv6Unspecified 64"
definition autoRoute :: ipprefix where "autoRoute = Pfx IPv6Unspecified 0"

definition parsePrefix :: "ndp_pkg \<Rightarrow> raw_prefix \<Rightarrow> instant \<Rightarrow> prefix_plugin outcome" where
  "parsePrefix ndp p epoch =
     bindO (parseIPPrefix (rwp_Prefix p)) (\<lambda>prefix0.
     let prefix = (if \<not> pfx_IsValid prefix0 then autoPrefix else prefix0)
     in if pfx_IsSingleIP prefix then Err (Msg ''/128 is a single IP address, not a prefix'')
     else if IsUnspecified (pfx_Addr prefix) \<and> pfx_Bits prefix \<noteq> 64 then
       Err (Msg ''only ::/64 is permitted for inferring prefixes from interface addresses'')
     else bindO (wrapErr (FmtV ''invalid valid lifetime: %v'')
                  (parseDuration ndp (rwp_ValidLifetime p) (24 * Hour))) (\<lambda>valid.
     if valid = 0 then Err (Msg ''valid lifetime must be non-zero'')
     else bindO (wrapErr (FmtV ''invalid preferred lifetime: %v'')
                  (parseDuration ndp (rwp_PreferredLifetime p) (4 * Hour))) (\<lambda>preferred.
     if preferred = 0 then Err (Msg ''preferred lifetime must be non-zero'')
     else if valid < preferred then
       Err (Msg ''preferred lifetime of %s exceeds valid lifetime of %s'')
     else if rwp_Deprecated p \<and> (preferred = ndp_Infinity ndp \<or> valid = ndp_Infinity ndp) then
       Err (Msg ''prefix is deprecated and cannot have infinite preferred or valid lifetimes'')
     else bindO (if rwp_OnLink p = None then Ok True else deref (rwp_OnLink p)) (\<lambda>onLink.
     bindO (if rwp_Autonomous p = None then Ok True else deref (rwp_Autonomous p)) (\<lambda>auto.
          Ok \<lparr>px_Auto = (prefix = autoPrefix),
              px_Prefix = prefix,
              px_OnLink = onLink,
              px_Autonomous = auto,
              px_ValidLifetime = valid,
              px_PreferredLifetime = preferred,
              px_Epoch = epoch,
              px_Deprecated = rwp_Deprecated p,
              px_TimeNow = None,
              px_Addrs = None\<rparr>)))))"

definition parseRoute :: "ndp_pkg \<Rightarrow> raw_route \<Rightarrow> instant \<Rightarrow> route_plugin outcome" where
  "parseRoute ndp r epoch =
     bindO (parseIPPrefix (rwr_Prefix r)) (\<lambda>prefix0.
     let prefix = (if \<not> pfx_IsValid prefix0 then autoRoute else prefix0)
     in if IsUnspecified (pfx_Addr prefix) \<and> pfx_Bits prefix \<noteq> 0 then
       Err (Msg ''only ::/0 is permitted for inferring routes from loopback interfaces'')
     else bindO (parsePreference (rwr_Preference r)) (\<lambda>pref.
     bindO (wrapErr (FmtV ''invalid lifetime: %v'')
             (parseDuration ndp (rwr_Lifetime r) (24 * Hour))) (\<lambda>lt.
     if lt = 0 then Err (Msg ''lifetime must be non-zero'')
     else if rwr_Deprecated r \<and> lt = ndp_Infinity ndp then
       Err (Msg ''route is deprecated and cannot have an infinite lifetime'')
     else Ok \<lparr>ro_Auto = (prefix = autoRoute),
              ro_Prefix = prefix,
              ro_Preference = pref,
              ro_Lifetime = lt,
              ro_Epoch = epoch,
              ro_Deprecated = rwr_Deprecated r,
              ro_TimeNow = None,
              ro_Routes = None,
              ro_Addrs = None\<rparr>)))"

text \<open>The loop over the configured servers: whether \<open>::\<close> was seen, and the set of the others.\<close>

fun rdnss_servers :: "bool \<Rightarrow> addr list \<Rightarrow> string list \<Rightarrow> (bool \<times> addr list) outcome" where
  "rdnss_servers auto seen [] = Ok (auto, seen)"
| "rdnss_servers auto seen (s # ss) =
     bindO (wrapErr (FmtV ''failed to parse IP address %q: %v'') (ParseAddr s)) (\<lambda>ip.
       if \<not> Is6 ip \<or> Is4In6 ip then Err (Msg ''string %q is not an IPv6 address'')
       else if IsUnspecified ip then
         (if auto then Err (Msg ''server wildcard :: cannot be specified multiple times'')
          else rdnss_servers True seen ss)
       else if ip \<in> set seen then Err (Msg ''server %q cannot be specified multiple times'')
       else rdnss_servers auto (ip # seen) ss)"

definition parseRDNSS :: "ndp_pkg \<Rightarrow> raw_rdnss \<Rightarrow> duration \<Rightarrow> rdnss_plugin outcome" where
  "parseRDNSS ndp d maxInterval =
     bindO (wrapErr (FmtV ''invalid lifetime: %v'')
             (parseDuration ndp (rws_Lifetime d) (wrap64 (3 * maxInterval)))) (\<lambda>lifetime.
     if rws_Servers d = [] then
       Ok \<lparr>rs_Auto = True, rs_Lifetime = lifetime, rs_Servers = [], rs_Addrs = None\<rparr>
     else bindO (rdnss_servers False [] (rws_Servers d)) (\<lambda>(auto, servers).
       Ok \<lparr>rs_Auto = auto, rs_Lifetime = lifetime, rs_Servers = sort servers, rs_Addrs = None\<rparr>))"

fun has_repeat :: "string set \<Rightarrow> string list \<Rightarrow> bool" where
  "has_repeat seen [] = False"
| "has_repeat seen (d # ds) = (d \<in> seen \<or> has_repeat (insert d seen) ds)"

definition parseDNSSL :: "ndp_pkg \<Rightarrow> raw_dnssl \<Rightarrow> duration \<Rightarrow> dnssl_plugin outcome" where
  "parseDNSSL ndp d maxInterval =
     bindO (wrapErr (FmtV ''invalid lifetime: %v'')
             (parseDuration ndp (rwd_Lifetime d) (wrap64 (3 * maxInterval)))) (\<lambda>lifetime.
     if rwd_DomainNames d = [] then Err (Msg ''must specify one or more DNS search domain names'')
     else if has_repeat {} (rwd_DomainNames d) then
       Err (Msg ''domain name %q cannot be specified multiple times'')
     else Ok \<lparr>dl_Lifetime = lifetime, dl_DomainNames = rwd_DomainNames d\<rparr>)"

text \<open>
  Elements of a slice of pointers are different when their positions are; \<open>clash\<close> looks for two
  different elements in the relation.
\<close>

definition clash :: "('a \<Rightarrow> 'a \<Rightarrow> bool) \<Rightarrow> 'a list \<Rightarrow> bool" where
  "clash r xs =
     list_ex (\<lambda>i. list_ex (\<lambda>j. i \<noteq> j \<and> r (xs ! i) (xs ! j)) [0..<length xs]) [0..<length xs]"

definition routes_clash :: "route_plugin \<Rightarrow> route_plugin \<Rightarrow> bool" where
  "routes_clash r1 r2 \<longleftrightarrow>
     \<not> (ro_Prefix r1 = autoRoute \<or> ro_Prefix r2 = autoRoute) \<and> pfx_Overlaps (ro_Prefix r1) (ro_Prefix r2)"

definition prefixes_clash :: "prefix_plugin \<Rightarrow> prefix_plugin \<Rightarrow> bool" where
  "prefixes_clash p1 p2 \<longleftrightarrow> pfx_Overlaps (px_Prefix p1) (px_Prefix p2)"

definition defaultPREF64Prefix :: string where
  "defaultPREF64Prefix = ''64:ff9b::/96''"

definition pref64_step ::
  "duration \<Rightarrow> plugin list \<times> ptr \<Rightarrow> raw_pref64 \<Rightarrow> (plugin list \<times> ptr) outcome" where
  "pref64_step maxInterval s p =
     (case s of (plugins, h) \<Rightarrow>
        bindO (if rw64_Prefix p = None then Ok False
               else bindO (deref (rw64_Prefix p)) (\<lambda>t. Ok (t \<noteq> ''''))) (\<lambda>own.
        bindO (if own then deref (rw64_Prefix p) else Ok defaultPREF64Prefix) (\<lambda>base.
        bindO (ParsePrefix base) (\<lambda>prefix.
          case NewPREF64 prefix maxInterval h of (pl, h') \<Rightarrow> Ok (plugins @ [PREF64P pl], h')))))"

definition captive_step :: "ndp_pkg \<Rightarrow> string \<Rightarrow> plugin list \<times> ptr \<Rightarrow> (plugin list \<times> ptr) outcome" where
  "captive_step ndp cp s =
     (case s of (plugins, h) \<Rightarrow>
        if cp = '''' then Ok (plugins, h)
        else bindO (NewCaptivePortal ndp cp h) (\<lambda>(pl, h'). Ok (plugins @ [CaptivePortalP pl], h')))"

definition parsePlugins ::
  "ndp_pkg \<Rightarrow> raw_interface \<Rightarrow> duration \<Rightarrow> instant \<Rightarrow> ptr \<Rightarrow> (plugin list \<times> ptr) outcome" where
  "parsePlugins ndp ifi maxInterval epoch h =
     bindO (mapO (\<lambda>p. wrapErr (FmtV ''failed to parse prefix %q: %v'') (parsePrefix ndp p epoch))
             (rwi_Prefixes ifi)) (\<lambda>prefixes.
     if clash prefixes_clash prefixes then Err (Msg ''prefixes overlap: %s and %s'')
     else bindO (mapO (\<lambda>r. wrapErr (FmtV ''failed to parse route %q: %v'') (parseRoute ndp r epoch))
             (rwi_Routes ifi)) (\<lambda>routes.
     if clash routes_clash routes then Err (Msg ''routes overlap: %s and %s'')
     else bindO (mapO (\<lambda>r. wrapErr (FmtV ''failed to parse RDNSS: %v'') (parseRDNSS ndp r maxInterval))
             (rwi_RDNSS ifi)) (\<lambda>rdnsss.
     bindO (mapO (\<lambda>d. wrapErr (FmtV ''failed to parse DNSSL: %v'') (parseDNSSL ndp d maxInterval))
             (rwi_DNSSL ifi)) (\<lambda>dnssls.
     if rwi_MTU ifi < 0 \<or> 65536 < rwi_MTU ifi then Err (Msg ''MTU (%d) must be between 0 and 65536'')
     else bindO (if rwi_SourceLLA ifi = None then Ok True else deref (rwi_SourceLLA ifi)) (\<lambda>lla.
          let plugins = map PrefixP prefixes @ map RouteP routes @ map RDNSSP rdnsss @ map DNSSLP dnssls
                @ (if rwi_MTU ifi \<noteq> 0 then [MTUP (rwi_MTU ifi)] else [])
                @ (if lla then [LLAP \<lparr>la_Addr = None\<rparr>] else [])
          in bindO (captive_step ndp (rwi_CaptivePortal ifi) (plugins, h)) (\<lambda>s.
               foldO (pref64_step maxInterval) s (rwi_PREF64 ifi)))))))"


section \<open>Interfaces and the file\<close>

definition parse_optional :: "string \<Rightarrow> string \<Rightarrow> duration \<Rightarrow> duration outcome" where
  "parse_optional what s def =
     (if s = '''' then Ok def else wrapErr (FmtV what) (ParseDuration s))"

definition parseInterface ::
  "ndp_pkg \<Rightarrow> string \<Rightarrow> raw_interface \<Rightarrow> instant \<Rightarrow> ptr \<Rightarrow> (interface_config \<times> ptr) outcome" where
  "parseInterface ndp name ifi epoch h =
     (if rwi_Monitor ifi \<and> rwi_Advertise ifi then
        Err (Msg ''monitor and advertise mode are mutually exclusive'')
      else if rwi_Monitor ifi then
        Ok (\<lparr>ci_Name = name, ci_Monitor = rwi_Monitor ifi, ci_Advertise = False,
             ci_Verbose = rwi_Verbose ifi, ci_MinInterval = 0, ci_MaxInterval = 0, ci_Managed = False,
             ci_OtherConfig = False, ci_ReachableTime = 0, ci_RetransmitTimer = 0, ci_HopLimit = 0,
             ci_DefaultLifetime = 0, ci_UnicastOnly = False, ci_Preference = PrefMedium,
             ci_Plugins = []\<rparr>, h)
      else bindO (parse_optional ''invalid max interval: %v'' (rwi_MaxInterval ifi) (600 * Second))
        (\<lambda>maxInterval.
      if maxInterval < 4 * Second \<or> 1800 * Second < maxInterval then
        Err (Msg ''max interval (%d) must be between 4 and 1800 seconds'')
      else bindO (parseMinInterval (rwi_MinInterval ifi) maxInterval) (\<lambda>minInterval.
      bindO (parse_optional ''invalid reachable time: %v'' (rwi_ReachableTime ifi) 0) (\<lambda>reachable.
      if reachable < 0 \<or> Hour < reachable then
        Err (Msg ''reachable time (%d) must be between 0 and 3600 seconds'')
      else bindO (parse_optional ''invalid retransmit timer: %v'' (rwi_RetransmitTimer ifi) 0) (\<lambda>retrans.
      if retrans < 0 \<or> Hour < retrans then
        Err (Msg ''retransmit timer (%d) must be between 0 and 3600 seconds'')
      else bindO (if rwi_HopLimit ifi = None then Ok 64 else deref (rwi_HopLimit ifi)) (\<lambda>hopLimit.
      if hopLimit < 0 \<or> 255 < hopLimit then Err (Msg ''hop limit (%d) must be between 0 and 255'')
      else bindO (parseDefaultLifetime ndp (rwi_DefaultLifetime ifi) maxInterval) (\<lambda>lifetime.
      bindO (parsePreference (rwi_Preference ifi)) (\<lambda>pref.
      bindO (parsePlugins ndp ifi maxInterval epoch h) (\<lambda>(plugins, h').
      Ok (\<lparr>ci_Name = name, ci_Monitor = rwi_Monitor ifi, ci_Advertise = rwi_Advertise ifi,
           ci_Verbose = rwi_Verbose ifi, ci_MinInterval = minInterval, ci_MaxInterval = maxInterval,
           ci_Managed = rwi_Managed ifi, ci_OtherConfig = rwi_OtherConfig ifi,
           ci_ReachableTime = reachable, ci_RetransmitTimer = retrans, ci_HopLimit = of_int hopLimit,
           ci_DefaultLifetime = lifetime, ci_UnicastOnly = rwi_UnicastOnly ifi, ci_Preference = pref,
           ci_Plugins = plugins\<rparr>, h'))))))))))"

definition interface_names :: "raw_interface \<Rightarrow> string list outcome" where
  "interface_names ifi =
     (let hasName = rwi_Name ifi \<noteq> ''''; hasNames = rwi_Names ifi \<noteq> []
      in if hasName \<and> hasNames then Err (Msg ''name and names identifiers are mutually exclusive'')
         else if hasName then Ok [rwi_Name ifi]
         else if hasNames then Ok (rwi_Names ifi)
         else Err (Msg ''must specify one of name or names identifiers''))"

definition parseInterfaces ::
  "ndp_pkg \<Rightarrow> raw_interface \<Rightarrow> instant \<Rightarrow> ptr \<Rightarrow> (interface_config list \<times> ptr) outcome" where
  "parseInterfaces ndp ifi epoch h =
     bindO (interface_names ifi)
       (foldO (\<lambda>(ifis, h) name.
          bindO (wrapErr (FmtV ''%q: %v'') (parseInterface ndp name ifi epoch h))
            (\<lambda>(iface, h'). Ok (ifis @ [iface], h'))) ([], h))"

text \<open>The names seen so far are the names of the interfaces collected so far.\<close>

fun repeats :: "string set \<Rightarrow> interface_config list \<Rightarrow> bool" where
  "repeats seen [] = False"
| "repeats seen (i # is) = (ci_Name i \<in> seen \<or> repeats (insert (ci_Name i) seen) is)"

definition parse_step ::
  "ndp_pkg \<Rightarrow> instant \<Rightarrow> interface_config list \<times> string set \<times> ptr \<Rightarrow> raw_interface \<Rightarrow>
     (interface_config list \<times> string set \<times> ptr) outcome" where
  "parse_step ndp epoch s ifi =
     (case s of (ifis, seen, h) \<Rightarrow>
        bindO (wrapErr (FmtV ''interface %d: %v'') (parseInterfaces ndp ifi epoch h)) (\<lambda>(new, h').
          if repeats seen new then
            Err (Msg ''interface %d: %q cannot appear multiple times in configuration'')
          else Ok (ifis @ new, seen \<union> set (map ci_Name new), h')))"

definition zero_debug :: debug_config where
  "zero_debug = \<lparr>dbg_Address = '''', dbg_Prometheus = False, dbg_PProf = False\<rparr>"

definition Parse ::
  "ndp_pkg \<Rightarrow> (string \<Rightarrow> unit outcome) \<Rightarrow> raw_file outcome \<Rightarrow> instant \<Rightarrow> ptr \<Rightarrow> (config \<times> ptr) outcome" where
  "Parse ndp resolve decoded epoch h =
     bindO decoded (\<lambda>f.
     if file_Interfaces f = [] then Err (Msg ''no configured interfaces'')
     else bindO (if dbg_Address (file_Debug f) \<noteq> '''' then
                   bindO (wrapErr (FmtV ''bad debug address: %v'') (resolve (dbg_Address (file_Debug f))))
                     (\<lambda>_. Ok (file_Debug f))
                 else Ok zero_debug) (\<lambda>debug.
     bindO (foldO (parse_step ndp epoch) ([], {}, h) (file_Interfaces f)) (\<lambda>(ifis, seen, h').
       Ok (\<lparr>cfg_Interfaces = ifis, cfg_Debug = debug\<rparr>, h'))))"

end
