(* ===== verification/Config_Invariant.thy ===== *)
theory Config_Invariant
  imports Config_Parse Route_Selection
begin

text \<open>
  What a configuration that parses guarantees to the rest of the program: intervals and lifetimes in
  the ranges of the RFC, canonical IPv6 prefixes, pairwise disjoint prefixes and routes, sorted servers,
  distinct domain and interface names; and that parsing never panics.
\<close>

named_theorems parse_dests \<open>what a successful parse of a part gives\<close>

section \<open>Overlap is intersection\<close>

lemma pfx_Overlaps_v6:
  assumes "0 \<le> b" "b \<le> 128" "0 \<le> c" "c \<le> 128"
  shows "pfx_Overlaps (Pfx (Addr6 w []) b) (Pfx (Addr6 v []) c) \<longleftrightarrow> same_head (nat (min b c)) w v"
proof -
  let ?m = "min b c"
  have "pfx_Overlaps (Pfx (Addr6 w []) b) (Pfx (Addr6 v []) c) \<longleftrightarrow>
      (w = v \<and> b = c) \<or> ?m = 0 \<or> keep_bits (nat ?m) w = keep_bits (nat ?m) v"
    using assms by (auto simp: pfx_Overlaps_def pfx_IsValid_def Let_def min_def)
  then show ?thesis by (auto simp: keep_bits_eq_iff)
qed

lemma pfx_Overlaps_iff:
  assumes p: "v6_prefix p" and q: "v6_prefix q"
  shows "pfx_Overlaps p q \<longleftrightarrow> pfx_set p \<inter> pfx_set q \<noteq> {}"
proof -
  obtain w b where pw: "p = Pfx (Addr6 w []) b" "0 \<le> b" "b \<le> 128" using p by (auto simp: v6_prefix_def)
  obtain v c where qv: "q = Pfx (Addr6 v []) c" "0 \<le> c" "c \<le> 128" using q by (auto simp: v6_prefix_def)
  have ov: "pfx_Overlaps p q \<longleftrightarrow> same_head (nat (min b c)) w v"
    using pw qv by (simp add: pfx_Overlaps_v6)
  have "same_head (nat (min b c)) w v" if ap: "a \<in> pfx_set p" and aq: "a \<in> pfx_set q" for a
  proof -
    obtain u where u: "same_head (nat b) u w" "same_head (nat c) u v"
      using ap aq pw(2,3) qv(2,3) by (auto simp: pfx_set_def pw(1) qv(1) v6_prefix_contains)
    have "same_head (nat (min b c)) u w" "same_head (nat (min b c)) u v"
      using same_head_shorter[OF u(1), of "nat (min b c)"] same_head_shorter[OF u(2), of "nat (min b c)"]
      by simp_all
    then show ?thesis by (metis same_head_sym same_head_trans)
  qed
  moreover have "\<exists>a. a \<in> pfx_set p \<and> a \<in> pfx_set q" if s: "same_head (nat (min b c)) w v"
  proof (cases "b \<le> c")
    case True
    then have "same_head (nat b) v w" using s by (simp add: min_def same_head_sym)
    then have "Addr6 v [] \<in> pfx_set p \<and> Addr6 v [] \<in> pfx_set q"
      using pw qv by (simp add: pfx_set_def)
    then show ?thesis by blast
  next
    case False
    then have "same_head (nat c) w v" using s by (simp add: min_def)
    then have "Addr6 w [] \<in> pfx_set p \<and> Addr6 w [] \<in> pfx_set q"
      using pw qv by (simp add: pfx_set_def)
    then show ?thesis by blast
  qed
  ultimately show ?thesis unfolding ov by blast
qed

lemma clash_iff:
  "clash r xs \<longleftrightarrow> (\<exists>i < length xs. \<exists>j < length xs. i \<noteq> j \<and> r (xs ! i) (xs ! j))"
  unfolding clash_def list_ex_iff set_upt Bex_def by auto


section \<open>Durations\<close>

lemma f_0_33_val: "f_val f_0_33 = 5944751508129055 / 2 ^ 54"
  by (simp add: f_0_33_def powr_minus_divide)

lemma f_0_75_val: "f_val f_0_75 = 3 / 4"
  by (simp add: f_0_75_def powr_minus_divide)

lemma powr_minus_53: "2 powr (- 53) = (1 / 2 ^ 53 :: real)"
  by (simp add: powr_minus_divide)

lemma default_min_interval:
  assumes "9 * Second \<le> mx" and "mx \<le> 1800 * Second"
  shows "2 * Second \<le> scale_duration f_0_33 mx" and "scale_duration f_0_33 mx \<le> mx"
proof -
  have mx: "0 < mx" "mx < 2 ^ 53" using assms by simp_all
  have r: "9000000000 \<le> real_of_int mx" "real_of_int mx \<le> 1800000000000"
    using assms by simp_all
  note b = scale_duration_bounds[OF _ mx, of 5944751508129055 "-54", folded f_0_33_def,
      unfolded f_0_33_val powr_minus_53]
  have up: "real_of_int (scale_duration f_0_33 mx)
      \<le> 5944751508129055 / 2 ^ 54 * real_of_int mx * (1 + 1 / 2 ^ 53)" using b(1) by simp
  have lo: "5944751508129055 / 2 ^ 54 * real_of_int mx * (1 - 1 / 2 ^ 53)
      < real_of_int (scale_duration f_0_33 mx) + 1" using b(2) by simp
  have "real_of_int (scale_duration f_0_33 mx) \<le> real_of_int mx"
    using up r by (simp add: field_simps)
  then show "scale_duration f_0_33 mx \<le> mx" by (simp only: of_int_le_iff)
  have "2000000000 < real_of_int (scale_duration f_0_33 mx) + 1"
    using lo r by (simp add: field_simps)
  then show "2 * Second \<le> scale_duration f_0_33 mx" by linarith
qed

lemma upper_min_interval:
  assumes "4 * Second \<le> mx" and "mx \<le> 1800 * Second"
  shows "scale_duration f_0_75 mx \<le> mx" and "0 \<le> scale_duration f_0_75 mx"
proof -
  have mx: "0 < mx" "mx < 2 ^ 53" using assms by simp_all
  have r: "4000000000 \<le> real_of_int mx" using assms by simp
  note b = scale_duration_bounds[OF _ mx, of 3 "-2", folded f_0_75_def,
      unfolded f_0_75_val powr_minus_53]
  have "real_of_int (scale_duration f_0_75 mx) \<le> 3 / 4 * real_of_int mx * (1 + 1 / 2 ^ 53)"
    using b(1) by simp
  then have "real_of_int (scale_duration f_0_75 mx) \<le> real_of_int mx"
    using r by (simp add: field_simps)
  then show "scale_duration f_0_75 mx \<le> mx" by (simp only: of_int_le_iff)
  show "0 \<le> scale_duration f_0_75 mx" using b(3) by simp
qed

lemma dur_Truncate_Second:
  assumes "0 \<le> d"
  shows "dur_Truncate d Second \<le> d" and "k * Second \<le> d \<Longrightarrow> k * Second \<le> dur_Truncate d Second"
proof -
  have t: "dur_Truncate d Second = d div Second * Second" using assms by (simp add: dur_Truncate_nonneg)
  have "d = d div Second * Second + d mod Second" by (simp only: div_mult_mod_eq)
  then show "dur_Truncate d Second \<le> d" unfolding t by simp
  assume "k * Second \<le> d"
  then have "k * Second div Second \<le> d div Second" by (rule zdiv_mono1) simp
  then show "k * Second \<le> dur_Truncate d Second" unfolding t by simp
qed

lemma parseMinInterval_bounds [parse_dests]:
  assumes "parseMinInterval s mx = Ok mn" and "4 * Second \<le> mx" and "mx \<le> 1800 * Second"
  shows "2 * Second \<le> mn \<and> mn \<le> mx"
proof -
  consider "(s = '''' \<or> s = ''auto'') \<and> 9 * Second \<le> mx" "mn = dur_Truncate (scale_duration f_0_33 mx) Second"
    | "mn = mx"
    | "3 * Second \<le> mn" "mn \<le> dur_Truncate (scale_duration f_0_75 mx) Second"
    using assms(1) by (auto simp: parseMinInterval_def Let_def bindO_Ok_iff split: if_splits)
  then show ?thesis
  proof cases
    case 1
    then have d: "2 * Second \<le> scale_duration f_0_33 mx" "scale_duration f_0_33 mx \<le> mx"
      using default_min_interval[of mx] assms(3) by simp_all
    then have "0 \<le> scale_duration f_0_33 mx" by simp
    from dur_Truncate_Second[OF this] d show ?thesis unfolding 1(2) by fastforce
  next
    case 2
    then show ?thesis using assms(2) by simp
  next
    case 3
    have "dur_Truncate (scale_duration f_0_75 mx) Second \<le> scale_duration f_0_75 mx"
      by (rule dur_Truncate_Second(1)[OF upper_min_interval(2)[OF assms(2,3)]])
    then show ?thesis using 3 upper_min_interval[OF assms(2,3)] by simp
  qed
qed

lemma parseDefaultLifetime_bounds [parse_dests]:
  "parseDefaultLifetime ndp s mx = Ok lt \<Longrightarrow> lt = 0 \<or> (mx \<le> lt \<and> lt \<le> 9000 * Second)"
  by (auto simp: parseDefaultLifetime_def bindO_Ok_iff split: if_splits)

lemma parsePreference_named [parse_dests]:
  "parsePreference s = Ok p \<Longrightarrow> p \<in> {PrefLow, PrefMedium, PrefHigh}"
  by (auto simp: parsePreference_def split: if_splits)

section \<open>Prefixes and routes\<close>

lemma parseIPPrefix_valid:
  assumes "parseIPPrefix s = Ok p" and "pfx_IsValid p"
  shows "v6_prefix p \<and> pfx_Masked p = p \<and> \<not> Is4In6 (pfx_Addr p)"
proof -
  have ne: "s \<noteq> ''''" using assms by (auto simp: parseIPPrefix_def pfx_IsValid_def pfx_zero_def)
  then have p: "ParsePrefix s = Ok p" "pfx_Masked p = p" "Is6 (pfx_Addr p)" "\<not> Is4In6 (pfx_Addr p)"
    using assms(1) by (auto simp: parseIPPrefix_def bindO_Ok_iff split: if_splits)
  obtain w z b where e: "p = Pfx (Addr6 w z) b"
    using p(3) by (cases p) (auto elim: Is6.elims)
  then show ?thesis
    using ParsePrefix_valid[OF p(1)] p by (auto simp: v6_prefix_def pfx_IsValid_def)
qed

lemma auto_canonical [simp]:
  "v6_prefix autoPrefix" "pfx_Masked autoPrefix = autoPrefix" "\<not> Is4In6 (pfx_Addr autoPrefix)"
  "v6_prefix autoRoute" "pfx_Masked autoRoute = autoRoute" "\<not> Is4In6 (pfx_Addr autoRoute)"
  by (simp_all add: autoPrefix_def autoRoute_def v6_prefix_def IPv6Unspecified_def pfx_Masked_def keep_bits_def)

definition prefix_wf :: "ndp_pkg \<Rightarrow> instant \<Rightarrow> prefix_plugin \<Rightarrow> bool" where
  "prefix_wf ndp epoch p \<longleftrightarrow>
     v6_prefix (px_Prefix p) \<and> pfx_Masked (px_Prefix p) = px_Prefix p \<and> pfx_Bits (px_Prefix p) < 128 \<and>
     px_Epoch p = epoch \<and> px_TimeNow p = None \<and> px_Addrs p = None \<and>
     px_Auto p = (px_Prefix p = autoPrefix) \<and> px_Auto p = IsUnspecified (pfx_Addr (px_Prefix p)) \<and>
     px_PreferredLifetime p \<noteq> 0 \<and> px_ValidLifetime p \<noteq> 0 \<and>
     px_PreferredLifetime p \<le> px_ValidLifetime p \<and>
     (px_Deprecated p \<longrightarrow> px_PreferredLifetime p \<noteq> ndp_Infinity ndp \<and> px_ValidLifetime p \<noteq> ndp_Infinity ndp)"

definition route_wf :: "ndp_pkg \<Rightarrow> instant \<Rightarrow> route_plugin \<Rightarrow> bool" where
  "route_wf ndp epoch r \<longleftrightarrow>
     v6_prefix (ro_Prefix r) \<and> pfx_Masked (ro_Prefix r) = ro_Prefix r \<and>
     ro_Epoch r = epoch \<and> ro_TimeNow r = None \<and> ro_Routes r = None \<and> ro_Addrs r = None \<and>
     ro_Auto r = (ro_Prefix r = autoRoute) \<and> ro_Auto r = IsUnspecified (pfx_Addr (ro_Prefix r)) \<and>
     ro_Preference r \<in> {PrefLow, PrefMedium, PrefHigh} \<and> ro_Lifetime r \<noteq> 0 \<and>
     (ro_Deprecated r \<longrightarrow> ro_Lifetime r \<noteq> ndp_Infinity ndp)"

lemma v6_unspecified:
  "v6_prefix p \<Longrightarrow> IsUnspecified (pfx_Addr p) \<longleftrightarrow> p = Pfx IPv6Unspecified (pfx_Bits p)"
  by (auto simp: v6_prefix_def IPv6Unspecified_def IPv4Unspecified_def IsUnspecified_def)

lemma parsePrefix_wf [parse_dests]:
  assumes "parsePrefix ndp raw epoch = Ok p"
  shows "prefix_wf ndp epoch p"
proof -
  from assms obtain q where q: "parseIPPrefix (rwp_Prefix raw) = Ok q"
    and px: "px_Prefix p = (if pfx_IsValid q then q else autoPrefix)"
    and single: "\<not> pfx_IsSingleIP (px_Prefix p)"
    and unspec: "IsUnspecified (pfx_Addr (px_Prefix p)) \<longrightarrow> pfx_Bits (px_Prefix p) = 64"
    and auto: "px_Auto p = (px_Prefix p = autoPrefix)" "px_Epoch p = epoch" "px_TimeNow p = None" "px_Addrs p = None"
    and rest: "px_PreferredLifetime p \<noteq> 0" "px_ValidLifetime p \<noteq> 0"
      "px_PreferredLifetime p \<le> px_ValidLifetime p"
      "px_Deprecated p \<longrightarrow> px_PreferredLifetime p \<noteq> ndp_Infinity ndp \<and> px_ValidLifetime p \<noteq> ndp_Infinity ndp"
    by (auto simp: parsePrefix_def bindO_Ok_iff Let_def split: if_splits)
  have v6: "v6_prefix (px_Prefix p)" "pfx_Masked (px_Prefix p) = px_Prefix p"
    using parseIPPrefix_valid[OF q] by (simp_all add: px)
  have "pfx_Bits (px_Prefix p) < 128"
    using v6(1) single by (auto simp: v6_prefix_def pfx_IsSingleIP_def pfx_IsValid_def)
  moreover have "IsUnspecified (pfx_Addr (px_Prefix p)) \<longleftrightarrow> px_Prefix p = autoPrefix"
    using v6_unspecified[OF v6(1)] unspec by (auto simp: autoPrefix_def)
  ultimately show ?thesis using v6 auto rest by (simp add: prefix_wf_def)
qed

lemma parseRoute_wf [parse_dests]:
  assumes "parseRoute ndp raw epoch = Ok r"
  shows "route_wf ndp epoch r"
proof -
  from assms obtain q where q: "parseIPPrefix (rwr_Prefix raw) = Ok q"
    and px: "ro_Prefix r = (if pfx_IsValid q then q else autoRoute)"
    and unspec: "IsUnspecified (pfx_Addr (ro_Prefix r)) \<longrightarrow> pfx_Bits (ro_Prefix r) = 0"
    and auto: "ro_Auto r = (ro_Prefix r = autoRoute)" "ro_Epoch r = epoch" "ro_TimeNow r = None"
      "ro_Routes r = None" "ro_Addrs r = None"
    and rest: "ro_Preference r \<in> {PrefLow, PrefMedium, PrefHigh}" "ro_Lifetime r \<noteq> 0"
      "ro_Deprecated r \<longrightarrow> ro_Lifetime r \<noteq> ndp_Infinity ndp"
    by (auto simp: parseRoute_def bindO_Ok_iff Let_def dest!: parsePreference_named split: if_splits)
  have v6: "v6_prefix (ro_Prefix r)" "pfx_Masked (ro_Prefix r) = ro_Prefix r"
    using parseIPPrefix_valid[OF q] by (simp_all add: px)
  moreover have "IsUnspecified (pfx_Addr (ro_Prefix r)) \<longleftrightarrow> ro_Prefix r = autoRoute"
    using v6_unspecified[OF v6(1)] unspec by (auto simp: autoRoute_def)
  ultimately show ?thesis using auto rest by (simp add: route_wf_def)
qed

lemma parseDuration_no_panic [simp]: "\<not> is_Panic (parseDuration ndp s d)"
  by (simp add: parseDuration_def split: option.split)

lemma parsePreference_no_panic [simp]: "\<not> is_Panic (parsePreference s)"
  by (simp add: parsePreference_def)

lemma parseIPPrefix_no_panic [simp]: "\<not> is_Panic (parseIPPrefix s)"
  by (simp add: parseIPPrefix_def bindO_Panic_iff)

lemma parsePrefix_no_panic [simp]: "\<not> is_Panic (parsePrefix ndp p e)"
  by (simp add: parsePrefix_def bindO_Panic_iff Let_def)

lemma parseRoute_no_panic [simp]: "\<not> is_Panic (parseRoute ndp r e)"
  by (simp add: parseRoute_def bindO_Panic_iff Let_def)


section \<open>Servers and domain names\<close>

definition plain_server :: "addr \<Rightarrow> bool" where
  "plain_server a \<longleftrightarrow> Is6 a \<and> \<not> Is4In6 a \<and> \<not> IsUnspecified a"

lemma rdnss_servers_spec:
  assumes "rdnss_servers auto seen ss = Ok (auto', seen')"
    and "distinct seen" and "\<forall>a \<in> set seen. plain_server a"
  shows "distinct seen' \<and> (\<forall>a \<in> set seen'. plain_server a) \<and>
         (\<exists>as. mapO ParseAddr ss = Ok as \<and> set seen' = set seen \<union> {a \<in> set as. \<not> IsUnspecified a} \<and>
           auto' = (auto \<or> (\<exists>a \<in> set as. IsUnspecified a)))"
  using assms
proof (induction ss arbitrary: auto seen)
  case Nil
  then show ?case by simp
next
  case (Cons s ss)
  then obtain ip where ip: "ParseAddr s = Ok ip" "Is6 ip" "\<not> Is4In6 ip"
    by (auto simp: bindO_Ok_iff split: if_splits)
  show ?case
  proof (cases "IsUnspecified ip")
    case True
    then have "\<not> auto" "rdnss_servers True seen ss = Ok (auto', seen')"
      using Cons.prems(1) ip by (auto simp: bindO_Ok_iff split: if_splits)
    from Cons.IH[OF this(2) Cons.prems(2,3)] this(1) show ?thesis using ip True by auto
  next
    case False
    then have n: "ip \<notin> set seen" "rdnss_servers auto (ip # seen) ss = Ok (auto', seen')"
      using Cons.prems(1) ip by (auto simp: bindO_Ok_iff split: if_splits)
    have "distinct (ip # seen)" "\<forall>a \<in> set (ip # seen). plain_server a"
      using Cons.prems(2,3) n ip False by (auto simp: plain_server_def)
    from Cons.IH[OF n(2) this] show ?thesis using ip False by auto
  qed
qed

definition rdnss_wf :: "rdnss_plugin \<Rightarrow> bool" where
  "rdnss_wf r \<longleftrightarrow>
     sorted (rs_Servers r) \<and> distinct (rs_Servers r) \<and> (\<forall>a \<in> set (rs_Servers r). plain_server a) \<and>
     (rs_Servers r = [] \<longrightarrow> rs_Auto r)"

text \<open>What the parsed plugin says about the configured strings.\<close>

definition rdnss_of :: "addr list \<Rightarrow> rdnss_plugin \<Rightarrow> bool" where
  "rdnss_of as r \<longleftrightarrow>
     set (rs_Servers r) = {a \<in> set as. \<not> IsUnspecified a} \<and>
     rs_Auto r = (as = [] \<or> (\<exists>a \<in> set as. IsUnspecified a))"

lemma parseRDNSS_facts:
  assumes "parseRDNSS ndp raw mx = Ok r"
  shows "rdnss_wf r \<and> (\<exists>as. mapO ParseAddr (rws_Servers raw) = Ok as \<and> rdnss_of as r)"
proof (cases "rws_Servers raw = []")
  case True
  then show ?thesis using assms by (auto simp: parseRDNSS_def bindO_Ok_iff rdnss_wf_def rdnss_of_def)
next
  case False
  then obtain auto servers where l: "rdnss_servers False [] (rws_Servers raw) = Ok (auto, servers)"
    and r: "rs_Auto r = auto" "rs_Servers r = sort servers"
    using assms by (auto simp: parseRDNSS_def bindO_Ok_iff)
  obtain as where as: "mapO ParseAddr (rws_Servers raw) = Ok as"
    "set servers = {a \<in> set as. \<not> IsUnspecified a}" "auto = (\<exists>a \<in> set as. IsUnspecified a)"
    "distinct servers" "\<forall>a \<in> set servers. plain_server a"
    using rdnss_servers_spec[OF l] by auto
  have "as \<noteq> []" using False mapO_Ok_length[OF as(1)] by auto
  then have "servers = [] \<longrightarrow> auto" using as(2,3) by (cases as) auto
  then have "sort servers = [] \<longrightarrow> auto" by (metis set_empty set_sort)
  then have "rdnss_wf r" using as r by (simp add: rdnss_wf_def)
  then show ?thesis using as r \<open>as \<noteq> []\<close> by (auto simp: rdnss_of_def)
qed

lemma has_repeat_iff: "has_repeat seen ds \<longleftrightarrow> \<not> distinct ds \<or> seen \<inter> set ds \<noteq> {}"
  by (induction seen ds rule: has_repeat.induct) auto

lemma parseDNSSL_names [parse_dests]:
  "parseDNSSL ndp raw mx = Ok d \<Longrightarrow>
     dl_DomainNames d = rwd_DomainNames raw \<and> dl_DomainNames d \<noteq> [] \<and> distinct (dl_DomainNames d)"
  by (auto simp: parseDNSSL_def bindO_Ok_iff has_repeat_iff split: if_splits)

lemma rdnss_servers_no_panic [simp]: "\<not> is_Panic (rdnss_servers a seen ss)"
  by (induction ss arbitrary: a seen) (auto simp: bindO_Panic_iff)

lemma parseRDNSS_no_panic [simp]: "\<not> is_Panic (parseRDNSS ndp r mx)"
  by (auto simp: parseRDNSS_def bindO_Panic_iff)

lemma parseDNSSL_no_panic [simp]: "\<not> is_Panic (parseDNSSL ndp d mx)"
  by (auto simp: parseDNSSL_def bindO_Panic_iff)

section \<open>The plugins of an interface\<close>

fun prefixes_in :: "plugin list \<Rightarrow> prefix_plugin list" where
  "prefixes_in [] = []"
| "prefixes_in (PrefixP p # ps) = p # prefixes_in ps"
| "prefixes_in (_ # ps) = prefixes_in ps"

fun routes_in :: "plugin list \<Rightarrow> route_plugin list" where
  "routes_in [] = []"
| "routes_in (RouteP p # ps) = p # routes_in ps"
| "routes_in (_ # ps) = routes_in ps"

lemma prefixes_in_append [simp]: "prefixes_in (ps @ qs) = prefixes_in ps @ prefixes_in qs"
  by (induction ps rule: prefixes_in.induct) auto

lemma routes_in_append [simp]: "routes_in (ps @ qs) = routes_in ps @ routes_in qs"
  by (induction ps rule: routes_in.induct) auto

lemma plugins_in_map [simp]:
  "prefixes_in (map PrefixP ps) = ps" "prefixes_in (map RouteP rs) = []"
  "prefixes_in (map RDNSSP ss) = []" "prefixes_in (map DNSSLP ds) = []"
  "routes_in (map PrefixP ps) = []" "routes_in (map RouteP rs) = rs"
  "routes_in (map RDNSSP ss) = []" "routes_in (map DNSSLP ds) = []"
proof -
  show "prefixes_in (map PrefixP ps) = ps" "routes_in (map PrefixP ps) = []" by (induction ps) auto
  show "prefixes_in (map RouteP rs) = []" "routes_in (map RouteP rs) = rs" by (induction rs) auto
  show "prefixes_in (map RDNSSP ss) = []" "routes_in (map RDNSSP ss) = []" by (induction ss) auto
  show "prefixes_in (map DNSSLP ds) = []" "routes_in (map DNSSLP ds) = []" by (induction ds) auto
qed

text \<open>No two elements of a list in the relation, at different positions.\<close>

definition pairwise_at :: "('a \<Rightarrow> 'a \<Rightarrow> bool) \<Rightarrow> 'a list \<Rightarrow> bool" where
  "pairwise_at P xs \<longleftrightarrow> (\<forall>i < length xs. \<forall>j < length xs. i \<noteq> j \<longrightarrow> P (xs ! i) (xs ! j))"

lemma not_clash_iff: "\<not> clash r xs \<longleftrightarrow> pairwise_at (\<lambda>x y. \<not> r x y) xs"
  by (auto simp: clash_iff pairwise_at_def)

lemma pairwise_at_mono:
  "pairwise_at P xs \<Longrightarrow> (\<And>x y. x \<in> set xs \<Longrightarrow> y \<in> set xs \<Longrightarrow> P x y \<Longrightarrow> Q x y) \<Longrightarrow> pairwise_at Q xs"
  by (auto simp: pairwise_at_def)

definition prefixes_disjoint :: "plugin list \<Rightarrow> bool" where
  "prefixes_disjoint ps \<longleftrightarrow>
     pairwise_at (\<lambda>p q. pfx_set (px_Prefix p) \<inter> pfx_set (px_Prefix q) = {}) (prefixes_in ps)"

definition routes_disjoint :: "plugin list \<Rightarrow> bool" where
  "routes_disjoint ps \<longleftrightarrow>
     pairwise_at (\<lambda>r s. ro_Auto r \<or> ro_Auto s \<or> pfx_set (ro_Prefix r) \<inter> pfx_set (ro_Prefix s) = {})
       (routes_in ps)"

fun plugin_wf :: "ndp_pkg \<Rightarrow> instant \<Rightarrow> plugin \<Rightarrow> bool" where
  "plugin_wf ndp epoch (PrefixP p) = prefix_wf ndp epoch p"
| "plugin_wf ndp epoch (RouteP r) = route_wf ndp epoch r"
| "plugin_wf ndp epoch (RDNSSP r) = rdnss_wf r"
| "plugin_wf ndp epoch (DNSSLP d) = (dl_DomainNames d \<noteq> [] \<and> distinct (dl_DomainNames d))"
| "plugin_wf ndp epoch (MTUP m) = (1 \<le> m \<and> m \<le> 65536)"
| "plugin_wf ndp epoch (LLAP l) = (la_Addr l = None)"
| "plugin_wf ndp epoch (PREF64P p) =
     (\<exists>x mx. snd (pf_Inner p) = PREF64Opt x \<and> pfx_IsValid (p64_Prefix x) \<and>
        p64_Lifetime x = pref64_lifetime mx \<and> 4 * Second \<le> mx \<and> mx \<le> 1800 * Second)"
| "plugin_wf ndp epoch (CaptivePortalP c) = (\<exists>u. snd (cp_Portal c) = CaptivePortalOpt u)"

definition plugins_wf :: "ndp_pkg \<Rightarrow> instant \<Rightarrow> plugin list \<Rightarrow> bool" where
  "plugins_wf ndp epoch ps \<longleftrightarrow>
     (\<forall>p \<in> set ps. plugin_wf ndp epoch p) \<and> prefixes_disjoint ps \<and> routes_disjoint ps"

text \<open>Options owned by the parsed plugins are allocated between the two allocators.\<close>

definition plugins_below :: "ptr \<Rightarrow> plugin list \<Rightarrow> bool" where
  "plugins_below h ps \<longleftrightarrow> (\<forall>p \<in> set ps. opts_below h (plugin_owned p))"

definition late_ok :: "ndp_pkg \<Rightarrow> instant \<Rightarrow> plugin list \<times> ptr \<Rightarrow> bool" where
  "late_ok ndp epoch s \<longleftrightarrow> plugins_wf ndp epoch (fst s) \<and> plugins_below (snd s) (fst s)"

lemma plugins_below_mono: "plugins_below h ps \<Longrightarrow> h \<le> h' \<Longrightarrow> plugins_below h' ps"
  by (fastforce simp: plugins_below_def opts_below_def)

lemma late_ok_snoc:
  assumes "late_ok ndp epoch (ps, h)" and "plugin_wf ndp epoch p" and "prefixes_in [p] = []" and "routes_in [p] = []"
    and "opts_below h' (plugin_owned p)" and "h \<le> h'"
  shows "late_ok ndp epoch (ps @ [p], h')"
  using assms plugins_below_mono[of h ps h']
  by (auto simp: late_ok_def plugins_wf_def prefixes_disjoint_def routes_disjoint_def plugins_below_def)

lemma captive_step_ok:
  assumes "captive_step ndp cp s = Ok s'" and "late_ok ndp epoch s"
  shows "late_ok ndp epoch s'"
proof -
  obtain ps h where s: "s = (ps, h)" by (cases s)
  from assms(1) consider "s' = s"
    | u where "s' = (ps @ [CaptivePortalP \<lparr>cp_Portal = (h, CaptivePortalOpt u)\<rparr>], Suc h)"
    by (auto simp: captive_step_def s NewCaptivePortal_def bindO_Ok_iff split: if_splits)
  then show ?thesis by cases (use assms(2) in \<open>auto simp: s intro: late_ok_snoc\<close>)
qed

lemma pref64_step_ok:
  assumes "pref64_step mx s p = Ok s'" and "late_ok ndp epoch s" and "4 * Second \<le> mx" and "mx \<le> 1800 * Second"
  shows "late_ok ndp epoch s'"
proof -
  obtain ps h where s: "s = (ps, h)" by (cases s)
  from assms(1) obtain q where "pfx_IsValid q"
    and "s' = (ps @ [PREF64P (fst (NewPREF64 q mx h))], Suc h)"
    by (auto simp: pref64_step_def s NewPREF64_def bindO_Ok_iff Let_def dest: ParsePrefix_valid(1))
  then show ?thesis using assms(2-4) by (auto simp: s NewPREF64_def intro!: late_ok_snoc)
qed

lemma prefixes_clash_disjoint:
  assumes "\<not> clash prefixes_clash ps" and "\<forall>p \<in> set ps. prefix_wf ndp epoch p"
  shows "pairwise_at (\<lambda>p q. pfx_set (px_Prefix p) \<inter> pfx_set (px_Prefix q) = {}) ps"
  using assms(1) unfolding not_clash_iff
  by (rule pairwise_at_mono) (use assms(2) in \<open>auto simp: prefixes_clash_def prefix_wf_def pfx_Overlaps_iff\<close>)

lemma routes_clash_disjoint:
  assumes "\<not> clash routes_clash rs" and "\<forall>r \<in> set rs. route_wf ndp epoch r"
  shows "pairwise_at (\<lambda>r s. ro_Auto r \<or> ro_Auto s \<or> pfx_set (ro_Prefix r) \<inter> pfx_set (ro_Prefix s) = {}) rs"
  using assms(1) unfolding not_clash_iff
  by (rule pairwise_at_mono) (use assms(2) in \<open>auto simp: routes_clash_def route_wf_def pfx_Overlaps_iff\<close>)

lemma parsePlugins_ok:
  assumes "parsePlugins ndp ifi mx epoch h = Ok (ps, h')" and mx: "4 * Second \<le> mx" "mx \<le> 1800 * Second"
  shows "plugins_wf ndp epoch ps \<and> plugins_below h' ps"
proof -
  from assms(1) obtain prefixes routes rdnsss dnssls s where
    px: "mapO (\<lambda>p. wrapErr (FmtV ''failed to parse prefix %q: %v'') (parsePrefix ndp p epoch)) (rwi_Prefixes ifi) = Ok prefixes"
      "\<not> clash prefixes_clash prefixes" and
    ro: "mapO (\<lambda>r. wrapErr (FmtV ''failed to parse route %q: %v'') (parseRoute ndp r epoch)) (rwi_Routes ifi) = Ok routes"
      "\<not> clash routes_clash routes" and
    rs: "mapO (\<lambda>r. wrapErr (FmtV ''failed to parse RDNSS: %v'') (parseRDNSS ndp r mx)) (rwi_RDNSS ifi) = Ok rdnsss" and
    dl: "mapO (\<lambda>d. wrapErr (FmtV ''failed to parse DNSSL: %v'') (parseDNSSL ndp d mx)) (rwi_DNSSL ifi) = Ok dnssls" and
    mtu: "0 \<le> rwi_MTU ifi" "rwi_MTU ifi \<le> 65536" and
    s: "captive_step ndp (rwi_CaptivePortal ifi)
          (map PrefixP prefixes @ map RouteP routes @ map RDNSSP rdnsss @ map DNSSLP dnssls
                @ (if rwi_MTU ifi \<noteq> 0 then [MTUP (rwi_MTU ifi)] else [])
                @ (if (case rwi_SourceLLA ifi of None \<Rightarrow> True | Some b \<Rightarrow> b) then [LLAP \<lparr>la_Addr = None\<rparr>] else []), h) = Ok s" and
    fold: "foldO (pref64_step mx) s (rwi_PREF64 ifi) = Ok (ps, h')"
    by (auto simp: parsePlugins_def bindO_Ok_iff Let_def split: if_split_asm simp del: if_split)
  have wf: "\<forall>p \<in> set prefixes. prefix_wf ndp epoch p" "\<forall>r \<in> set routes. route_wf ndp epoch r"
    "\<forall>r \<in> set rdnsss. rdnss_wf r"
    "\<forall>d \<in> set dnssls. dl_DomainNames d \<noteq> [] \<and> distinct (dl_DomainNames d)"
    using mapO_Ok_set[OF px(1)] mapO_Ok_set[OF ro(1)] mapO_Ok_set[OF rs] mapO_Ok_set[OF dl]
    by (fastforce dest: parsePrefix_wf parseRoute_wf parseRDNSS_facts parseDNSSL_names)+
  have "late_ok ndp epoch s"
    using s
  proof (rule captive_step_ok)
    show "late_ok ndp epoch (map PrefixP prefixes @ map RouteP routes @ map RDNSSP rdnsss @ map DNSSLP dnssls
                @ (if rwi_MTU ifi \<noteq> 0 then [MTUP (rwi_MTU ifi)] else [])
                @ (if (case rwi_SourceLLA ifi of None \<Rightarrow> True | Some b \<Rightarrow> b) then [LLAP \<lparr>la_Addr = None\<rparr>] else []), h)"
      using wf mtu prefixes_clash_disjoint[OF px(2) wf(1)] routes_clash_disjoint[OF ro(2) wf(2)]
      by (auto simp: late_ok_def plugins_wf_def prefixes_disjoint_def routes_disjoint_def
          plugins_below_def opts_below_def)
  qed
  then have "late_ok ndp epoch (ps, h')"
    using foldO_invariant[OF fold, of "late_ok ndp epoch"] pref64_step_ok[OF _ _ mx] by blast
  then show ?thesis by (simp add: late_ok_def)
qed

section \<open>Interfaces and the whole file\<close>

text \<open>
  The ranges of RFC 4861, section 6.2.1, as the configuration enforces them.  The default minimum
  interval can be as low as two seconds.
\<close>

definition interface_wf :: "ndp_pkg \<Rightarrow> instant \<Rightarrow> interface_config \<Rightarrow> bool" where
  "interface_wf ndp epoch c \<longleftrightarrow>
     (if ci_Monitor c then \<not> ci_Advertise c \<and> ci_Plugins c = []
      else 4 * Second \<le> ci_MaxInterval c \<and> ci_MaxInterval c \<le> 1800 * Second \<and>
           2 * Second \<le> ci_MinInterval c \<and> ci_MinInterval c \<le> ci_MaxInterval c \<and>
           0 \<le> ci_ReachableTime c \<and> ci_ReachableTime c \<le> Hour \<and>
           0 \<le> ci_RetransmitTimer c \<and> ci_RetransmitTimer c \<le> Hour \<and>
           (ci_DefaultLifetime c = 0 \<or>
              ci_MaxInterval c \<le> ci_DefaultLifetime c \<and> ci_DefaultLifetime c \<le> 9000 * Second) \<and>
           ci_Preference c \<in> {PrefLow, PrefMedium, PrefHigh} \<and>
           plugins_wf ndp epoch (ci_Plugins c))"

lemma parseInterface_ok:
  assumes "parseInterface ndp name ifi epoch h = Ok (c, h')"
  shows "interface_wf ndp epoch c \<and> ci_Name c = name \<and> (ci_Monitor c \<or> plugins_below h' (ci_Plugins c)) \<and>
    (ci_Monitor c \<longleftrightarrow> rwi_Monitor ifi) \<and> (ci_Advertise c \<longleftrightarrow> rwi_Advertise ifi)"
proof (cases "rwi_Monitor ifi")
  case True
  then show ?thesis using assms by (auto simp: parseInterface_def interface_wf_def split: if_splits)
next
  case False
  with assms have mx: "4 * Second \<le> ci_MaxInterval c" "ci_MaxInterval c \<le> 1800 * Second"
    and mn: "parseMinInterval (rwi_MinInterval ifi) (ci_MaxInterval c) = Ok (ci_MinInterval c)"
    and rt: "0 \<le> ci_ReachableTime c" "ci_ReachableTime c \<le> Hour"
      "0 \<le> ci_RetransmitTimer c" "ci_RetransmitTimer c \<le> Hour"
    and lt: "parseDefaultLifetime ndp (rwi_DefaultLifetime ifi) (ci_MaxInterval c) = Ok (ci_DefaultLifetime c)"
    and pr: "parsePreference (rwi_Preference ifi) = Ok (ci_Preference c)"
    and ps: "parsePlugins ndp ifi (ci_MaxInterval c) epoch h = Ok (ci_Plugins c, h')"
    and m: "ci_Monitor c = rwi_Monitor ifi" "ci_Advertise c = rwi_Advertise ifi" "ci_Name c = name"
    by (auto simp: parseInterface_def bindO_Ok_iff Let_def split: if_split_asm)
  show ?thesis
    using False mx rt m parsePlugins_ok[OF ps mx] parseMinInterval_bounds[OF mn mx]
      parseDefaultLifetime_bounds[OF lt] parsePreference_named[OF pr]
    by (simp add: interface_wf_def)
qed

definition interface_ok :: "ndp_pkg \<Rightarrow> instant \<Rightarrow> ptr \<Rightarrow> interface_config \<Rightarrow> bool" where
  "interface_ok ndp epoch h c \<longleftrightarrow> interface_wf ndp epoch c \<and> plugins_below h (ci_Plugins c)"

lemma interface_ok_plugins: "interface_ok ndp epoch h c \<Longrightarrow> plugins_allocated h c"
  by (simp add: interface_ok_def plugins_below_def plugins_allocated_def)

lemma parseInterface_interface_ok:
  "parseInterface ndp name ifi epoch h = Ok (c, h') \<Longrightarrow> interface_ok ndp epoch h' c \<and> ci_Name c = name"
  using parseInterface_ok[of ndp name ifi epoch h c h']
  by (auto simp: interface_ok_def interface_wf_def plugins_below_def)

text \<open>The allocator only grows, so interfaces parsed earlier stay well-formed.\<close>

lemma interface_ok_mono: "interface_ok ndp epoch h c \<Longrightarrow> h \<le> h' \<Longrightarrow> interface_ok ndp epoch h' c"
  by (auto simp: interface_ok_def intro: plugins_below_mono)

lemma pref64_step_mono: "pref64_step mx s p = Ok s' \<Longrightarrow> snd s \<le> snd s'"
  by (auto simp: pref64_step_def NewPREF64_def bindO_Ok_iff Let_def split: prod.splits)

lemma captive_step_mono: "captive_step ndp cp s = Ok s' \<Longrightarrow> snd s \<le> snd s'"
  by (auto simp: captive_step_def NewCaptivePortal_def bindO_Ok_iff split: prod.splits if_splits)

lemma parsePlugins_mono:
  assumes "parsePlugins ndp ifi mx epoch h = Ok (ps, h')"
  shows "h \<le> h'"
proof -
  from assms obtain p0 s where s: "captive_step ndp (rwi_CaptivePortal ifi) (p0, h) = Ok s"
    and fold: "foldO (pref64_step mx) s (rwi_PREF64 ifi) = Ok (ps, h')"
    by (auto simp: parsePlugins_def bindO_Ok_iff Let_def split: if_split_asm simp del: if_split)
  have "snd s \<le> snd (ps, h')"
    using foldO_invariant[OF fold, of "\<lambda>t. snd s \<le> snd t"] pref64_step_mono order_trans by blast
  then show ?thesis using captive_step_mono[OF s] by simp
qed

lemma parseInterface_mono:
  "parseInterface ndp name ifi epoch h = Ok (c, h') \<Longrightarrow> h \<le> h'"
  by (auto simp: parseInterface_def bindO_Ok_iff Let_def split: if_split_asm dest: parsePlugins_mono)

lemma parseInterfaces_ok:
  assumes "parseInterfaces ndp ifi epoch h = Ok (cs, h')"
  shows "(\<forall>c \<in> set cs. interface_ok ndp epoch h' c) \<and> h \<le> h'"
proof -
  let ?P = "\<lambda>s. (\<forall>c \<in> set (fst s). interface_ok ndp epoch (snd s) c) \<and> h \<le> snd s"
  from assms obtain names where
    "foldO (\<lambda>(ifis, h) name. bindO (wrapErr (FmtV ''%q: %v'') (parseInterface ndp name ifi epoch h))
        (\<lambda>(iface, h'). Ok (ifis @ [iface], h'))) ([], h) names = Ok (cs, h')"
    by (auto simp: parseInterfaces_def bindO_Ok_iff)
  then have "?P (cs, h')"
  proof (rule foldO_invariant[where P = ?P])
    fix s name s'
    assume P: "?P s"
      and step: "(\<lambda>(ifis, h) name. bindO (wrapErr (FmtV ''%q: %v'') (parseInterface ndp name ifi epoch h))
        (\<lambda>(iface, h'). Ok (ifis @ [iface], h'))) s name = Ok s'"
    obtain is0 k where s: "s = (is0, k)" by (cases s)
    obtain c k' where c: "parseInterface ndp name ifi epoch k = Ok (c, k')" "s' = (is0 @ [c], k')"
      using step by (auto simp: s bindO_Ok_iff)
    show "?P s'"
      using P parseInterface_mono[OF c(1)] parseInterface_interface_ok[OF c(1)]
      by (auto simp: s c(2) intro: interface_ok_mono)
  qed simp
  then show ?thesis by simp
qed

lemma repeats_iff: "repeats seen cs \<longleftrightarrow> \<not> distinct (map ci_Name cs) \<or> seen \<inter> ci_Name ` set cs \<noteq> {}"
  by (induction seen cs rule: repeats.induct) auto

lemma parse_step_ok:
  assumes "parse_step ndp epoch (cs, seen, h) ifi = Ok (cs', seen', h')"
    and "\<forall>c \<in> set cs. interface_ok ndp epoch h c" and "distinct (map ci_Name cs)" and "seen = ci_Name ` set cs"
  shows "(\<forall>c \<in> set cs'. interface_ok ndp epoch h' c) \<and> distinct (map ci_Name cs') \<and> seen' = ci_Name ` set cs' \<and>
    h \<le> h'"
proof -
  from assms(1) obtain new where new: "parseInterfaces ndp ifi epoch h = Ok (new, h')"
    "\<not> repeats seen new" "cs' = cs @ new" "seen' = seen \<union> ci_Name ` set new"
    by (auto simp: parse_step_def bindO_Ok_iff split: if_splits)
  show ?thesis
    using new(2-4) assms(2-4) parseInterfaces_ok[OF new(1)]
    by (auto simp: repeats_iff intro: interface_ok_mono)
qed

lemma Parse_ok:
  assumes "Parse ndp resolve decoded epoch h = Ok (cfg, h')"
  shows "(\<forall>c \<in> set (cfg_Interfaces cfg). interface_ok ndp epoch h' c) \<and> distinct (map ci_Name (cfg_Interfaces cfg))"
proof -
  let ?P = "\<lambda>(cs, seen, k). (\<forall>c \<in> set cs. interface_ok ndp epoch k c) \<and> distinct (map ci_Name cs) \<and>
    seen = ci_Name ` set cs"
  from assms obtain f :: raw_file and seen where
    "foldO (parse_step ndp epoch) ([], {}, h) (file_Interfaces f) = Ok (cfg_Interfaces cfg, seen, h')"
    by (auto simp: Parse_def bindO_Ok_iff split: if_splits)
  then have "?P (cfg_Interfaces cfg, seen, h')"
    by (rule foldO_invariant[where P = ?P])
      (auto simp del: split_paired_All dest!: parse_step_ok)
  then show ?thesis by simp
qed

section \<open>Names, and no panic\<close>

lemma parseInterface_name: "parseInterface ndp name ifi epoch h = Ok (c, h') \<Longrightarrow> ci_Name c = name"
  using parseInterface_ok[of ndp name ifi epoch h c h'] by simp

lemma parseInterfaces_names:
  assumes "parseInterfaces ndp ifi epoch h = Ok (cs, h')"
  shows "interface_names ifi = Ok (map ci_Name cs)"
proof -
  from assms obtain names where names: "interface_names ifi = Ok names" and
    fold: "foldO (\<lambda>(ifis, h) name. bindO (wrapErr (FmtV ''%q: %v'') (parseInterface ndp name ifi epoch h))
        (\<lambda>(iface, h'). Ok (ifis @ [iface], h'))) ([], h) names = Ok (cs, h')"
    by (auto simp: parseInterfaces_def bindO_Ok_iff)
  have "\<exists>ys. mapO (\<lambda>n. Ok [n]) names = Ok ys \<and>
      map ci_Name (fst (cs, h')) = map ci_Name (fst ([] :: interface_config list, h)) @ concat ys"
    by (rule foldO_appends[OF fold])
      (auto simp: bindO_Ok_iff dest: parseInterface_name split: prod.splits)
  then obtain ys where ys: "mapO (\<lambda>n. Ok [n]) names = Ok ys" "map ci_Name cs = concat ys" by auto
  have "mapO (\<lambda>n. Ok [n]) ns = Ok (map (\<lambda>n. [n]) ns)" for ns :: "string list" by (induction ns) auto
  then have "ys = map (\<lambda>n. [n]) names" using ys(1) by simp
  then have "concat ys = names" by (simp add: concat_map_singleton)
  then show ?thesis using ys(2) names by simp
qed

lemma Parse_names:
  assumes "Parse ndp resolve decoded epoch h = Ok (cfg, h')"
  shows "\<exists>f nss. decoded = Ok f \<and> mapO interface_names (file_Interfaces f) = Ok nss \<and>
    map ci_Name (cfg_Interfaces cfg) = concat nss"
proof -
  from assms obtain f :: raw_file and seen where f: "decoded = Ok f" and
    fold: "foldO (parse_step ndp epoch) ([], {}, h) (file_Interfaces f) = Ok (cfg_Interfaces cfg, seen, h')"
    by (auto simp: Parse_def bindO_Ok_iff split: if_splits)
  have "\<exists>nss. mapO interface_names (file_Interfaces f) = Ok nss \<and>
      map ci_Name (fst (cfg_Interfaces cfg, seen, h')) =
      map ci_Name (fst ([] :: interface_config list, {} :: string set, h)) @ concat nss"
    by (rule foldO_appends[OF fold])
      (auto simp: parse_step_def bindO_Ok_iff dest: parseInterfaces_names split: prod.splits if_splits)
  then show ?thesis using f by auto
qed

lemma parseMinInterval_no_panic [simp]: "\<not> is_Panic (parseMinInterval s mx)"
  by (simp add: parseMinInterval_def bindO_Panic_iff Let_def)

lemma parseDefaultLifetime_no_panic [simp]: "\<not> is_Panic (parseDefaultLifetime ndp s mx)"
  by (simp add: parseDefaultLifetime_def bindO_Panic_iff)

lemma parse_optional_no_panic [simp]: "\<not> is_Panic (parse_optional w s d)"
  by (simp add: parse_optional_def)

definition portal_safe :: "ndp_pkg \<Rightarrow> bool" where
  "portal_safe ndp \<longleftrightarrow> (\<forall>u. \<not> is_Panic (ndp_NewCaptivePortal ndp u))"

lemma pref64_step_no_panic: "\<not> is_Panic (pref64_step mx s p)"
  by (auto simp: pref64_step_def bindO_Panic_iff Let_def split: prod.splits option.splits)

lemma parsePlugins_no_panic:
  assumes "portal_safe ndp"
  shows "\<not> is_Panic (parsePlugins ndp ifi mx epoch h)"
proof -
  have f: "\<not> is_Panic (foldO (pref64_step mx) s ps)" for s ps
    by (rule foldO_no_panic) (rule pref64_step_no_panic)
  have c: "\<not> is_Panic (captive_step ndp cp s)" for cp s
    using assms by (auto simp: captive_step_def NewCaptivePortal_def portal_safe_def bindO_Panic_iff split: prod.splits)
  have m: "\<not> is_Panic (mapO (\<lambda>x. wrapErr w (g x)) xs)" if "\<And>x. \<not> is_Panic (g x)" for w g and xs :: "'x list"
    by (rule mapO_no_panic) (simp add: that)
  show ?thesis
    by (simp add: parsePlugins_def Let_def bindO_Panic_iff m f c)
qed

lemma parseInterface_no_panic:
  "portal_safe ndp \<Longrightarrow> \<not> is_Panic (parseInterface ndp name ifi epoch h)"
  by (auto simp: parseInterface_def Let_def bindO_Panic_iff parsePlugins_no_panic split: prod.splits)

lemma parseInterfaces_no_panic:
  assumes "portal_safe ndp"
  shows "\<not> is_Panic (parseInterfaces ndp ifi epoch h)"
proof -
  have "\<not> is_Panic (foldO (\<lambda>(ifis, h) name. bindO (wrapErr (FmtV ''%q: %v'') (parseInterface ndp name ifi epoch h))
      (\<lambda>(iface, h'). Ok (ifis @ [iface], h'))) s names)" for s names
    by (rule foldO_no_panic) (auto simp: bindO_Panic_iff parseInterface_no_panic[OF assms])
  then show ?thesis
    by (auto simp: parseInterfaces_def interface_names_def Let_def bindO_Panic_iff)
qed

lemma parse_step_no_panic:
  "portal_safe ndp \<Longrightarrow> \<not> is_Panic (parse_step ndp epoch s ifi)"
  by (auto simp: parse_step_def bindO_Panic_iff parseInterfaces_no_panic split: prod.splits)

lemma Parse_no_panic:
  assumes "portal_safe ndp" and "\<not> is_Panic decoded" and "\<forall>a. \<not> is_Panic (resolve a)"
  shows "\<not> is_Panic (Parse ndp resolve decoded epoch h)"
proof -
  have "\<not> is_Panic (foldO (parse_step ndp epoch) s is0)" for s is0
    by (rule foldO_no_panic) (rule parse_step_no_panic[OF assms(1)])
  then show ?thesis
    using assms(2,3) by (auto simp: Parse_def bindO_Panic_iff split: prod.splits)
qed

end
