(* ===== verification/GoFmt.thy ===== *)
theory GoFmt
  imports GoSeconds GoDuration NetipText
begin

text \<open>
  Formatting of Go's standard library: the verb \<open>%q\<close> for strings (\<open>strconv.Quote\<close>) and
  \<open>Duration.String\<close>, with the fact that \<open>time.ParseDuration\<close> reads back what the latter prints.  Bytes
  outside of ASCII are quoted as bytes that are not valid UTF-8.
\<close>

section \<open>Quoting\<close>

definition quote_char :: "char \<Rightarrow> string" where
  "quote_char c =
     (let b = byte_of c :: nat
      in if b = 34 \<or> b = 92 then [CHR 0x5C, c]
         else if 32 \<le> b \<and> b < 127 then [c]
         else if b = 7 then [CHR 0x5C, CHR ''a'']
         else if b = 8 then [CHR 0x5C, CHR ''b'']
         else if b = 12 then [CHR 0x5C, CHR ''f'']
         else if b = 10 then [CHR 0x5C, CHR ''n'']
         else if b = 13 then [CHR 0x5C, CHR ''r'']
         else if b = 9 then [CHR 0x5C, CHR ''t'']
         else if b = 11 then [CHR 0x5C, CHR ''v'']
         else [CHR 0x5C, CHR ''x'', hex_char (b div 16), hex_char (b mod 16)])"

definition go_quote :: "string \<Rightarrow> string" where
  "go_quote s = [CHR 0x22] @ concat (map quote_char s) @ [CHR 0x22]"


section \<open>Durations\<close>

text \<open>The \<open>p\<close> decimal digits of a number below \<open>10 ^ p\<close>.\<close>

fun pad_dec :: "nat \<Rightarrow> nat \<Rightarrow> string" where
  "pad_dec 0 n = []"
| "pad_dec (Suc p) n = pad_dec p (n div 10) @ [char_of (48 + n mod 10)]"

lemma pad_dec_numeral:
  "pad_dec (numeral k) n = pad_dec (pred_numeral k) (n div 10) @ [char_of (48 + n mod 10)]"
  using pad_dec.simps(2)[of "pred_numeral k" n] by (simp only: numeral_eq_Suc[of k, symmetric])

text \<open>\<open>fmtFrac\<close>: the fraction without its trailing zeros, and without the point when it is zero.\<close>

definition fmt_frac :: "nat \<Rightarrow> nat \<Rightarrow> string" where
  "fmt_frac p u =
     (let ds = rev (dropWhile (\<lambda>c. c = CHR ''0'') (rev (pad_dec p (u mod 10 ^ p))))
      in if ds = [] then [] else CHR ''.'' # ds)"

definition fmt_unit :: "nat \<Rightarrow> nat \<Rightarrow> string \<Rightarrow> string" where
  "fmt_unit p u unit = show_dec (u div 10 ^ p) @ fmt_frac p u @ unit"

definition dur_String :: "duration \<Rightarrow> string" where
  "dur_String d =
     (let u = nat \<bar>d\<bar>; m = u div 10 ^ 9 div 60
      in (if d < 0 then ''-'' else []) @
         (if u = 0 then ''0s''
          else if u < 10 ^ 3 then fmt_unit 0 u ''ns''
          else if u < 10 ^ 6 then fmt_unit 3 u [CHR 0xC2, CHR 0xB5, CHR ''s'']
          else if u < 10 ^ 9 then fmt_unit 6 u ''ms''
          else (if m > 0 then
                  (if m div 60 > 0 then show_dec (m div 60) @ ''h'' else []) @ show_dec (m mod 60) @ ''m''
                else []) @
               show_dec (u div 10 ^ 9 mod 60) @ fmt_frac 9 u @ ''s''))"

section \<open>Reading a number back\<close>

lemma digit_char: "d < 10 \<Longrightarrow> is_digit (char_of (48 + d)) \<and> digit_val (char_of (48 + d)) = int d"
  for d :: nat
  by (simp add: is_digit_def digit_val_def)

lemma show_dec_head: "\<exists>c cs. show_dec n = c # cs \<and> is_digit c"
proof (induction n rule: show_dec.induct)
  case (1 n)
  then show ?case by (cases "n < 10") (use digit_char[of n] in \<open>force simp: show_dec.simps[of n]\<close>)+
qed

lemma leadingInt_show: "int n \<le> 2 ^ 63 \<Longrightarrow> leadingInt 0 (show_dec n @ r) = leadingInt (int n) r"
proof (induction n arbitrary: r rule: show_dec.induct)
  case (1 n)
  show ?case
  proof (cases "n < 10")
    case True
    then show ?thesis using digit_char[of n] by (simp add: show_dec.simps[of n])
  next
    case False
    have n: "int n = int (n div 10) * 10 + int (n mod 10)" by (metis div_mult_mod_eq of_nat_add of_nat_mult of_nat_numeral)
    have "leadingInt 0 (show_dec n @ r) = leadingInt (int (n div 10)) (char_of (48 + n mod 10) # r)"
      using 1 False by (simp add: show_dec.simps[of n])
    also have "\<dots> = leadingInt (int n) r"
      using digit_char[of "n mod 10"] 1(2) n by (simp add: Let_def)
    finally show ?thesis .
  qed
qed

lemma leadingFraction_pad:
  assumes "m < 10 ^ k" and "0 \<le> x" and "x * 10 ^ k + int m \<le> 10 ^ 9"
  shows "leadingFraction x sc False (pad_dec k m @ r) =
    leadingFraction (x * 10 ^ k + int m) (((\<lambda>s. f_mul s (f_of_int 10)) ^^ k) sc) False r"
  using assms
proof (induction k arbitrary: m r)
  case (Suc k)
  let ?y = "x * 10 ^ k + int (m div 10)"
  have m: "int m = int (m div 10) * 10 + int (m mod 10)" by (metis div_mult_mod_eq of_nat_add of_nat_mult of_nat_numeral)
  have y: "?y * 10 + int (m mod 10) = x * 10 ^ Suc k + int m" using m by (simp add: algebra_simps)
  have y': "x * 10 ^ k * 10 + int (m div 10) * 10 + int (m mod 10) = x * (10 * 10 ^ k) + int m"
    using m by (simp add: algebra_simps)
  have b: "m div 10 < 10 ^ k" "0 \<le> ?y" "?y \<le> 10 ^ 9" using Suc.prems y by (auto simp: less_mult_imp_div_less)
  have "leadingFraction x sc False (pad_dec (Suc k) m @ r) =
      leadingFraction ?y (((\<lambda>s. f_mul s (f_of_int 10)) ^^ k) sc) False (char_of (48 + m mod 10) # r)"
    using Suc.IH[OF b(1) Suc.prems(2) b(3)] by simp
  also have "\<dots> = leadingFraction (x * 10 ^ Suc k + int m) (((\<lambda>s. f_mul s (f_of_int 10)) ^^ Suc k) sc) False r"
    using digit_char[of "m mod 10"] Suc.prems b by (simp add: Let_def max_int64_def y')
  finally show ?case .
qed simp

text \<open>Leaving out the trailing zeros of a fraction.\<close>

lemma pad_dec_Nil [simp]: "pad_dec k m = [] \<longleftrightarrow> k = 0"
  by (cases k) auto

lemma zero_char: "char_of (48 :: nat) = CHR ''0''"
  by code_simp

lemma zero_digit: "d < 10 \<Longrightarrow> char_of (48 + d) = CHR ''0'' \<longleftrightarrow> d = 0"
  for d :: nat
  using digit_char[of d] digit_char[of 0] zero_char by auto

lemma stripped_fraction:
  assumes "m < 10 ^ p"
  shows "\<exists>k q. k \<le> p \<and> q < 10 ^ k \<and> m = q * 10 ^ (p - k) \<and>
    rev (dropWhile (\<lambda>c. c = CHR ''0'') (rev (pad_dec p m))) = pad_dec k q \<and> (k = 0 \<longleftrightarrow> m = 0)"
  using assms
proof (induction p arbitrary: m)
  case (Suc p)
  show ?case
  proof (cases "m mod 10 = 0")
    case True
    then obtain n where n: "m = n * 10" by (metis mod_0_imp_dvd dvd_def mult.commute)
    then obtain k q where "k \<le> p" "q < 10 ^ k" "n = q * 10 ^ (p - k)"
        "rev (dropWhile (\<lambda>c. c = CHR ''0'') (rev (pad_dec p n))) = pad_dec k q" "k = 0 \<longleftrightarrow> n = 0"
      using Suc.IH[of n] Suc.prems by auto
    then show ?thesis using n zero_digit[of 0] by (intro exI[of _ k] exI[of _ q]) (simp add: Suc_diff_le)
  next
    case False
    then show ?thesis
      using Suc.prems zero_digit[of "m mod 10"] by (intro exI[of _ "Suc p"] exI[of _ m]) auto
  qed
qed auto


section \<open>Exact products\<close>

text \<open>A number of at most 53 significant bits is exact.\<close>

lemma fl_dyadic:
  assumes "0 < t" and "t < 2 ^ 53"
  shows "f_val (fl (t * 2 ^ z) 1) = of_int t * 2 ^ z"
proof -
  let ?p = "t * 2 ^ z :: int"
  have p: "0 < ?p" using assms by simp
  define s where "s = fl_shift ?p 1"
  have fl: "fl ?p 1 = F (round_half_even (?p * 2 ^ nat s) (1 * 2 ^ nat (- s))) (- s)"
    using assms(1) by (simp add: fl_def Let_def s_def abs_mult sgn_mult)
  show ?thesis
  proof (cases "0 \<le> s")
    case True
    then have "fl ?p 1 = F (?p * 2 ^ nat s) (- s)" using round_half_even_exact[of 1 "?p * 2 ^ nat s"] by (simp add: fl)
    then show ?thesis using True by (simp add: powr_minus powr_int)
  next
    case False
    have "- s \<le> int z"
    proof (rule ccontr)
      assume "\<not> - s \<le> int z"
      then have "2 powr (real z + real_of_int s) \<le> 2 powr (- 1)" by (intro powr_mono) auto
      then have "real_of_int t * 2 powr (real z + real_of_int s) \<le> real_of_int t * 2 powr (- 1)"
        using assms(1) by (intro mult_left_mono) auto
      moreover have "real_of_int t < real_of_int (2 ^ 53)" using assms(2) by (simp only: of_int_less_iff)
      ultimately have "real_of_int t * 2 powr (real z + real_of_int s) < 2 ^ 52" by (simp add: powr_minus_divide)
      then show False
        using fl_shift_bounds(1)[OF p, of 1] by (simp add: s_def powr_add powr_realpow mult.assoc)
    qed
    then obtain j where j: "z = j + nat (- s)" by (metis False add.commute le_add_diff_inverse nat_int nat_le_iff nat_mono not_le of_nat_nat)
    then have e: "?p * 2 ^ nat s = t * 2 ^ j * 2 ^ nat (- s)" using False by (simp add: power_add)
    have "fl ?p 1 = F (t * 2 ^ j) (- s)"
      by (simp only: fl e mult_1_left round_half_even_exact zero_less_power zero_less_numeral)
    moreover have "2 powr (real_of_int (- s)) = (2 :: real) ^ nat (- s)" using False by (subst powr_int) auto
    ultimately show ?thesis by (simp add: j power_add)
  qed
qed

lemma f_mul_exact:
  assumes "0 < q" and "0 < c" and "q * c < 2 ^ 53"
  shows "f_trunc (f_mul (f_of_int q) (f_of_int c)) = q * c"
proof -
  have "1 * c \<le> q * c" "q * 1 \<le> q * c" using assms(1,2) by (intro mult_right_mono mult_left_mono; simp)+
  then have "q < 2 ^ 53" "c < 2 ^ 53" using assms(3) by linarith+
  then obtain a b where ab: "0 \<le> a" "0 \<le> b" "f_of_int q = F (q * 2 ^ nat a) (- a)" "f_of_int c = F (c * 2 ^ nat b) (- b)"
    using fl_exact_shape[OF assms(1)] fl_exact_shape[OF assms(2)] by (metis f_of_int_def)
  have t: "0 < q * c" using assms by simp
  let ?n = "q * c * 2 ^ (nat a + nat b)"
  have mul: "f_mul (f_of_int q) (f_of_int c) = f_shift (- a + - b) (fl ?n 1)"
    by (simp add: ab power_add ac_simps)
  obtain m e where f: "fl ?n 1 = F m e" "0 \<le> m" using fl_sig_nonneg[of ?n 1] t by auto
  have "f_val (F m (e + (- a + - b))) = f_val (fl ?n 1) * 2 powr (real_of_int (- a + - b))"
    unfolding f(1) using f_val_shift[of "- a + - b" "F m e"] by simp
  also have "\<dots> = real_of_int (q * c) * (2 ^ nat a * 2 powr (- real_of_int a)) * (2 ^ nat b * 2 powr (- real_of_int b))"
    unfolding fl_dyadic[OF t assms(3)] by (simp add: power_add powr_diff powr_minus field_simps)
  also have "\<dots> = real_of_int (q * c)" using ab(1,2) by (simp add: powr_minus powr_int)
  finally show ?thesis unfolding mul f(1) f_shift.simps f_trunc_floor[OF f(2)] by (simp only: floor_of_int)
qed

section \<open>Reading a duration back\<close>

text \<open>The scale of a fraction of \<open>k\<close> digits is exact, and so is a unit divided by it.\<close>

definition frac_scale :: "nat \<Rightarrow> f64" where
  "frac_scale k = ((\<lambda>s. f_mul s (f_of_int 10)) ^^ k) (F 1 0)"

lemma unit_by_scale:
  "list_all (\<lambda>(p, k). f_div (f_of_int (10 ^ p)) (frac_scale k) = f_of_int (10 ^ (p - k)))
     (concat (map (\<lambda>p. map (\<lambda>k. (p, k)) [0..<Suc p]) [3, 6, 9]))"
  by code_simp

lemma unit_by_scale_of:
  assumes "p \<in> {3, 6, 9}" and "k \<le> p"
  shows "f_div (f_of_int (10 ^ p)) (frac_scale k) = f_of_int (10 ^ (p - k))"
proof -
  have "(p, k) \<in> set (concat (map (\<lambda>p. map (\<lambda>k. (p, k)) [0..<Suc p]) [3, 6, 9]))" using assms by auto
  then show ?thesis using unit_by_scale unfolding list_all_iff by blast
qed

text \<open>A unit ends where the input does or at the next digit.\<close>

definition unit_ends :: "string \<Rightarrow> bool" where
  "unit_ends r \<longleftrightarrow> (case r of [] \<Rightarrow> True | c # _ \<Rightarrow> is_digit c)"

lemma unit_split:
  assumes "list_all unit_char un" and "unit_ends r"
  shows "takeWhile unit_char (un @ r) = un \<and> dropWhile unit_char (un @ r) = r"
  using assms by (induction un) (auto simp: unit_ends_def unit_char_def split: list.splits)

lemma parse_group_whole:
  assumes "list_all unit_char un" and "unit_ends r" and "unit_of un = Some u" and "un \<noteq> []"
    and "0 < u" and "int n * u \<le> 2 ^ 63"
  shows "parse_group (show_dec n @ un @ r) = Ok (int n * u, r)"
proof -
  obtain c cs where c: "show_dec n = c # cs" "is_digit c" using show_dec_head by blast
  obtain d ds where d: "un = d # ds" "unit_char d" using assms(1,4) by (cases un) auto
  have "int n * 1 \<le> int n * u" using assms(5) by (intro mult_left_mono) auto
  then have n: "int n \<le> 2 ^ 63" using assms(6) by linarith
  have "leadingInt 0 (show_dec n @ un @ r) = Some (int n, un @ r)"
    using leadingInt_show[OF n, of "un @ r"] d by (simp add: unit_char_def)
  moreover have "\<not> int n > 2 ^ 63 div u" using zdiv_mono1[OF assms(6,5)] assms(5) by simp
  ultimately show ?thesis
    using assms c d unit_split[OF assms(1,2)]
    by (simp add: parse_group_def Let_def unit_char_def)
qed

lemma parse_group_fraction:
  assumes "list_all unit_char un" and "unit_ends r" and "unit_of un = Some (10 ^ p)" and "un \<noteq> []"
    and "p \<in> {3, 6, 9}" and "m < 10 ^ p" and "m \<noteq> 0" and "int (n * 10 ^ p + m) \<le> 2 ^ 63"
  shows "parse_group (show_dec n @ fmt_frac p m @ un @ r) = Ok (int (n * 10 ^ p + m), r)"
proof -
  obtain k q where k: "k \<le> p" "q < 10 ^ k" "m = q * 10 ^ (p - k)"
      "rev (dropWhile (\<lambda>c. c = CHR ''0'') (rev (pad_dec p m))) = pad_dec k q" "k = 0 \<longleftrightarrow> m = 0"
    using stripped_fraction[OF assms(6)] by (elim exE conjE) (rule that; assumption)
  have fr: "fmt_frac p m = CHR ''.'' # pad_dec k q"
  proof -
    have m: "m mod 10 ^ p = m" using assms(6) by simp
    have "pad_dec k q \<noteq> []" using k(5) assms(7) by simp
    then show ?thesis unfolding fmt_frac_def m Let_def k(4) by (rule if_not_P)
  qed
  obtain c cs where c: "show_dec n = c # cs" "is_digit c" using show_dec_head by blast
  obtain d ds where d: "un = d # ds" "unit_char d" using assms(1,4) by (cases un) auto
  have big: "(10::int) ^ p \<le> 10 ^ 9" using assms(5) by auto
  have n: "int n * 10 ^ p \<le> 2 ^ 63" using assms(8) by simp
  have "int n * 1 \<le> int n * 10 ^ p" by (intro mult_left_mono) auto
  then have n63: "int n \<le> 2 ^ 63" using n by linarith
  have li: "leadingInt 0 (show_dec n @ CHR ''.'' # pad_dec k q @ un @ r) = Some (int n, CHR ''.'' # pad_dec k q @ un @ r)"
    using leadingInt_show[OF n63] by (simp add: is_digit_def)
  have "(10::nat) ^ k \<le> 10 ^ p" using k(1) by (intro power_increasing) auto
  then have q: "int q \<le> 10 ^ 9" using k(2) big by (metis (mono_tags, lifting) less_imp_le_nat of_nat_le_iff of_nat_numeral of_nat_power order_trans)
  have lf: "leadingFraction 0 (F 1 0) False (pad_dec k q @ un @ r) = (int q, frac_scale k, un @ r)"
    using leadingFraction_pad[OF k(2), of 0 "F 1 0" "un @ r"] q d by (simp add: frac_scale_def unit_char_def)
  have q0: "0 < q" using k(3) assms(7) by (cases q) auto
  have qm: "int q * 10 ^ (p - k) = int m" using k(3) by simp
  have "int m < 10 ^ p" using assms(6) by (metis of_nat_less_iff of_nat_numeral of_nat_power)
  also have "\<dots> < 2 ^ 53" using big by simp
  finally have w: "f_trunc (f_mul (f_of_int (int q)) (f_of_int (10 ^ (p - k)))) = int m"
    using f_mul_exact[of "int q" "10 ^ (p - k)", unfolded qm] q0 by simp
  have "\<not> int n > 2 ^ 63 div 10 ^ p" using zdiv_mono1[OF n, of "10 ^ p"] by simp
  then show ?thesis
    unfolding fr using c d li lf w q0 assms(3,4,8) unit_split[OF assms(1,2)] unit_by_scale_of[OF assms(5) k(1)]
    by (simp add: parse_group_def Let_def)
qed

lemma parse_group_unit:
  assumes "list_all unit_char un" and "unit_ends r" and "unit_of un = Some (10 ^ p)" and "un \<noteq> []"
    and "p \<in> {3, 6, 9}" and "int u \<le> 2 ^ 63"
  shows "parse_group (fmt_unit p u un @ r) = Ok (int u, r)"
proof -
  have u: "u = (u div 10 ^ p) * 10 ^ p + u mod 10 ^ p" by (rule div_mult_mod_eq[symmetric])
  have le: "int (u div 10 ^ p * 10 ^ p + u mod 10 ^ p) \<le> 2 ^ 63" unfolding div_mult_mod_eq by (rule assms(6))
  have f: "fmt_frac p u = fmt_frac p (u mod 10 ^ p)" by (simp add: fmt_frac_def)
  show ?thesis
  proof (cases "u mod 10 ^ p = 0")
    case True
    have "fmt_frac p 0 = []"
      using stripped_fraction[of 0 p] by (auto simp: fmt_frac_def)
    moreover have "int (u div 10 ^ p) * 10 ^ p \<le> 2 ^ 63" using le True by simp
    moreover have "int (u div 10 ^ p) * 10 ^ p = int u"
      using True u by (metis add_0_right of_nat_mult of_nat_numeral of_nat_power)
    ultimately show ?thesis
      using parse_group_whole[OF assms(1-4), of "u div 10 ^ p"] True f by (simp add: fmt_unit_def)
  next
    case False
    then show ?thesis
      using parse_group_fraction[OF assms(1-5) _ False le] u f by (simp add: fmt_unit_def)
  qed
qed

text \<open>Adding up the groups.\<close>

lemma parse_groups_add:
  assumes "parse_group s = Ok (v, r)" and "0 \<le> v" and "0 \<le> d" and "d + v \<le> 2 ^ 63"
  shows "parse_groups d s = parse_groups (d + v) r"
proof -
  have "s \<noteq> []" using assms(1) by (auto simp: parse_group_def)
  moreover have "(d + v) mod 2 ^ 64 = d + v" using assms(2-4) by simp
  ultimately show ?thesis using assms(1,4) by (subst parse_groups.simps) simp
qed

lemma parse_groups_end: "parse_groups d [] = Ok d"
  by (simp add: parse_groups.simps)

lemma unit_ends_number [simp]: "unit_ends (show_dec n @ r)" "unit_ends []"
  using show_dec_head[of n] by (auto simp: unit_ends_def)

lemma units:
  "unit_of ''h'' = Some Hour" "unit_of ''m'' = Some Minute" "unit_of ''s'' = Some (10 ^ 9)"
  "unit_of ''ms'' = Some (10 ^ 6)" "unit_of [CHR 0xC2, CHR 0xB5, CHR ''s''] = Some (10 ^ 3)" "unit_of ''ns'' = Some 1"
  by (simp_all add: unit_of_def)

lemma unit_chars:
  "list_all unit_char ''h''" "list_all unit_char ''m''" "list_all unit_char ''s''" "list_all unit_char ''ms''"
  "list_all unit_char [CHR 0xC2, CHR 0xB5, CHR ''s'']" "list_all unit_char ''ns''"
  by (simp_all add: unit_char_def is_digit_def)

definition clock_text :: "nat \<Rightarrow> string" where
  "clock_text u =
     (let m = u div 10 ^ 9 div 60
      in (if m > 0 then
            (if m div 60 > 0 then show_dec (m div 60) @ ''h'' else []) @ show_dec (m mod 60) @ ''m''
          else []) @
         show_dec (u div 10 ^ 9 mod 60) @ fmt_frac 9 u @ ''s'')"

lemma clock_text_parses:
  assumes "int u \<le> 2 ^ 63"
  shows "parse_groups 0 (clock_text u) = Ok (int u)"
proof -
  define sec m h where "sec = u div 10 ^ 9 mod 60" and "m = u div 10 ^ 9 div 60 mod 60" and "h = u div 10 ^ 9 div 60 div 60"
  define f where "f = u mod 10 ^ 9"
  have minutes: "u div 10 ^ 9 div 60 = h * 60 + m" by (simp add: h_def m_def)
  have "u div 10 ^ 9 = (h * 60 + m) * 60 + sec" unfolding minutes[symmetric] sec_def by (rule div_mult_mod_eq[symmetric])
  then have u: "u = ((h * 60 + m) * 60 + sec) * 10 ^ 9 + f" by (metis f_def div_mult_mod_eq)
  have ui: "int u = int h * Hour + int m * Minute + int (sec * 10 ^ 9 + f)" by (subst u) simp
  have b: "int h * Hour \<le> 2 ^ 63" "int m * Minute \<le> 2 ^ 63" "int (sec * 10 ^ 9 + f) \<le> 2 ^ 63"
    "int h * Hour + int m * Minute \<le> 2 ^ 63" "0 \<le> int h * Hour" "0 \<le> int m * Minute"
    using assms unfolding ui by simp_all
  have frac: "fmt_frac 9 u = fmt_frac 9 (sec * 10 ^ 9 + f)" "fmt_unit 9 (sec * 10 ^ 9 + f) ''s'' = show_dec sec @ fmt_frac 9 u @ ''s''"
    by (simp_all add: fmt_frac_def fmt_unit_def f_def)
  have last: "parse_groups d (show_dec sec @ fmt_frac 9 u @ ''s'') = Ok (d + int (sec * 10 ^ 9 + f))"
    if "0 \<le> d" "d + int (sec * 10 ^ 9 + f) \<le> 2 ^ 63" for d
    using parse_groups_add[OF parse_group_unit[OF unit_chars(3), of "[]" 9, simplified append_Nil2, OF _ units(3) _ _ b(3)] _ that]
    unfolding frac(2) by (simp add: parse_groups_end)
  have mins: "parse_groups d (show_dec m @ CHR ''m'' # r) = parse_groups (d + int m * Minute) r"
    if "0 \<le> d" "d + int m * Minute \<le> 2 ^ 63" "unit_ends r" for d r
    using parse_groups_add[OF parse_group_whole[OF unit_chars(2) that(3) units(2) _ _ b(2)] b(6) that(1,2)] by simp
  have hours: "parse_groups 0 (show_dec h @ CHR ''h'' # r) = parse_groups (int h * Hour) r" if "unit_ends r" for r
    using parse_groups_add[OF parse_group_whole[OF unit_chars(1) that units(1) _ _ b(1)] b(5), of 0] b(1) by simp
  have shape: "clock_text u = (if h * 60 + m > 0 then (if h > 0 then show_dec h @ ''h'' else []) @ show_dec m @ ''m'' else []) @
      show_dec sec @ fmt_frac 9 u @ ''s''"
    unfolding clock_text_def Let_def minutes sec_def[symmetric] using minutes h_def m_def by (metis)
  consider "h > 0" | "h = 0" "m > 0" | "h = 0" "m = 0" by blast
  then show ?thesis
  proof cases
    case 1
    then show ?thesis using ui assms b by (simp add: shape hours mins last)
  next
    case 2
    then show ?thesis using ui assms b by (simp add: shape mins last)
  next
    case 3
    then show ?thesis using ui assms by (simp add: shape last)
  qed
qed

text \<open>What follows the sign.\<close>

definition magnitude_text :: "nat \<Rightarrow> string" where
  "magnitude_text u =
     (if u = 0 then ''0s''
      else if u < 10 ^ 3 then fmt_unit 0 u ''ns''
      else if u < 10 ^ 6 then fmt_unit 3 u [CHR 0xC2, CHR 0xB5, CHR ''s'']
      else if u < 10 ^ 9 then fmt_unit 6 u ''ms''
      else clock_text u)"

lemma dur_String_magnitude: "dur_String d = (if d < 0 then ''-'' else []) @ magnitude_text (nat \<bar>d\<bar>)"
  by (simp add: dur_String_def magnitude_text_def clock_text_def Let_def)

lemma magnitude_text_parses:
  assumes "int u \<le> 2 ^ 63"
  shows "parse_groups 0 (magnitude_text u) = Ok (int u)"
proof -
  have one: "parse_groups 0 s = Ok (int u)" if "parse_group s = Ok (int u, [])" for s
    using parse_groups_add[OF that, of 0] assms by (simp add: parse_groups_end)
  have zero: "parse_groups 0 ''0s'' = Ok 0" by code_simp
  have ns: "parse_group (fmt_unit 0 u ''ns'') = Ok (int u, [])"
    using parse_group_whole[OF unit_chars(6) unit_ends_number(2) units(6), of u] assms
    by (simp add: fmt_unit_def fmt_frac_def)
  show ?thesis
    using zero one[OF ns] one[OF parse_group_unit[OF unit_chars(5) unit_ends_number(2) units(5), simplified append_Nil2, OF _ _ assms]]
      one[OF parse_group_unit[OF unit_chars(4) unit_ends_number(2) units(4), simplified append_Nil2, OF _ _ assms]]
      clock_text_parses[OF assms]
    by (simp add: magnitude_text_def)
qed

text \<open>It starts with a digit, so that it is never taken for a sign, nor for the lone zero.\<close>

lemma magnitude_text_head: "\<exists>c cs. magnitude_text u = c # cs \<and> is_digit c"
proof -
  have "\<exists>c cs. show_dec n @ r = c # cs \<and> is_digit c" for n r using show_dec_head[of n] by auto
  then show ?thesis
    by (auto simp: magnitude_text_def clock_text_def fmt_unit_def Let_def is_digit_def)
qed

lemma magnitude_text_last: "last (magnitude_text u) = CHR ''s''"
  by (simp add: magnitude_text_def clock_text_def fmt_unit_def Let_def)

lemma ParseDuration_dur_String:
  assumes "in_int64 d"
  shows "ParseDuration (dur_String d) = Ok d"
proof -
  obtain c cs where c: "magnitude_text (nat \<bar>d\<bar>) = c # cs" "is_digit c" using magnitude_text_head by blast
  have sign: "c \<noteq> CHR ''-''" "c \<noteq> CHR ''+''" using c(2) by (auto simp: is_digit_def)
  have "magnitude_text (nat \<bar>d\<bar>) \<noteq> ''0''" using magnitude_text_last[of "nat \<bar>d\<bar>"] by auto
  moreover have "int (nat \<bar>d\<bar>) \<le> 2 ^ 63" using assms by (auto simp: in_int64_def min_int64_def max_int64_def)
  then have "parse_groups 0 (c # cs) = Ok \<bar>d\<bar>" using magnitude_text_parses[of "nat \<bar>d\<bar>"] c(1) by simp
  ultimately show ?thesis
    using assms c sign by (auto simp: dur_String_magnitude ParseDuration_def Let_def in_int64_def max_int64_def)
qed

end
