(* ===== verification/Verify.thy ===== *)
theory Verify
  imports Ndp
begin

text \<open>
  \<open>internal/corerad/verify.go\<close>: consistency of two router advertisements, by the rules of RFC 4861,
  section 6.2.7.  The values a problem reports are kept with their Go type in \<open>any\<close>; a message is the
  pair of values and whether it quotes them.  The facts are in \<open>Verify_Facts\<close>.
\<close>

section \<open>Problems\<close>

datatype any =
    AnyUint8 u8
  | AnyUint32 u32
  | AnyInt int
  | AnyBool bool
  | AnyDuration duration
  | AnyString string

fun type_of :: "any \<Rightarrow> string" where
  "type_of (AnyUint8 _) = ''uint8''"
| "type_of (AnyUint32 _) = ''uint32''"
| "type_of (AnyInt _) = ''int''"
| "type_of (AnyBool _) = ''bool''"
| "type_of (AnyDuration _) = ''time.Duration''"
| "type_of (AnyString _) = ''string''"

text \<open>Of these types only \<open>time.Duration\<close> has a \<open>String\<close> method.\<close>

fun is_string :: "any \<Rightarrow> bool" where
  "is_string (AnyString _) = True"
| "is_string _ = False"

fun is_stringer :: "any \<Rightarrow> bool" where
  "is_stringer (AnyDuration _) = True"
| "is_stringer _ = False"

datatype problem_message = WantGotQuoted any any | WantGot any any

record problem =
  pb_Field :: string
  pb_Details :: string
  pb_Message :: problem_message

definition newProblem :: "string \<Rightarrow> string \<Rightarrow> any \<Rightarrow> any \<Rightarrow> problem outcome" where
  "newProblem field details want got =
     (if type_of want \<noteq> type_of got then Panic ''corerad: newProblem types must match: %T != %T''
      else if is_string want \<and> is_string got then
        Ok \<lparr>pb_Field = field, pb_Details = details, pb_Message = WantGotQuoted want got\<rparr>
      else if is_stringer want \<and> is_stringer got then
        Ok \<lparr>pb_Field = field, pb_Details = details, pb_Message = WantGotQuoted want got\<rparr>
      else Ok \<lparr>pb_Field = field, pb_Details = details, pb_Message = WantGot want got\<rparr>)"

definition push :: "string \<Rightarrow> string \<Rightarrow> any \<Rightarrow> any \<Rightarrow> problem list \<Rightarrow> problem list outcome" where
  "push field details want got ps = bindO (newProblem field details want got) (\<lambda>p. Ok (ps @ [p]))"

definition merge :: "problem list outcome \<Rightarrow> problem list \<Rightarrow> problem list outcome" where
  "merge pss ps = bindO pss (\<lambda>qs. Ok (ps @ qs))"

text \<open>\<open>if c { ps.push(...) }\<close>\<close>

definition push_when ::
  "bool \<Rightarrow> string \<Rightarrow> string \<Rightarrow> any \<Rightarrow> any \<Rightarrow> problem list \<Rightarrow> problem list outcome" where
  "push_when c field details want got ps = (if c then push field details want got ps else Ok ps)"


section \<open>Options by type\<close>

text \<open>\<open>o.(T)\<close> for an option type \<open>T\<close>.\<close>

fun as_MTU :: "ndp_option \<Rightarrow> u32 option" where
  "as_MTU (MTUOpt m) = Some m"
| "as_MTU _ = None"

fun as_CaptivePortal :: "ndp_option \<Rightarrow> string option" where
  "as_CaptivePortal (CaptivePortalOpt u) = Some u"
| "as_CaptivePortal _ = None"

fun as_PrefixInformation :: "ndp_option \<Rightarrow> prefix_information option" where
  "as_PrefixInformation (PrefixInformationOpt x) = Some x"
| "as_PrefixInformation _ = None"

fun as_RouteInformation :: "ndp_option \<Rightarrow> route_information option" where
  "as_RouteInformation (RouteInformationOpt x) = Some x"
| "as_RouteInformation _ = None"

fun as_RecursiveDNSServer :: "ndp_option \<Rightarrow> recursive_dns_server option" where
  "as_RecursiveDNSServer (RecursiveDNSServerOpt x) = Some x"
| "as_RecursiveDNSServer _ = None"

fun as_DNSSearchList :: "ndp_option \<Rightarrow> dns_search_list option" where
  "as_DNSSearchList (DNSSearchListOpt x) = Some x"
| "as_DNSSearchList _ = None"

text \<open>The picked options are pointers; \<open>snd\<close> is the option they point to.\<close>

fun pick :: "(ndp_option \<Rightarrow> 'a option) \<Rightarrow> opt_ptr list \<Rightarrow> (ptr \<times> 'a) list" where
  "pick as [] = []"
| "pick as (p # ps) =
     (case as (snd p) of Some t \<Rightarrow> (fst p, t) # pick as ps | None \<Rightarrow> pick as ps)"

fun pickFirst :: "(ndp_option \<Rightarrow> 'a option) \<Rightarrow> opt_ptr list \<Rightarrow> (ptr \<times> 'a) option" where
  "pickFirst as [] = None"
| "pickFirst as (p # ps) =
     (case as (snd p) of Some t \<Rightarrow> Some (fst p, t) | None \<Rightarrow> pickFirst as ps)"


section \<open>Text of addresses\<close>

definition cidrStr :: "addr \<Rightarrow> u8 \<Rightarrow> string" where
  "cidrStr prefix len = pfx_String (PrefixFrom prefix (uint len))"

definition prefixStr :: "prefix_information \<Rightarrow> string" where
  "prefixStr p = cidrStr (pi_Prefix p) (pi_PrefixLength p)"

definition routeStr :: "route_information \<Rightarrow> string" where
  "routeStr r = cidrStr (ri_Prefix r) (ri_PrefixLength r)"

definition ipsStr :: "addr list \<Rightarrow> string" where
  "ipsStr ips = str_join '', '' (map addr_String ips)"

definition hex_byte :: "u8 \<Rightarrow> string" where
  "hex_byte b = [hex_char (unat b div 16), hex_char (unat b mod 16)]"

definition mac_String :: "hwaddr \<Rightarrow> string" where
  "mac_String a = str_join '':'' (map hex_byte a)"

fun sourceLLA :: "opt_ptr list \<Rightarrow> string" where
  "sourceLLA [] = ''unknown''"
| "sourceLLA (p # ps) =
     (case snd p of
        LinkLayerAddressOpt l \<Rightarrow> if ll_Direction l = SourceLL then mac_String (ll_Addr l) else sourceLLA ps
      | _ \<Rightarrow> sourceLLA ps)"


section \<open>Checks\<close>

definition checkDurations :: "duration \<Rightarrow> duration \<Rightarrow> bool" where
  "checkDurations want got = (if want = 0 \<or> got = 0 then True else want = got)"

definition checkRAs :: "router_advertisement \<Rightarrow> router_advertisement \<Rightarrow> problem list outcome" where
  "checkRAs a b =
     bindO (push_when (ra_CurrentHopLimit a \<noteq> ra_CurrentHopLimit b) ''hop_limit'' ''''
              (AnyUint8 (ra_CurrentHopLimit a)) (AnyUint8 (ra_CurrentHopLimit b)) []) (\<lambda>ps.
     bindO (push_when (ra_ManagedConfiguration a \<noteq> ra_ManagedConfiguration b) ''managed_configuration'' ''''
              (AnyBool (ra_ManagedConfiguration a)) (AnyBool (ra_ManagedConfiguration b)) ps) (\<lambda>ps.
     bindO (push_when (ra_OtherConfiguration a \<noteq> ra_OtherConfiguration b) ''other_configuration'' ''''
              (AnyBool (ra_OtherConfiguration a)) (AnyBool (ra_OtherConfiguration b)) ps) (\<lambda>ps.
     bindO (push_when (\<not> checkDurations (ra_ReachableTime a) (ra_ReachableTime b)) ''reachable_time'' ''''
              (AnyDuration (ra_ReachableTime a)) (AnyDuration (ra_ReachableTime b)) ps) (\<lambda>ps.
     push_when (\<not> checkDurations (ra_RetransmitTimer a) (ra_RetransmitTimer b)) ''retransmit_timer'' ''''
              (AnyDuration (ra_RetransmitTimer a)) (AnyDuration (ra_RetransmitTimer b)) ps))))"

text \<open>The comparison is of the pointers, not of the MTUs.\<close>

definition checkMTUs :: "opt_ptr list \<Rightarrow> opt_ptr list \<Rightarrow> problem list outcome" where
  "checkMTUs want got =
     (case (pickFirst as_MTU want, pickFirst as_MTU got) of
        (Some mtuA, Some mtuB) \<Rightarrow>
          if fst mtuA = fst mtuB then Ok []
          else push ''mtu'' '''' (AnyUint32 (snd mtuA)) (AnyUint32 (snd mtuB)) []
      | _ \<Rightarrow> Ok [])"

definition check_prefix_pair ::
  "prefix_information \<Rightarrow> prefix_information \<Rightarrow> problem list \<Rightarrow> problem list outcome" where
  "check_prefix_pair a b ps =
     (if pi_Prefix a \<noteq> pi_Prefix b \<or> pi_PrefixLength a \<noteq> pi_PrefixLength b then Ok ps
      else bindO (push_when (pi_PreferredLifetime a \<noteq> pi_PreferredLifetime b)
                    ''prefix_information_preferred_lifetime'' (prefixStr a)
                    (AnyDuration (pi_PreferredLifetime a)) (AnyDuration (pi_PreferredLifetime b)) ps)
             (push_when (pi_ValidLifetime a \<noteq> pi_ValidLifetime b)
                    ''prefix_information_valid_lifetime'' (prefixStr a)
                    (AnyDuration (pi_ValidLifetime a)) (AnyDuration (pi_ValidLifetime b))))"

definition checkPrefixes :: "opt_ptr list \<Rightarrow> opt_ptr list \<Rightarrow> problem list outcome" where
  "checkPrefixes want got =
     (let piA = pick as_PrefixInformation want; piB = pick as_PrefixInformation got
      in if length piA = 0 \<or> length piB = 0 then Ok []
         else foldO (\<lambda>ps a. foldO (\<lambda>ps b. check_prefix_pair (snd a) (snd b) ps) ps piB) [] piA)"

definition check_route_pair ::
  "route_information \<Rightarrow> route_information \<Rightarrow> problem list \<Rightarrow> problem list outcome" where
  "check_route_pair a b ps =
     (if ri_Prefix a \<noteq> ri_Prefix b \<or> ri_PrefixLength a \<noteq> ri_PrefixLength b then Ok ps
      else push_when (ri_Preference a = ri_Preference b \<and> ri_RouteLifetime a \<noteq> ri_RouteLifetime b)
             ''route_information_lifetime'' (routeStr a)
             (AnyDuration (ri_RouteLifetime a)) (AnyDuration (ri_RouteLifetime b)) ps)"

definition checkRoutes :: "opt_ptr list \<Rightarrow> opt_ptr list \<Rightarrow> problem list outcome" where
  "checkRoutes want got =
     (let riA = pick as_RouteInformation want; riB = pick as_RouteInformation got
      in if length riA = 0 \<or> length riB = 0 then Ok []
         else foldO (\<lambda>ps a. foldO (\<lambda>ps b. check_route_pair (snd a) (snd b) ps) ps riB) [] riA)"

text \<open>The loop that compares two slices of the same length, up to the first difference.\<close>

definition all_equal :: "'a list \<Rightarrow> 'a list \<Rightarrow> bool" where
  "all_equal as bs = list_all (\<lambda>j. as ! j = bs ! j) [0..<length as]"

definition check_rdnss_pair ::
  "recursive_dns_server \<Rightarrow> recursive_dns_server \<Rightarrow> problem list \<Rightarrow> problem list outcome" where
  "check_rdnss_pair a b ps =
     bindO (push_when (rd_Lifetime a \<noteq> rd_Lifetime b) ''rdnss_lifetime'' ''''
              (AnyDuration (rd_Lifetime a)) (AnyDuration (rd_Lifetime b)) ps) (\<lambda>ps.
       if length (rd_Servers a) \<noteq> length (rd_Servers b) then
         push ''rdnss_servers'' '''' (AnyString (ipsStr (rd_Servers a))) (AnyString (ipsStr (rd_Servers b))) ps
       else push_when (\<not> all_equal (rd_Servers a) (rd_Servers b)) ''rdnss_servers'' ''''
              (AnyString (ipsStr (rd_Servers a))) (AnyString (ipsStr (rd_Servers b))) ps)"

definition checkRDNSS :: "opt_ptr list \<Rightarrow> opt_ptr list \<Rightarrow> problem list outcome" where
  "checkRDNSS want got =
     (let dnsA = pick as_RecursiveDNSServer want; dnsB = pick as_RecursiveDNSServer got
      in if length dnsA = 0 \<or> length dnsB = 0 then Ok []
         else if length dnsA \<noteq> length dnsB then
           push ''rdnss_count'' '''' (AnyInt (int (length dnsA))) (AnyInt (int (length dnsB))) []
         else foldO (\<lambda>ps i. check_rdnss_pair (snd (dnsA ! i)) (snd (dnsB ! i)) ps) [] [0..<length dnsA])"

definition join_names :: "string list \<Rightarrow> string" where
  "join_names ss = str_join '', '' ss"

definition check_dnssl_pair ::
  "dns_search_list \<Rightarrow> dns_search_list \<Rightarrow> problem list \<Rightarrow> problem list outcome" where
  "check_dnssl_pair a b ps =
     bindO (push_when (sl_Lifetime a \<noteq> sl_Lifetime b) ''dnssl_lifetime'' ''''
              (AnyDuration (sl_Lifetime a)) (AnyDuration (sl_Lifetime b)) ps) (\<lambda>ps.
       if length (sl_DomainNames a) \<noteq> length (sl_DomainNames b) then
         push ''dnssl_domain_names'' '''' (AnyString (join_names (sl_DomainNames a)))
           (AnyString (join_names (sl_DomainNames b))) ps
       else push_when (\<not> all_equal (sl_DomainNames a) (sl_DomainNames b)) ''dnssl_domain_names'' ''''
              (AnyString (join_names (sl_DomainNames a))) (AnyString (join_names (sl_DomainNames b))) ps)"

definition checkDNSSL :: "opt_ptr list \<Rightarrow> opt_ptr list \<Rightarrow> problem list outcome" where
  "checkDNSSL want got =
     (let dnsA = pick as_DNSSearchList want; dnsB = pick as_DNSSearchList got
      in if length dnsA = 0 \<or> length dnsB = 0 then Ok []
         else if length dnsA \<noteq> length dnsB then
           push ''dnssl_count'' '''' (AnyInt (int (length dnsA))) (AnyInt (int (length dnsB))) []
         else foldO (\<lambda>ps i. check_dnssl_pair (snd (dnsA ! i)) (snd (dnsB ! i)) ps) [] [0..<length dnsA])"

text \<open>As with MTUs, the comparison is of the pointers.\<close>

definition checkCaptivePortal :: "opt_ptr list \<Rightarrow> opt_ptr list \<Rightarrow> problem list outcome" where
  "checkCaptivePortal want got =
     (case (pickFirst as_CaptivePortal want, pickFirst as_CaptivePortal got) of
        (Some cpA, Some cpB) \<Rightarrow>
          if fst cpA = fst cpB then Ok []
          else push ''captive_portal'' '''' (AnyString (snd cpA)) (AnyString (snd cpB)) []
      | _ \<Rightarrow> Ok [])"

definition verifyRAs :: "router_advertisement \<Rightarrow> router_advertisement \<Rightarrow> problem list outcome" where
  "verifyRAs a b =
     bindO (checkRAs a b) (\<lambda>ps.
     bindO (merge (checkMTUs (ra_Options a) (ra_Options b)) ps) (\<lambda>ps.
     bindO (merge (checkPrefixes (ra_Options a) (ra_Options b)) ps) (\<lambda>ps.
     bindO (merge (checkRoutes (ra_Options a) (ra_Options b)) ps) (\<lambda>ps.
     bindO (merge (checkRDNSS (ra_Options a) (ra_Options b)) ps) (\<lambda>ps.
     bindO (merge (checkDNSSL (ra_Options a) (ra_Options b)) ps) (\<lambda>ps.
     merge (checkCaptivePortal (ra_Options a) (ra_Options b)) ps))))))"

end
