(* ===== verification/Plugin_Text.thy ===== *)
theory Plugin_Text
  imports Plugin GoFmt Verify Config_Parse
begin

text \<open>
  The \<open>String\<close> methods of \<open>internal/plugin/plugin.go\<close>.  A wildcard shows what it expands to when that can
  be found out, so these methods ask the operating system, and panic where the expansion does.  The
  names of the route preferences are those of package \<open>ndp\<close>, the parameter \<open>pref\<close>.
\<close>

definition durString :: "ndp_pkg \<Rightarrow> duration \<Rightarrow> string" where
  "durString ndp d = (if d = ndp_Infinity ndp then ''infinite'' else dur_String d)"

text \<open>\<open>if x, err := f(); err == nil { s = g(x) }\<close>.\<close>

fun best_effort :: "'a outcome \<Rightarrow> ('a \<Rightarrow> string) \<Rightarrow> string \<Rightarrow> string outcome" where
  "best_effort (Ok x) g s = Ok (g x)"
| "best_effort (Err e) g s = Ok s"
| "best_effort (Panic p) g s = Panic p"

definition bracketed :: "string list \<Rightarrow> string" where
  "bracketed ss = ''['' @ str_join '', '' ss @ '']''"

definition captive_portal_String :: "captive_portal \<Rightarrow> string outcome" where
  "captive_portal_String cp =
     (case snd (cp_Portal cp) of
        CaptivePortalOpt uri \<Rightarrow> Ok (''URI: '' @ go_quote uri)
      | _ \<Rightarrow> Panic nil_call)"

definition pref64_String :: "pref64 \<Rightarrow> string outcome" where
  "pref64_String p =
     (case snd (pf_Inner p) of
        PREF64Opt o' \<Rightarrow> Ok (pfx_String (p64_Prefix o') @ '', lifetime: '' @ dur_String (p64_Lifetime o'))
      | _ \<Rightarrow> Panic nil_call)"

definition dnssl_String :: "ndp_pkg \<Rightarrow> dnssl_plugin \<Rightarrow> string" where
  "dnssl_String ndp d =
     ''domain names: '' @ bracketed (dl_DomainNames d) @ '', lifetime: '' @ durString ndp (dl_Lifetime d)"

definition lla_String :: "lla_plugin \<Rightarrow> string" where
  "lla_String l =
     ''source link-layer address: '' @ (case la_Addr l of Some a \<Rightarrow> mac_String a | None \<Rightarrow> ''n/a'')"

definition mtu_String :: "int \<Rightarrow> string" where
  "mtu_String m = ''MTU: '' @ show_int m"

definition prefix_String :: "ndp_pkg \<Rightarrow> os \<Rightarrow> prefix_plugin \<Rightarrow> string outcome" where
  "prefix_String ndp os p =
     (let prefix = pfx_String (px_Prefix p)
      in bindO (if px_Auto p then
                  best_effort (prefix_current os p) (\<lambda>ps. prefix @ '' '' @ bracketed (map pfx_String ps)) prefix
                else Ok prefix) (\<lambda>prefix.
         let flags = (if px_Deprecated p then [''DEPRECATED''] else []) @
                     (if px_OnLink p then [''on-link''] else []) @
                     (if px_Autonomous p then [''autonomous''] else [])
         in Ok (prefix @ '' '' @ bracketed flags @
                '', preferred: '' @ durString ndp (px_PreferredLifetime p) @
                '', valid: '' @ durString ndp (px_ValidLifetime p))))"

definition route_String :: "(preference \<Rightarrow> string) \<Rightarrow> ndp_pkg \<Rightarrow> os \<Rightarrow> route_plugin \<Rightarrow> string outcome" where
  "route_String pref ndp os r =
     (let prefix = pfx_String (ro_Prefix r)
      in bindO (if ro_Auto r then
                  best_effort (route_current os r) (\<lambda>ps. prefix @ '' '' @ bracketed (map pfx_String ps)) prefix
                else Ok prefix) (\<lambda>prefix.
         Ok (prefix @ (if ro_Deprecated r then '' [DEPRECATED]'' else []) @
             '', preference: '' @ pref (ro_Preference r) @
             '', lifetime: '' @ durString ndp (ro_Lifetime r))))"

definition rdnss_String :: "ndp_pkg \<Rightarrow> os \<Rightarrow> rdnss_plugin \<Rightarrow> string outcome" where
  "rdnss_String ndp os r =
     bindO (if rs_Auto r then
              bindO (best_effort (rdnss_current os r) (\<lambda>s. '':: '' @ bracketed [addr_String s]) ''::'') (\<lambda>s. Ok [s])
            else Ok []) (\<lambda>servers.
       Ok (''servers: '' @
           bracketed (servers @ map addr_String (filter (\<lambda>s. \<not> IsUnspecified s) (rs_Servers r))) @
           '', lifetime: '' @ durString ndp (rs_Lifetime r)))"

fun plugin_String :: "(preference \<Rightarrow> string) \<Rightarrow> ndp_pkg \<Rightarrow> os \<Rightarrow> plugin \<Rightarrow> string outcome" where
  "plugin_String pref ndp os (CaptivePortalP c) = captive_portal_String c"
| "plugin_String pref ndp os (PREF64P p) = pref64_String p"
| "plugin_String pref ndp os (DNSSLP d) = Ok (dnssl_String ndp d)"
| "plugin_String pref ndp os (LLAP l) = Ok (lla_String l)"
| "plugin_String pref ndp os (MTUP m) = Ok (mtu_String m)"
| "plugin_String pref ndp os (PrefixP p) = prefix_String ndp os p"
| "plugin_String pref ndp os (RouteP r) = route_String pref ndp os r"
| "plugin_String pref ndp os (RDNSSP r) = rdnss_String ndp os r"


section \<open>Facts\<close>

text \<open>A printed lifetime is not one of the special values of the configuration file.\<close>

lemma dur_String_special: "dur_String d \<noteq> ''infinite''" "dur_String d \<noteq> ''auto''" "dur_String d \<noteq> []"
proof -
  obtain c cs where c: "magnitude_text (nat \<bar>d\<bar>) = c # cs" "is_digit c" using magnitude_text_head by blast
  show "dur_String d \<noteq> ''infinite''" "dur_String d \<noteq> ''auto''" "dur_String d \<noteq> []"
    using c by (auto simp: dur_String_magnitude is_digit_def)
qed

lemma best_effort_Ok: "\<not> is_Panic m \<Longrightarrow> \<exists>t. best_effort m g s = Ok t \<and> (t = s \<or> (\<exists>x. m = Ok x \<and> t = g x))"
  by (cases m) auto

lemma best_effort_Panic [simp]: "is_Panic (best_effort m g s) \<longleftrightarrow> is_Panic m"
  by (cases m) auto

lemma best_effort_not_Err [simp]: "best_effort m g s \<noteq> Err e"
  by (cases m) auto

lemma prefix_String_panics:
  "is_Panic (prefix_String ndp os p) \<longleftrightarrow> px_Auto p \<and> is_Panic (prefix_current os p)"
  by (auto simp: prefix_String_def Let_def bindO_Panic_iff)

lemma route_String_panics:
  "is_Panic (route_String pref ndp os r) \<longleftrightarrow> ro_Auto r \<and> is_Panic (route_current os r)"
  by (auto simp: route_String_def Let_def bindO_Panic_iff)

lemma rdnss_String_panics:
  "is_Panic (rdnss_String ndp os r) \<longleftrightarrow> rs_Auto r \<and> is_Panic (rdnss_current os r)"
  by (auto simp: rdnss_String_def Let_def bindO_Panic_iff)

end
