(* ===== verification/Config_Properties.thy ===== *)
theory Config_Properties
  imports Config_Invariant Examples Plugin_Text
begin

text \<open>
  The properties of the configuration: what a file that parses guarantees, and what the advertisement
  generated from it contains.
\<close>

section \<open>Generated advertisements\<close>

text \<open>
  An advertisement carries the configured header fields and exactly the options of the interface's
  plugins, in the order of the plugins; whatever their order of allocation.
\<close>

theorem advertisement_contents:
  assumes "RouterAdvertisement_of os ifi forwarding h = Ok (ra, ms, h')"
  shows "ra_header ra = ra_header ((base_ra ifi)\<lparr>ra_RouterLifetime := effective_lifetime ifi forwarding\<rparr>) \<and>
    (\<exists>optss. mapO (plugin_options os) (ci_Plugins ifi) = Ok optss \<and> map snd (ra_Options ra) = concat optss)"
  using RouterAdvertisement_facts(1,3)[OF assms] by blast

definition demo_interface :: interface_config where
  "demo_interface =
     \<lparr>ci_Name = ''eth0'', ci_Monitor = False, ci_Advertise = True, ci_Verbose = False,
      ci_MinInterval = 200 * Second, ci_MaxInterval = 600 * Second, ci_Managed = False,
      ci_OtherConfig = True, ci_ReachableTime = 0, ci_RetransmitTimer = 0, ci_HopLimit = 64,
      ci_DefaultLifetime = 1800 * Second, ci_UnicastOnly = False, ci_Preference = PrefMedium,
      ci_Plugins = [MTUP 1500, PrefixP (auto64\<lparr>px_Deprecated := False\<rparr>)]\<rparr>"

definition demo_prefix :: "ipprefix \<Rightarrow> ndp_option" where
  "demo_prefix p = prefix_option auto64 (24 * Hour) (4 * Hour) p"

definition demo_ra :: "duration \<Rightarrow> ptr \<Rightarrow> router_advertisement" where
  "demo_ra lifetime h = (base_ra demo_interface)\<lparr>ra_RouterLifetime := lifetime,
     ra_Options := [(h, MTUOpt 1500), (Suc h, demo_prefix net0), (Suc (Suc h), demo_prefix net1)]\<rparr>"

lemma demo_prefix_current:
  "prefix_current (host host_addrs now) (auto64\<lparr>px_Deprecated := False\<rparr>) = Ok [net0, net1]"
  using host_prefix_current[of now] by (simp add: prefix_current_def auto64_def)

lemma demo_generated:
  "RouterAdvertisement_of (host host_addrs now) demo_interface True h = Ok (demo_ra (1800 * Second) h, [], h + 3)"
  "RouterAdvertisement_of (host host_addrs now) demo_interface False h =
     Ok (demo_ra 0 h, [InterfaceNotForwarding], h + 3)"
  by (simp_all add: RouterAdvertisement_of_def apply_plugins_def demo_interface_def mtu_Apply_def push_new_def
      base_ra_def append_opt_def prefix_Apply_def demo_prefix_current prefix_apply_list_def
      prefix_lifetimes_def demo_ra_def demo_prefix_def prefix_option_def auto64_def[of] eval_nat_numeral
      demo_prefix_current[unfolded auto64_def, simplified])

theorem advertisement_contents_witness:
  "ra_header (demo_ra 0 7) = ra_header ((base_ra demo_interface)\<lparr>ra_RouterLifetime := effective_lifetime demo_interface False\<rparr>) \<and>
    (\<exists>optss. mapO (plugin_options (host host_addrs 5)) (ci_Plugins demo_interface) = Ok optss \<and>
      map snd (ra_Options (demo_ra 0 7)) = concat optss)"
  by (rule advertisement_contents[OF demo_generated(2)])

text \<open>
  C4: a router that does not forward never advertises itself as a default router, and exactly then
  reports the misconfiguration if it was configured to be one.
\<close>

theorem no_default_route_without_forwarding:
  assumes "RouterAdvertisement_of os ifi forwarding h = Ok (ra, ms, h')" and "0 \<le> ci_DefaultLifetime ifi"
  shows "(ra_RouterLifetime ra \<noteq> 0 \<longleftrightarrow> forwarding \<and> ci_DefaultLifetime ifi \<noteq> 0) \<and>
    (forwarding \<longrightarrow> ra_RouterLifetime ra = ci_DefaultLifetime ifi) \<and>
    (ms = [InterfaceNotForwarding] \<longleftrightarrow> \<not> forwarding \<and> ci_DefaultLifetime ifi \<noteq> 0) \<and>
    (ms = [] \<or> ms = [InterfaceNotForwarding])"
proof -
  have "ra_RouterLifetime ra = effective_lifetime ifi forwarding"
    using ra_header_lifetime[OF RouterAdvertisement_facts(1)[OF assms(1)]] by simp
  then show ?thesis
    using RouterAdvertisement_facts(2)[OF assms(1)] assms(2)
    by (auto simp: effective_lifetime_def reports_misconfiguration_def)
qed

theorem no_default_route_without_forwarding_witness:
  "ra_RouterLifetime (demo_ra 0 7) = 0 \<and> ra_RouterLifetime (demo_ra (1800 * Second) 7) = ci_DefaultLifetime demo_interface"
  using no_default_route_without_forwarding[OF demo_generated(2)[of 5 7]]
    no_default_route_without_forwarding[OF demo_generated(1)[of 5 7]]
  by (simp add: demo_interface_def)

section \<open>Parsing\<close>

definition demo_ndp :: ndp_pkg where
  "demo_ndp = \<lparr>ndp_Infinity = 0xffffffff * Second, ndp_HopLimit = 255,
     ndp_Unrestricted = ''urn:ietf:params:capport:unrestricted'', ndp_NewCaptivePortal = Ok\<rparr>"

definition demo_raw_prefix :: "string \<Rightarrow> raw_prefix" where
  "demo_raw_prefix s =
     \<lparr>rwp_Prefix = s, rwp_OnLink = None, rwp_Autonomous = None, rwp_ValidLifetime = None,
      rwp_PreferredLifetime = Some ''30m'', rwp_Deprecated = False\<rparr>"

definition demo_raw :: "string list \<Rightarrow> raw_interface" where
  "demo_raw names =
     \<lparr>rwi_Name = '''', rwi_Names = names, rwi_Monitor = False, rwi_Advertise = True, rwi_Verbose = False,
      rwi_MaxInterval = '''', rwi_MinInterval = '''', rwi_Managed = False, rwi_OtherConfig = True,
      rwi_ReachableTime = '''', rwi_RetransmitTimer = '''', rwi_HopLimit = None, rwi_DefaultLifetime = None,
      rwi_UnicastOnly = False, rwi_Preference = '''',
      rwi_Prefixes = [demo_raw_prefix ''''], rwi_Routes = [],
      rwi_RDNSS = [\<lparr>rws_Lifetime = None, rws_Servers = []\<rparr>],
      rwi_DNSSL = [], rwi_PREF64 = [], rwi_MTU = 1500,
      rwi_SourceLLA = None, rwi_CaptivePortal = ''''\<rparr>"

definition demo_file :: raw_file where
  "demo_file = \<lparr>file_Interfaces = [demo_raw [''eth0'', ''eth1''], demo_raw [''eth2'']], file_Debug = zero_debug\<rparr>"

definition demo_config :: "config \<times> ptr" where
  "demo_config = (case Parse demo_ndp (\<lambda>_. Ok ()) (Ok demo_file) 1 5 of Ok r \<Rightarrow> r | _ \<Rightarrow> undefined)"

lemma demo_parse_Ok: "is_Ok (Parse demo_ndp (\<lambda>_. Ok ()) (Ok demo_file) 1 5)"
  by code_simp

lemma demo_parse: "Parse demo_ndp (\<lambda>_. Ok ()) (Ok demo_file) 1 5 = Ok (fst demo_config, snd demo_config)"
  using demo_parse_Ok by (auto simp: demo_config_def is_Ok_iff)

text \<open>
  C2: every interface of a configuration that parses is well-formed: its intervals, timers and
  lifetimes are in the ranges the program promises, its preference is a named one, its plugins are
  well-formed with prefixes and routes that do not overlap; and no two interfaces share a name.
\<close>

theorem parsed_configuration:
  assumes "Parse ndp resolve decoded epoch h = Ok (cfg, h')"
  shows "(\<forall>c \<in> set (cfg_Interfaces cfg). interface_wf ndp epoch c) \<and> distinct (map ci_Name (cfg_Interfaces cfg))"
  using Parse_ok[OF assms] by (auto simp: interface_ok_def)

lemma demo_config_interfaces: "map ci_Name (cfg_Interfaces (fst demo_config)) = [''eth0'', ''eth1'', ''eth2'']"
  by code_simp

theorem parsed_configuration_witness:
  "interface_wf demo_ndp 1 (hd (cfg_Interfaces (fst demo_config))) \<and>
    distinct (map ci_Name (cfg_Interfaces (fst demo_config)))"
proof -
  have "cfg_Interfaces (fst demo_config) \<noteq> []" using demo_config_interfaces by auto
  then show ?thesis using parsed_configuration[OF demo_parse] by simp
qed

text \<open>
  Every name listed in the file becomes exactly one interface, in the order of the file.
\<close>

theorem parsed_names:
  assumes "Parse ndp resolve decoded epoch h = Ok (cfg, h')"
  shows "\<exists>f nss. decoded = Ok f \<and> mapO interface_names (file_Interfaces f) = Ok nss \<and>
    map ci_Name (cfg_Interfaces cfg) = concat nss"
  by (rule Parse_names[OF assms])

theorem parsed_names_witness:
  "\<exists>f nss. Ok demo_file = Ok f \<and> mapO interface_names (file_Interfaces f) = Ok nss \<and>
    map ci_Name (cfg_Interfaces (fst demo_config)) = concat nss"
  by (rule parsed_names[OF demo_parse])

text \<open>
  C23: parsing never panics, whatever the file holds: every key that may be missing is checked before its
  pointer is followed, in whatever combination the keys are set.  The decoder, the address resolver
  and the captive portal constructor are assumed not to panic themselves.
\<close>

theorem parse_total:
  assumes "portal_safe ndp" and "\<not> is_Panic decoded" and "\<forall>a. \<not> is_Panic (resolve a)"
  shows "\<not> is_Panic (Parse ndp resolve decoded epoch h)"
  by (rule Parse_no_panic[OF assms])

theorem parse_total_witness:
  "\<not> is_Panic (Parse demo_ndp (\<lambda>_. Err (Msg ''no such host'')) (Ok demo_file) 1 5)"
  by (rule parse_total) (simp_all add: portal_safe_def demo_ndp_def)

text \<open>
  The configured prefixes of an interface are canonical IPv6 prefixes, and two different entries
  never share an address.
\<close>

theorem parsed_prefixes_disjoint:
  assumes "parsePlugins ndp ifi mx epoch h = Ok (ps, h')" and "4 * Second \<le> mx" and "mx \<le> 1800 * Second"
    and "i < length (prefixes_in ps)" and "j < length (prefixes_in ps)" and "i \<noteq> j"
  shows "pfx_set (px_Prefix (prefixes_in ps ! i)) \<inter> pfx_set (px_Prefix (prefixes_in ps ! j)) = {} \<and>
    pfx_Masked (px_Prefix (prefixes_in ps ! i)) = px_Prefix (prefixes_in ps ! i)"
proof -
  have wf: "plugins_wf ndp epoch ps" using parsePlugins_ok[OF assms(1-3)] by blast
  have mem: "p \<in> set (prefixes_in qs) \<Longrightarrow> PrefixP p \<in> set qs" for p qs
    by (induction qs rule: prefixes_in.induct) auto
  have "prefixes_in ps ! i \<in> set (prefixes_in ps)" using assms(4) by simp
  then have "prefix_wf ndp epoch (prefixes_in ps ! i)"
    using wf mem by (fastforce simp: plugins_wf_def)
  then show ?thesis
    using wf assms(4-6) by (simp add: plugins_wf_def prefixes_disjoint_def pairwise_at_def prefix_wf_def)
qed

definition two_prefixes :: raw_interface where
  "two_prefixes = (demo_raw [''eth0''])\<lparr>rwi_Prefixes := [demo_raw_prefix ''f::/16'', demo_raw_prefix ''e::/16'']\<rparr>"

definition two_plugins :: "plugin list \<times> ptr" where
  "two_plugins = (case parsePlugins demo_ndp two_prefixes (600 * Second) 1 5 of Ok r \<Rightarrow> r | _ \<Rightarrow> undefined)"

lemma two_prefixes_Ok:
  "(case parsePlugins demo_ndp two_prefixes (600 * Second) 1 5 of
      Ok (ps, h) \<Rightarrow> length (prefixes_in ps) = 2 | _ \<Rightarrow> False)"
  by code_simp

lemma two_prefixes_parse:
  "parsePlugins demo_ndp two_prefixes (600 * Second) 1 5 = Ok (fst two_plugins, snd two_plugins)"
  "length (prefixes_in (fst two_plugins)) = 2"
  using two_prefixes_Ok by (auto simp: two_plugins_def split: outcome.splits prod.splits)

theorem parsed_prefixes_disjoint_witness:
  "pfx_set (px_Prefix (prefixes_in (fst two_plugins) ! 0)) \<inter> pfx_set (px_Prefix (prefixes_in (fst two_plugins) ! 1)) = {} \<and>
    pfx_Masked (px_Prefix (prefixes_in (fst two_plugins) ! 0)) = px_Prefix (prefixes_in (fst two_plugins) ! 0)"
  by (rule parsed_prefixes_disjoint[OF two_prefixes_parse(1)]) (simp_all add: two_prefixes_parse(2))

text \<open>
  A parsed RDNSS plugin holds exactly the configured servers that are not the wildcard, sorted and
  without repetition, all of them plain IPv6, and is automatic exactly when the wildcard or nothing was
  configured.
\<close>

theorem parsed_rdnss:
  assumes "parseRDNSS ndp raw mx = Ok r"
  shows "rdnss_wf r \<and> (\<exists>as. mapO ParseAddr (rws_Servers raw) = Ok as \<and> rdnss_of as r)"
  by (rule parseRDNSS_facts[OF assms])

lemma demo_rdnss:
  "parseRDNSS demo_ndp \<lparr>rws_Lifetime = None, rws_Servers = [''f::1'', ''::'']\<rparr> (600 * Second) =
     Ok \<lparr>rs_Auto = True, rs_Lifetime = 1800 * Second, rs_Servers = [Addr6 0x000f0000000000000000000000000001 []],
        rs_Addrs = None\<rparr>"
  by code_simp

theorem parsed_rdnss_witness:
  "rdnss_wf \<lparr>rs_Auto = True, rs_Lifetime = 1800 * Second, rs_Servers = [Addr6 0x000f0000000000000000000000000001 []],
     rs_Addrs = None\<rparr> \<and>
    (\<exists>as. mapO ParseAddr [''f::1'', ''::''] = Ok as \<and>
      rdnss_of as \<lparr>rs_Auto = True, rs_Lifetime = 1800 * Second,
        rs_Servers = [Addr6 0x000f0000000000000000000000000001 []], rs_Addrs = None\<rparr>)"
  using parsed_rdnss[OF demo_rdnss] by simp

text \<open>
  The default minimum interval can be shorter than the smallest value the configuration accepts
  from a user: with a maximum of nine seconds the default is two, which is rejected when written out.
\<close>

theorem default_min_interval_below_limit:
  "parseMinInterval ''auto'' (9 * Second) = Ok (2 * Second) \<and> \<not> is_Ok (parseMinInterval ''2s'' (9 * Second))"
  by code_simp

text \<open>
  C34: every lifetime the plugins print, the infinite one included, can be written into the configuration
  file and gives the same lifetime, to the nanosecond.
\<close>

theorem printed_lifetime_parses:
  assumes "in_int64 d"
  shows "parseDuration ndp (Some (durString ndp d)) def = Ok d"
  using ParseDuration_dur_String[OF assms] dur_String_special[of d] by (simp add: parseDuration_def durString_def)

lemma printed_lifetime: "durString demo_ndp 90061500000000 = ''25h1m1.5s''"
proof -
  have digits: "char_of (48 :: nat) = CHR ''0''" "char_of (49 :: nat) = CHR ''1''" "char_of (50 :: nat) = CHR ''2''"
    "char_of (53 :: nat) = CHR ''5''"
    by code_simp+
  have pad: "pad_dec 9 500000000 = ''500000000''" by (simp add: pad_dec_numeral digits)
  show ?thesis
    by (simp add: durString_def demo_ndp_def dur_String_def Let_def fmt_frac_def pad show_dec.simps digits)
qed

theorem printed_lifetime_parses_witness: "parseDuration demo_ndp (Some ''25h1m1.5s'') 0 = Ok 90061500000000"
  using printed_lifetime_parses[of 90061500000000 demo_ndp 0, unfolded printed_lifetime]
  by (simp add: in_int64_def min_int64_def max_int64_def)

text \<open>
  Only zero is refused as a lifetime: a negative one in the file is accepted and advertised as it is.
\<close>

lemma negative_lifetime_accepted:
  assumes "in_int64 d" and "d < 0"
  shows "\<exists>r. parseRoute ndp \<lparr>rwr_Prefix = '''', rwr_Preference = '''', rwr_Lifetime = Some (durString ndp d),
      rwr_Deprecated = False\<rparr> epoch = Ok r \<and> route_lifetime os r = Ok d"
proof -
  have "parseDuration ndp (Some (durString ndp d)) (24 * Hour) = Ok d"
    using ParseDuration_dur_String[OF assms(1)] dur_String_special[of d] by (simp add: parseDuration_def durString_def)
  then show ?thesis
    using assms(2) by (simp add: parseRoute_def parseIPPrefix_def pfx_zero_def pfx_IsValid_def parsePreference_def
        route_lifetime_def Let_def autoRoute_def)
qed

end
