(* ===== verification/SysState.thy ===== *)
theory SysState
  imports Prelude
begin

text \<open>
  \<open>internal/system/state.go\<close> and \<open>interface_linux.go\<close>: the IPv6 parameters of an interface.  The Go
  interface \<open>State\<close> is the record \<open>state_ops\<close>, over a type \<open>'w\<close> of system states; \<open>systemState\<close> on
  Linux reads and writes sysctl files, and \<open>TestState\<close> answers from fixed settings.  The locale
  \<open>state_laws\<close> is what the dialer relies on; it is interpreted on the Linux implementation.
\<close>

record 'w state_ops =
  st_IPv6Autoconf :: "'w \<Rightarrow> string \<Rightarrow> bool outcome"
  st_IPv6Forwarding :: "'w \<Rightarrow> string \<Rightarrow> bool outcome"
  st_SetIPv6Autoconf :: "'w \<Rightarrow> string \<Rightarrow> bool \<Rightarrow> unit outcome \<times> 'w"


section \<open>Linux\<close>

text \<open>
  The sysctl files: each path is missing (\<open>None\<close>) or holds a boolean, and reading or writing it may be
  refused with an error number.  A read gives the digit and a newline; a write takes the digit.
\<close>

record sysctl_file =
  sf_Value :: bool
  sf_ReadErr :: "errno option"
  sf_WriteErr :: "errno option"

type_synonym procfs = "string \<Rightarrow> sysctl_file option"

definition ReadFile :: "procfs \<Rightarrow> string \<Rightarrow> string outcome" where
  "ReadFile w path =
     (case w path of
        None \<Rightarrow> Err (PathError path (Errno ENOENT))
      | Some f \<Rightarrow>
          (case sf_ReadErr f of
             Some e \<Rightarrow> Err (PathError path (Errno e))
           | None \<Rightarrow> Ok (if sf_Value f then ''1'' @ [CHR 0x0A] else ''0'' @ [CHR 0x0A])))"

definition WriteFile :: "procfs \<Rightarrow> string \<Rightarrow> string \<Rightarrow> unit outcome \<times> procfs" where
  "WriteFile w path data =
     (case w path of
        None \<Rightarrow> (Err (PathError path (Errno ENOENT)), w)
      | Some f \<Rightarrow>
          (case sf_WriteErr f of
             Some e \<Rightarrow> (Err (PathError path (Errno e)), w)
           | None \<Rightarrow> (Ok (), w(path \<mapsto> f\<lparr>sf_Value := (data = ''1'')\<rparr>))))"

definition sysctlBool :: "procfs \<Rightarrow> string \<Rightarrow> bool outcome" where
  "sysctlBool w file = bindO (ReadFile w file) (\<lambda>out. Ok (out = ''1'' @ [CHR 0x0A]))"

text \<open>\<open>filepath.Join\<close> of two clean, non-empty elements.\<close>

definition sysctl :: "string \<Rightarrow> string \<Rightarrow> string" where
  "sysctl iface key = (''/proc/sys/net/ipv6/conf/'' @ iface) @ ''/'' @ key"

definition sysctlEnable :: "procfs \<Rightarrow> string \<Rightarrow> string \<Rightarrow> bool \<Rightarrow> unit outcome \<times> procfs" where
  "sysctlEnable w iface key enable = WriteFile w (sysctl iface key) (if enable then ''1'' else ''0'')"

definition setIPv6Autoconf :: "procfs \<Rightarrow> string \<Rightarrow> bool \<Rightarrow> unit outcome \<times> procfs" where
  "setIPv6Autoconf w iface enable = sysctlEnable w iface ''autoconf'' enable"

definition getIPv6Autoconf :: "procfs \<Rightarrow> string \<Rightarrow> bool outcome" where
  "getIPv6Autoconf w iface = sysctlBool w (sysctl iface ''autoconf'')"

definition getIPv6Forwarding :: "procfs \<Rightarrow> string \<Rightarrow> bool outcome" where
  "getIPv6Forwarding w iface = sysctlBool w (sysctl iface ''forwarding'')"

definition systemState :: "procfs state_ops" where
  "systemState =
     \<lparr>st_IPv6Autoconf = getIPv6Autoconf, st_IPv6Forwarding = getIPv6Forwarding,
      st_SetIPv6Autoconf = setIPv6Autoconf\<rparr>"


section \<open>Fixed settings\<close>

record test_state_interface =
  tsi_Autoconf :: bool
  tsi_Forwarding :: bool

record test_state =
  ts_Autoconf :: bool
  ts_Forwarding :: bool
  ts_Error :: "go_error option"
  ts_Interfaces :: "string \<Rightarrow> test_state_interface option"

definition with_error :: "go_error option \<Rightarrow> 'a \<Rightarrow> 'a outcome" where
  "with_error e x = (case e of None \<Rightarrow> Ok x | Some err \<Rightarrow> Err err)"

definition test_IPv6Autoconf :: "test_state \<Rightarrow> string \<Rightarrow> bool outcome" where
  "test_IPv6Autoconf ts iface =
     (case ts_Interfaces ts iface of
        Some tsi \<Rightarrow> with_error (ts_Error ts) (tsi_Autoconf tsi)
      | None \<Rightarrow> with_error (ts_Error ts) (ts_Autoconf ts))"

definition test_IPv6Forwarding :: "test_state \<Rightarrow> string \<Rightarrow> bool outcome" where
  "test_IPv6Forwarding ts iface =
     (case ts_Interfaces ts iface of
        Some tsi \<Rightarrow> with_error (ts_Error ts) (tsi_Forwarding tsi)
      | None \<Rightarrow> with_error (ts_Error ts) (ts_Forwarding ts))"

definition test_SetIPv6Autoconf :: "test_state \<Rightarrow> string \<Rightarrow> bool \<Rightarrow> unit outcome \<times> test_state" where
  "test_SetIPv6Autoconf ts iface enable = (with_error (ts_Error ts) (), ts)"

definition TestState :: "test_state state_ops" where
  "TestState =
     \<lparr>st_IPv6Autoconf = test_IPv6Autoconf, st_IPv6Forwarding = test_IPv6Forwarding,
      st_SetIPv6Autoconf = test_SetIPv6Autoconf\<rparr>"


section \<open>The contract\<close>

text \<open>
  Setting the autoconfiguration of an interface either takes effect or changes nothing, and leaves the
  other interfaces and the forwarding state alone.  It succeeds while the interface is \<open>writable\<close>.
\<close>

locale state_laws =
  fixes ops :: "'w state_ops"
    and writable :: "'w \<Rightarrow> string \<Rightarrow> bool"
  assumes set_get: "st_SetIPv6Autoconf ops w i b = (Ok (), w') \<Longrightarrow>
      st_IPv6Autoconf ops w i = Ok p \<Longrightarrow> st_IPv6Autoconf ops w' i = Ok b"
    and set_error: "st_SetIPv6Autoconf ops w i b = (Err e, w') \<Longrightarrow> w' = w"
    and set_other: "st_SetIPv6Autoconf ops w i b = (r, w') \<Longrightarrow> j \<noteq> i \<Longrightarrow>
      st_IPv6Autoconf ops w' j = st_IPv6Autoconf ops w j"
    and set_forwarding: "st_SetIPv6Autoconf ops w i b = (r, w') \<Longrightarrow>
      st_IPv6Forwarding ops w' j = st_IPv6Forwarding ops w j"
    and set_no_panic: "st_SetIPv6Autoconf ops w i b = (r, w') \<Longrightarrow> \<not> is_Panic r"
    and get_no_panic: "\<not> is_Panic (st_IPv6Autoconf ops w i)"
    and writable_get: "writable w i \<Longrightarrow> is_Ok (st_IPv6Autoconf ops w i)"
    and writable_set: "writable w i \<Longrightarrow> st_SetIPv6Autoconf ops w i b = (r, w') \<Longrightarrow>
      r = Ok () \<and> writable w' i"
begin

text \<open>Disabling and restoring leaves every interface as it was, when both writes succeed.\<close>

lemma set_restore:
  assumes "st_IPv6Autoconf ops w i = Ok prev"
    and "st_SetIPv6Autoconf ops w i b = (Ok (), w1)"
    and "st_SetIPv6Autoconf ops w1 i prev = (Ok (), w2)"
  shows "st_IPv6Autoconf ops w2 j = st_IPv6Autoconf ops w j"
proof (cases "j = i")
  case True
  have "st_IPv6Autoconf ops w1 i = Ok b" using set_get[OF assms(2,1)] .
  then show ?thesis using set_get[OF assms(3)] assms(1) True by simp
next
  case False
  then show ?thesis using set_other[OF assms(2)] set_other[OF assms(3)] by simp
qed

end

lemma sysctl_inj [simp]: "sysctl i k = sysctl j k \<longleftrightarrow> i = j"
  by (simp add: sysctl_def)

lemma sysctl_keys [simp]: "sysctl i ''autoconf'' \<noteq> sysctl j ''forwarding''"
proof
  assume "sysctl i ''autoconf'' = sysctl j ''forwarding''"
  then have "last (sysctl i ''autoconf'') = last (sysctl j ''forwarding'')" by simp
  then show False by (simp add: sysctl_def)
qed

lemmas sysctl_keys' [simp] = sysctl_keys[symmetric]

definition system_writable :: "procfs \<Rightarrow> string \<Rightarrow> bool" where
  "system_writable w iface \<longleftrightarrow>
     (case w (sysctl iface ''autoconf'') of
        None \<Rightarrow> False
      | Some f \<Rightarrow> sf_ReadErr f = None \<and> sf_WriteErr f = None)"

interpretation system: state_laws systemState system_writable
  by unfold_locales
    (auto simp: systemState_def setIPv6Autoconf_def getIPv6Autoconf_def getIPv6Forwarding_def
      sysctlEnable_def sysctlBool_def WriteFile_def ReadFile_def system_writable_def bindO_Ok_iff bindO_Panic_iff
      split: option.splits if_splits)

end
