(* ===== verification/Dialer.thy ===== *)
theory Dialer
  imports SysState Addresser
begin

text \<open>
  \<open>internal/system/dialer.go\<close> and \<open>conn.go\<close>: preparing an interface for NDP traffic, with retries, and
  undoing it afterwards.  What the operating system and package \<open>ndp\<close> answer to the \<open>k\<close>-th dial is the
  record \<open>dial_env\<close> at \<open>k\<close>.  The state a dialer changes is the system state, the set of open NDP
  connections, the number of dials so far and the time it waited.  The facts are in \<open>Dialer_Facts\<close>.
\<close>

section \<open>Checking an interface\<close>

definition isNoSuchInterface :: "go_error \<Rightarrow> bool" where
  "isNoSuchInterface err =
     (case as_op_error err of
        None \<Rightarrow> False
      | Some (op, net, e) \<Rightarrow> op = ''route'' \<and> net = ''ip+net'' \<and> e = Msg ''no such network interface'')"

text \<open>The argument is what \<open>net.InterfaceByName\<close> returned.\<close>

definition lookupInterface :: "net_interface outcome \<Rightarrow> net_interface outcome" where
  "lookupInterface r =
     (case r of
        Err err \<Rightarrow>
          if isNoSuchInterface err then Err (FmtW ''interface %q does not exist: %w'' (Sentinel ErrLinkNotReady))
          else Err (FmtV ''failed to get interface %q: %v'' err)
      | _ \<Rightarrow> r)"

fun has_link_local :: "net_addr list \<Rightarrow> bool" where
  "has_link_local [] = False"
| "has_link_local (OtherNetAddr # as) = has_link_local as"
| "has_link_local (IPNet bs ones # as) =
     (case AddrFromSlice bs of
        Some ip \<Rightarrow> if Is6 ip \<and> IsLinkLocalUnicast ip then True else has_link_local as
      | None \<Rightarrow> has_link_local as)"

definition checkInterface :: "net_interface \<Rightarrow> net_addr list outcome \<Rightarrow> unit outcome" where
  "checkInterface ifi addrs =
     (if \<not> if_Up ifi then Err (FmtW ''interface %q is not up: %w'' (Sentinel ErrLinkNotReady))
      else bindO (wrapErr (FmtW ''failed to get interface %q addresses: %w'') addrs) (\<lambda>as.
        if \<not> has_link_local as then
          Err (FmtW ''interface %q has no IPv6 link-local address: %w'' (Sentinel ErrLinkNotReady))
        else Ok ()))"


section \<open>Dialing\<close>

datatype dialer_mode = Advertise | Monitor

record dialer =
  d_iface :: string
  d_mode :: dialer_mode

text \<open>The modes are integers in Go, of which two are named.\<close>

definition mode_Advertise :: int where "mode_Advertise = 1"
definition mode_Monitor :: int where "mode_Monitor = 2"

definition NewDialer :: "string \<Rightarrow> int \<Rightarrow> dialer outcome" where
  "NewDialer iface mode =
     (if mode = mode_Advertise then Ok \<lparr>d_iface = iface, d_mode = Advertise\<rparr>
      else if mode = mode_Monitor then Ok \<lparr>d_iface = iface, d_mode = Monitor\<rparr>
      else Panic ''system: invalid DialerMode: %d'')"

lemma NewDialer_modes [simp]:
  "NewDialer iface mode_Advertise = Ok \<lparr>d_iface = iface, d_mode = Advertise\<rparr>"
  "NewDialer iface mode_Monitor = Ok \<lparr>d_iface = iface, d_mode = Monitor\<rparr>"
  by (simp_all add: NewDialer_def mode_Advertise_def mode_Monitor_def)

record dial_env =
  de_Ctx :: "go_error option"
  de_InterfaceByName :: "net_interface outcome"
  de_Addrs :: "net_addr list outcome"
  de_Listen :: "addr outcome"
  de_SetICMPFilter :: "unit outcome"
  de_SetControlMessage :: "unit outcome"
  de_JoinGroup :: "unit outcome"

record 'w dialer_state =
  ds_Sys :: 'w
  ds_Conns :: "nat set"
  ds_Dials :: nat
  ds_Waited :: duration

text \<open>\<open>dc_Restore\<close> is the closure of \<open>setAutoconf\<close>, by the previous value it captured.\<close>

record dial_context =
  dc_Conn :: nat
  dc_Interface :: net_interface
  dc_IP :: addr
  dc_Restore :: "bool option"

text \<open>A connection is named by the dial that opened it.\<close>

definition dialNDP :: "dial_env \<Rightarrow> nat \<Rightarrow> 'w dialer_state \<Rightarrow> (nat \<times> addr) outcome \<times> 'w dialer_state" where
  "dialNDP e k ds =
     (case de_Listen e of
        Err err \<Rightarrow> (Err err, ds)
      | Panic p \<Rightarrow> (Panic p, ds)
      | Ok ip \<Rightarrow>
          (bindO (wrapErr (FmtV ''failed to apply ICMPv6 filter: %v'') (de_SetICMPFilter e)) (\<lambda>_.
           bindO (wrapErr (FmtV ''failed to apply IPv6 control message flags: %v'') (de_SetControlMessage e)) (\<lambda>_.
           bindO (wrapErr (FmtV ''failed to join IPv6 link-local all routers multicast group: %v'')
                    (de_JoinGroup e)) (\<lambda>_. Ok (k, ip)))),
           ds\<lparr>ds_Conns := insert k (ds_Conns ds)\<rparr>))"

definition setAutoconf ::
  "'w state_ops \<Rightarrow> dialer \<Rightarrow> 'w dialer_state \<Rightarrow> bool outcome \<times> 'w dialer_state" where
  "setAutoconf st d ds =
     (case wrapErr (FmtV ''failed to get IPv6 autoconfiguration state on %q: %v'')
             (st_IPv6Autoconf st (ds_Sys ds) (d_iface d)) of
        Err err \<Rightarrow> (Err err, ds)
      | Panic p \<Rightarrow> (Panic p, ds)
      | Ok prev \<Rightarrow>
          (case st_SetIPv6Autoconf st (ds_Sys ds) (d_iface d) False of
             (r, w) \<Rightarrow>
               ((case r of
                   Ok _ \<Rightarrow> Ok prev
                 | Panic p \<Rightarrow> Panic p
                 | Err err \<Rightarrow>
                     if errors_is err OsErrPermission then Ok prev
                     else Err (FmtV ''failed to disable IPv6 autoconfiguration on %q: %v'' err)),
                ds\<lparr>ds_Sys := w\<rparr>)))"

definition restore ::
  "'w state_ops \<Rightarrow> dialer \<Rightarrow> bool \<Rightarrow> 'w dialer_state \<Rightarrow> unit outcome \<times> 'w dialer_state" where
  "restore st d prev ds =
     (case st_SetIPv6Autoconf st (ds_Sys ds) (d_iface d) prev of
        (r, w) \<Rightarrow>
          ((case r of
              Ok _ \<Rightarrow> Ok ()
            | Panic p \<Rightarrow> Panic p
            | Err err \<Rightarrow>
                if errors_is err OsErrPermission then Ok ()
                else if errors_is err OsErrNotExist then Ok ()
                else Err (FmtV ''failed to restore IPv6 autoconfiguration on %q: %v'' err)),
           ds\<lparr>ds_Sys := w\<rparr>))"

definition dial ::
  "'w state_ops \<Rightarrow> (nat \<Rightarrow> dial_env) \<Rightarrow> dialer \<Rightarrow> 'w dialer_state \<Rightarrow>
     dial_context outcome \<times> 'w dialer_state" where
  "dial st env d ds0 =
     (let k = ds_Dials ds0; e = env k; ds = ds0\<lparr>ds_Dials := Suc k\<rparr>
      in case bindO (lookupInterface (de_InterfaceByName e))
                (\<lambda>ifi. bindO (checkInterface ifi (de_Addrs e)) (\<lambda>_. Ok ifi)) of
           Err err \<Rightarrow> (Err err, ds)
         | Panic p \<Rightarrow> (Panic p, ds)
         | Ok ifi \<Rightarrow>
             (case dialNDP e k ds of
                (Err err, ds1) \<Rightarrow> (Err err, ds1)
              | (Panic p, ds1) \<Rightarrow> (Panic p, ds1)
              | (Ok (conn, ip), ds1) \<Rightarrow>
                  (case d_mode d of
                     Advertise \<Rightarrow>
                       (case setAutoconf st d ds1 of
                          (r, ds2) \<Rightarrow>
                            (bindO r (\<lambda>prev. Ok \<lparr>dc_Conn = conn, dc_Interface = ifi, dc_IP = ip,
                               dc_Restore = Some prev\<rparr>), ds2))
                   | Monitor \<Rightarrow>
                       (Ok \<lparr>dc_Conn = conn, dc_Interface = ifi, dc_IP = ip, dc_Restore = None\<rparr>, ds1))))"

text \<open>
  The closure \<open>done\<close>: leaving the group and closing are best-effort, so that only \<open>restore\<close> can fail.
\<close>

definition dial_done ::
  "'w state_ops \<Rightarrow> dialer \<Rightarrow> dial_context \<Rightarrow> 'w dialer_state \<Rightarrow> unit outcome \<times> 'w dialer_state" where
  "dial_done st d dctx ds0 =
     (let ds = ds0\<lparr>ds_Conns := ds_Conns ds0 - {dc_Conn dctx}\<rparr>
      in case dc_Restore dctx of
           None \<Rightarrow> (Ok (), ds)
         | Some prev \<Rightarrow> restore st d prev ds)"


section \<open>Initialization with retries\<close>

definition init_attempts :: nat where "init_attempts = 50"
definition init_maxDelay :: duration where "init_maxDelay = 3 * Second"

text \<open>The delay before the next attempt, after attempt \<open>i\<close>.\<close>

definition next_delay :: "nat \<Rightarrow> duration" where
  "next_delay i =
     (let delay = int (i + 1) * 250 * Millisecond
      in if init_maxDelay < delay then init_maxDelay else delay)"

fun init_retry ::
  "'w state_ops \<Rightarrow> (nat \<Rightarrow> dial_env) \<Rightarrow> dialer \<Rightarrow> go_error \<Rightarrow> nat \<Rightarrow> nat \<Rightarrow> duration \<Rightarrow> 'w dialer_state \<Rightarrow>
     dial_context outcome \<times> 'w dialer_state" where
  "init_retry st env d err 0 i delay ds =
     (Err (FmtV ''timed out trying to initialize after error: %v'' err), ds)"
| "init_retry st env d err (Suc n) i delay ds =
     (case de_Ctx (env (ds_Dials ds)) of
        Some cerr \<Rightarrow> (Err cerr, ds)
      | None \<Rightarrow>
          (case dial st env d (ds\<lparr>ds_Waited := ds_Waited ds + delay\<rparr>) of
             (Ok dctx, ds') \<Rightarrow> (Ok dctx, ds')
           | (Err _, ds') \<Rightarrow> init_retry st env d err n (Suc i) (next_delay i) ds'
           | (Panic p, ds') \<Rightarrow> (Panic p, ds')))"

datatype recovery = Fatal | Retry

definition recovery_of :: "go_error \<Rightarrow> recovery" where
  "recovery_of err =
     (case as_syscall err of
        Some serr \<Rightarrow> if errors_is serr OsErrPermission then Fatal else Retry
      | None \<Rightarrow>
          if errors_is err ErrLinkNotReady then Retry
          else if errors_is err ErrLinkChange then Retry
          else Fatal)"

text \<open>\<open>None\<close> is the nil error of the first initialization.\<close>

definition dialer_init ::
  "'w state_ops \<Rightarrow> (nat \<Rightarrow> dial_env) \<Rightarrow> dialer \<Rightarrow> go_error option \<Rightarrow> 'w dialer_state \<Rightarrow>
     dial_context outcome \<times> 'w dialer_state" where
  "dialer_init st env d err0 ds0 =
     (case (case err0 of None \<Rightarrow> dial st env d ds0 | Some err \<Rightarrow> (Err err, ds0)) of
        (Ok dctx, ds) \<Rightarrow> (Ok dctx, ds)
      | (Panic p, ds) \<Rightarrow> (Panic p, ds)
      | (Err err, ds) \<Rightarrow>
          (case recovery_of err of
             Fatal \<Rightarrow> (Err err, ds)
           | Retry \<Rightarrow> init_retry st env d err init_attempts 0 0 ds))"


section \<open>The dial loop\<close>

text \<open>
  \<open>fn\<close> is the caller's function, with the state it changes; its result is the returned error.  The loop
  ends when the function returns no error, or when initialization or cleanup fails.
\<close>

partial_function (option) Dial_loop ::
  "'w state_ops \<Rightarrow> (nat \<Rightarrow> dial_env) \<Rightarrow> dialer \<Rightarrow> (dial_context \<Rightarrow> 'x \<Rightarrow> unit outcome \<times> 'x) \<Rightarrow>
     go_error option \<Rightarrow> 'w dialer_state \<Rightarrow> 'x \<Rightarrow> (unit outcome \<times> 'w dialer_state \<times> 'x) option" where
  [code]: "Dial_loop st env d fn err ds t =
     (case dialer_init st env d err ds of
        (Err e, ds1) \<Rightarrow>
          Some (if errors_is e ContextCanceled then Ok ()
                else Err (FmtW ''failed to reinitialize %q listener: %w'' e), ds1, t)
      | (Panic p, ds1) \<Rightarrow> Some (Panic p, ds1, t)
      | (Ok dctx, ds1) \<Rightarrow>
          (case fn dctx t of
             (Panic p, t1) \<Rightarrow> Some (Panic p, ds1, t1)
           | (r, t1) \<Rightarrow>
               (case dial_done st d dctx ds1 of
                  (Err derr, ds2) \<Rightarrow> Some (Err (FmtV ''failed to clean up connection: %v'' derr), ds2, t1)
                | (Panic p, ds2) \<Rightarrow> Some (Panic p, ds2, t1)
                | (Ok _, ds2) \<Rightarrow>
                    (case r of
                       Err e \<Rightarrow> Dial_loop st env d fn (Some e) ds2 t1
                     | _ \<Rightarrow> Some (Ok (), ds2, t1)))))"

definition Dial where
  "Dial st env d fn ds t = Dial_loop st env d fn None ds t"

end
