(* ===== verification/Dialer_Facts.thy ===== *)
theory Dialer_Facts
  imports Dialer
begin

text \<open>
  Facts about the dialer: the retry budget of an initialization, that the loop undoes on the way out
  what it did to the system, that a round runs on the interface its dial found, and when the loop
  returns.
\<close>

section \<open>Retry budget\<close>

lemma dial_counts: "dial st env d ds = (r, ds') \<Longrightarrow> ds_Dials ds' = Suc (ds_Dials ds) \<and> ds_Waited ds' = ds_Waited ds"
  by (auto simp: dial_def Let_def dialNDP_def setAutoconf_def
      split: outcome.splits dialer_mode.splits prod.splits)

text \<open>The time \<open>n\<close> attempts wait, the first after \<open>delay\<close>, the others after the computed delays.\<close>

fun retry_time :: "nat \<Rightarrow> nat \<Rightarrow> duration \<Rightarrow> duration" where
  "retry_time 0 i delay = 0"
| "retry_time (Suc n) i delay = delay + retry_time n (Suc i) (next_delay i)"

lemma next_delay_bounds: "0 < next_delay i" "next_delay i \<le> 3 * Second"
  by (auto simp: next_delay_def init_maxDelay_def Let_def)

lemma retry_time_nonneg: "0 \<le> delay \<Longrightarrow> 0 \<le> retry_time n i delay"
  by (induction n arbitrary: i delay) (auto simp: order.strict_implies_order next_delay_bounds intro!: add_nonneg_nonneg)

lemma retry_budget: "retry_time init_attempts 0 0 = 130500 * Millisecond"
  by (simp add: init_attempts_def next_delay_def init_maxDelay_def eval_nat_numeral)

lemma init_retry_counts:
  assumes "init_retry st env d err n i delay ds = (r, ds')" and "0 \<le> delay"
  shows "ds_Dials ds \<le> ds_Dials ds'" and "ds_Dials ds' \<le> ds_Dials ds + n"
    and "ds_Waited ds' \<le> ds_Waited ds + retry_time n i delay"
proof -
  have "ds_Dials ds \<le> ds_Dials ds' \<and> ds_Dials ds' \<le> ds_Dials ds + n \<and>
      ds_Waited ds' \<le> ds_Waited ds + retry_time n i delay"
    using assms
  proof (induction n arbitrary: i delay ds)
    case 0
    then show ?case by simp
  next
    case (Suc n)
    show ?case
    proof (cases "de_Ctx (env (ds_Dials ds))")
      case (Some e)
      then show ?thesis using Suc.prems retry_time_nonneg[of delay "Suc n" i] by auto
    next
      case None
      let ?ds = "ds\<lparr>ds_Waited := ds_Waited ds + delay\<rparr>"
      obtain q ds1 where q: "dial st env d ?ds = (q, ds1)" by fastforce
      have c: "ds_Dials ds1 = Suc (ds_Dials ds)" "ds_Waited ds1 = ds_Waited ds + delay"
        using dial_counts[OF q] by simp_all
      have nd: "0 \<le> next_delay i" using next_delay_bounds(1)[of i] by simp
      show ?thesis
      proof (cases q)
        case (Err x)
        then have "init_retry st env d err n (Suc i) (next_delay i) ds1 = (r, ds')"
          using Suc.prems None q by simp
        from Suc.IH[OF this nd] show ?thesis using c by simp
      qed (use Suc.prems None q c retry_time_nonneg[OF nd, of n "Suc i"] in auto)
    qed
  qed
  then show "ds_Dials ds \<le> ds_Dials ds'" "ds_Dials ds' \<le> ds_Dials ds + n"
    "ds_Waited ds' \<le> ds_Waited ds + retry_time n i delay" by blast+
qed

text \<open>When every attempt fails and nothing cancels, all are made and the error says so.\<close>

definition attempt_fails :: "'w state_ops \<Rightarrow> (nat \<Rightarrow> dial_env) \<Rightarrow> dialer \<Rightarrow> nat \<Rightarrow> bool" where
  "attempt_fails st env d k \<longleftrightarrow>
     de_Ctx (env k) = None \<and> (\<forall>ds. ds_Dials ds = k \<longrightarrow> (\<exists>e. fst (dial st env d ds) = Err e))"

lemma init_retry_exhausts:
  assumes "\<forall>k. ds_Dials ds \<le> k \<and> k < ds_Dials ds + n \<longrightarrow> attempt_fails st env d k"
  shows "\<exists>ds'. init_retry st env d err n i delay ds =
      (Err (FmtV ''timed out trying to initialize after error: %v'' err), ds') \<and>
      ds_Dials ds' = ds_Dials ds + n \<and> ds_Waited ds' = ds_Waited ds + retry_time n i delay"
  using assms
proof (induction n arbitrary: i delay ds)
  case 0
  then show ?case by simp
next
  case (Suc n)
  let ?ds = "ds\<lparr>ds_Waited := ds_Waited ds + delay\<rparr>"
  have f: "attempt_fails st env d (ds_Dials ds)" using Suc.prems by simp
  then have ctx: "de_Ctx (env (ds_Dials ds)) = None" by (simp add: attempt_fails_def)
  obtain e ds1 where q: "dial st env d ?ds = (Err e, ds1)"
    using f unfolding attempt_fails_def by (metis dialer_state.select_convs(3) dialer_state.surjective
        dialer_state.update_convs(4) prod.collapse)
  have c: "ds_Dials ds1 = Suc (ds_Dials ds)" "ds_Waited ds1 = ds_Waited ds + delay"
    using dial_counts[OF q] by simp_all
  have "\<forall>k. ds_Dials ds1 \<le> k \<and> k < ds_Dials ds1 + n \<longrightarrow> attempt_fails st env d k"
    using Suc.prems c by auto
  from Suc.IH[OF this, of "Suc i" "next_delay i"] show ?case using ctx q c by auto
qed

lemma dialer_init_counts:
  assumes "dialer_init st env d err ds = (r, ds')"
  shows "ds_Dials ds' \<le> ds_Dials ds + 51" and "ds_Waited ds' \<le> ds_Waited ds + 130500 * Millisecond"
    and "ds_Dials ds \<le> ds_Dials ds'"
proof -
  obtain q ds1 where q: "(case err of None \<Rightarrow> dial st env d ds | Some e \<Rightarrow> (Err e, ds)) = (q, ds1)"
    by fastforce
  have c: "ds_Dials ds \<le> ds_Dials ds1" "ds_Dials ds1 \<le> Suc (ds_Dials ds)" "ds_Waited ds1 = ds_Waited ds"
    using q dial_counts[of st env d ds q ds1] by (auto split: option.splits)
  consider "ds' = ds1" | e where "init_retry st env d e init_attempts 0 0 ds1 = (r, ds')"
    using assms by (auto simp: dialer_init_def q split: outcome.splits recovery.splits)
  then have "ds_Dials ds' \<le> ds_Dials ds + 51 \<and> ds_Waited ds' \<le> ds_Waited ds + 130500 * Millisecond \<and>
      ds_Dials ds \<le> ds_Dials ds'"
  proof cases
    case 1
    then show ?thesis using c by simp
  next
    case 2
    from init_retry_counts[OF 2] show ?thesis
      unfolding retry_budget using c by (simp add: init_attempts_def)
  qed
  then show "ds_Dials ds' \<le> ds_Dials ds + 51" "ds_Waited ds' \<le> ds_Waited ds + 130500 * Millisecond"
    "ds_Dials ds \<le> ds_Dials ds'" by blast+
qed

section \<open>Undoing\<close>

text \<open>What a successful dial has done to the system state, by mode.\<close>

definition engaged ::
  "'w state_ops \<Rightarrow> dialer \<Rightarrow> dial_context \<Rightarrow> 'w \<Rightarrow> 'w \<Rightarrow> bool" where
  "engaged st d dctx w w' \<longleftrightarrow>
     (case d_mode d of
        Monitor \<Rightarrow> dc_Restore dctx = None \<and> w' = w
      | Advertise \<Rightarrow>
          (\<exists>prev. dc_Restore dctx = Some prev \<and> st_IPv6Autoconf st w (d_iface d) = Ok prev \<and>
             st_SetIPv6Autoconf st w (d_iface d) False = (Ok (), w')))"

fun dial_effect ::
  "'w state_ops \<Rightarrow> dialer \<Rightarrow> dial_context outcome \<Rightarrow> 'w \<Rightarrow> 'w \<Rightarrow> bool" where
  "dial_effect st d (Ok dctx) w w' = engaged st d dctx w w'"
| "dial_effect st d (Err e) w w' = (w' = w)"
| "dial_effect st d (Panic p) w w' = (w' = w)"

lemma dial_effect_not_Ok: "\<not> is_Ok r \<Longrightarrow> dial_effect st d r w w' \<longleftrightarrow> w' = w"
  by (cases r) auto

definition same_autoconf :: "'w state_ops \<Rightarrow> 'w \<Rightarrow> 'w \<Rightarrow> bool" where
  "same_autoconf st w w' \<longleftrightarrow> (\<forall>j. st_IPv6Autoconf st w' j = st_IPv6Autoconf st w j)"

text \<open>
  The rule for facts about a run that returns without a panic: \<open>P\<close> is kept by every round, \<open>Q\<close> holds of each
  of the ways in which the loop ends.
\<close>

lemma Dial_loop_rule [consumes 1, case_names round init_error cleanup_error ended]:
  assumes "Dial_loop (ops :: 'w state_ops) env d (fn :: dial_context \<Rightarrow> 'x \<Rightarrow> _) err ds x = Some (r, ds', x')" and np: "\<not> is_Panic r" and "P ds x"
    and round: "\<And>err ds x dctx ds1 e x1 ds2. P ds x \<Longrightarrow> dialer_init ops env d err ds = (Ok dctx, ds1) \<Longrightarrow>
      fn dctx x = (Err e, x1) \<Longrightarrow> dial_done ops d dctx ds1 = (Ok (), ds2) \<Longrightarrow> P ds2 x1"
    and init_error: "\<And>err ds x e ds1. P ds x \<Longrightarrow> dialer_init ops env d err ds = (Err e, ds1) \<Longrightarrow>
      Q (if errors_is e ContextCanceled then Ok ()
         else Err (FmtW ''failed to reinitialize %q listener: %w'' e)) ds1 x"
    and cleanup_error: "\<And>err ds x dctx ds1 q x1 e ds2. P ds x \<Longrightarrow> dialer_init ops env d err ds = (Ok dctx, ds1) \<Longrightarrow>
      fn dctx x = (q, x1) \<Longrightarrow> dial_done ops d dctx ds1 = (Err e, ds2) \<Longrightarrow>
      Q (Err (FmtV ''failed to clean up connection: %v'' e)) ds2 x1"
    and ended: "\<And>err ds x dctx ds1 u x1 ds2. P ds x \<Longrightarrow> dialer_init ops env d err ds = (Ok dctx, ds1) \<Longrightarrow>
      fn dctx x = (Ok u, x1) \<Longrightarrow> dial_done ops d dctx ds1 = (Ok (), ds2) \<Longrightarrow> Q (Ok ()) ds2 x1"
  shows "Q r ds' x'"
proof -
  let ?R = "\<lambda>ops' env' d' fn' err ds x (y :: unit outcome \<times> 'w dialer_state \<times> 'x).
     ops' = ops \<longrightarrow> env' = env \<longrightarrow> d' = d \<longrightarrow> fn' = fn \<longrightarrow> P ds x \<longrightarrow> \<not> is_Panic (fst y) \<longrightarrow>
     Q (fst y) (fst (snd y)) (snd (snd y))"
  have "?R ops env d fn err ds x (r, ds', x')"
    using assms(1)
  proof (rule Dial_loop.raw_induct[where P = ?R, rotated])
    fix loop ops' env' d' fn' err ds x y
    assume IH: "\<And>ops' env' d' fn' err ds x y. loop ops' env' d' fn' err ds x = Some y \<Longrightarrow> ?R ops' env' d' fn' err ds x y"
      and run: "(case dialer_init ops' env' d' err ds of
        (Err e, ds1) \<Rightarrow>
          Some (if errors_is e ContextCanceled then Ok ()
                else Err (FmtW ''failed to reinitialize %q listener: %w'' e), ds1, x)
      | (Panic p, ds1) \<Rightarrow> Some (Panic p, ds1, x)
      | (Ok dctx, ds1) \<Rightarrow>
          (case fn' dctx x of
             (Panic p, x1) \<Rightarrow> Some (Panic p, ds1, x1)
           | (r, x1) \<Rightarrow>
               (case dial_done ops' d' dctx ds1 of
                  (Err derr, ds2) \<Rightarrow> Some (Err (FmtV ''failed to clean up connection: %v'' derr), ds2, x1)
                | (Panic p, ds2) \<Rightarrow> Some (Panic p, ds2, x1)
                | (Ok _, ds2) \<Rightarrow>
                    (case r of
                       Err e \<Rightarrow> loop ops' env' d' fn' (Some e) ds2 x1
                     | _ \<Rightarrow> Some (Ok (), ds2, x1))))) = Some y"
    show "?R ops' env' d' fn' err ds x y"
    proof (intro impI)
      assume eq: "ops' = ops" "env' = env" "d' = d" "fn' = fn" and px: "P ds x" and np: "\<not> is_Panic (fst y)"
      obtain q ds1 where q: "dialer_init ops env d err ds = (q, ds1)" by fastforce
      show "Q (fst y) (fst (snd y)) (snd (snd y))"
      proof (cases q)
        case (Ok dctx)
        obtain p x1 where p: "fn dctx x = (p, x1)" by fastforce
        obtain b ds2 where b: "dial_done ops d dctx ds1 = (b, ds2)" by fastforce
        note i = q[unfolded Ok]
        show ?thesis
        proof (cases p)
          case (Ok u)
          then show ?thesis
            using run eq np cleanup_error[OF px i p] ended[OF px i] p b i by (cases b) auto
        next
          case (Err e)
          then show ?thesis
            using run eq np cleanup_error[OF px i p] IH[of ops env d fn "Some e" ds2 x1 y] round[OF px i] p b i
            by (cases b) auto
        qed (use run eq np p i in auto)
      qed (use run eq np q init_error[OF px] in auto)
    qed
  qed
  then show ?thesis using assms(2,3) by simp
qed

text \<open>
  The interface of a context is the one that the dial which opened its connection found and checked.
\<close>

definition found_by_dial :: "(nat \<Rightarrow> dial_env) \<Rightarrow> dial_context \<Rightarrow> bool" where
  "found_by_dial env dctx \<longleftrightarrow>
     de_InterfaceByName (env (dc_Conn dctx)) = Ok (dc_Interface dctx) \<and>
     checkInterface (dc_Interface dctx) (de_Addrs (env (dc_Conn dctx))) = Ok ()"

lemma lookupInterface_Ok: "lookupInterface r = Ok ifi \<Longrightarrow> r = Ok ifi"
  by (cases r) (auto simp: lookupInterface_def split: if_splits)

lemma dial_found:
  assumes "dial ops env d ds = (Ok dctx, ds')"
  shows "found_by_dial env dctx \<and> dc_Conn dctx = ds_Dials ds"
  using assms
  by (auto simp: dial_def Let_def dialNDP_def bindO_Ok_iff found_by_dial_def
      split: outcome.splits dialer_mode.splits prod.splits dest!: lookupInterface_Ok)

lemma init_retry_found:
  "init_retry ops env d err n i delay ds = (Ok dctx, ds') \<Longrightarrow> found_by_dial env dctx \<and> ds_Dials ds \<le> dc_Conn dctx"
proof (induction n arbitrary: i delay ds)
  case (Suc n)
  let ?ds = "ds\<lparr>ds_Waited := ds_Waited ds + delay\<rparr>"
  obtain q ds1 where q: "dial ops env d ?ds = (q, ds1)" by fastforce
  have "ds_Dials ds1 = Suc (ds_Dials ds)" using dial_counts[OF q] by simp
  then show ?case
    using Suc.prems q Suc.IH[of "Suc i" "next_delay i" ds1] dial_found[of ops env d ?ds]
    by (fastforce split: option.splits outcome.splits)
qed simp

lemma dialer_init_found:
  assumes "dialer_init ops env d err ds = (Ok dctx, ds')"
  shows "found_by_dial env dctx \<and> ds_Dials ds \<le> dc_Conn dctx"
proof -
  obtain q ds1 where q: "(case err of None \<Rightarrow> dial ops env d ds | Some e \<Rightarrow> (Err e, ds)) = (q, ds1)"
    by fastforce
  have "ds_Dials ds \<le> ds_Dials ds1" using q dial_counts[of ops env d ds q ds1] by (auto split: option.splits)
  then show ?thesis
    using assms q dial_found[of ops env d ds dctx ds1] init_retry_found[of ops env d _ init_attempts 0 0 ds1]
    by (fastforce simp: dialer_init_def split: option.splits outcome.splits recovery.splits)
qed

text \<open>
  A run with a record of its rounds: the context of each, and what the caller's function added to the list
  that \<open>out\<close> reads off its state.
\<close>

definition logged ::
  "('x \<Rightarrow> 'm list) \<Rightarrow> (dial_context \<Rightarrow> 'x \<Rightarrow> unit outcome \<times> 'x) \<Rightarrow> dial_context \<Rightarrow>
     'x \<times> (dial_context \<times> 'm list) list \<Rightarrow> unit outcome \<times> 'x \<times> (dial_context \<times> 'm list) list" where
  "logged out fn dctx t =
     (case fn dctx (fst t) of (r, x) \<Rightarrow> (r, x, snd t @ [(dctx, drop (length (out (fst t))) (out x))]))"

text \<open>Keeping the record changes nothing.\<close>

lemma Dial_loop_logged:
  assumes "Dial_loop (ops :: 'w state_ops) env d (fn :: dial_context \<Rightarrow> 'x \<Rightarrow> _) err ds x = Some (r, ds', x')"
  shows "\<exists>past'. Dial_loop ops env d (logged out fn) err ds (x, past) = Some (r, ds', x', past')"
proof -
  let ?R = "\<lambda>ops env d fn err ds x (y :: unit outcome \<times> 'w dialer_state \<times> 'x).
     \<forall>past. \<exists>past'. Dial_loop ops env d (logged out fn) err ds (x, past) = Some (fst y, fst (snd y), snd (snd y), past')"
  have "?R ops env d fn err ds x (r, ds', x')"
    using assms
  proof (rule Dial_loop.raw_induct[where P = ?R, rotated])
    fix loop ops env d fn err ds x y
    assume IH: "\<And>ops env d fn err ds x y. loop ops env d fn err ds x = Some y \<Longrightarrow> ?R ops env d fn err ds x y"
      and run: "(case dialer_init ops env d err ds of
        (Err e, ds1) \<Rightarrow>
          Some (if errors_is e ContextCanceled then Ok ()
                else Err (FmtW ''failed to reinitialize %q listener: %w'' e), ds1, x)
      | (Panic p, ds1) \<Rightarrow> Some (Panic p, ds1, x)
      | (Ok dctx, ds1) \<Rightarrow>
          (case fn dctx x of
             (Panic p, x1) \<Rightarrow> Some (Panic p, ds1, x1)
           | (r, x1) \<Rightarrow>
               (case dial_done ops d dctx ds1 of
                  (Err derr, ds2) \<Rightarrow> Some (Err (FmtV ''failed to clean up connection: %v'' derr), ds2, x1)
                | (Panic p, ds2) \<Rightarrow> Some (Panic p, ds2, x1)
                | (Ok _, ds2) \<Rightarrow>
                    (case r of
                       Err e \<Rightarrow> loop ops env d fn (Some e) ds2 x1
                     | _ \<Rightarrow> Some (Ok (), ds2, x1))))) = Some y"
    show "?R ops env d fn err ds x y"
    proof
      fix past
      note unfold = Dial_loop.simps[of ops env d "logged out fn" err ds "(x, past)"]
      obtain q ds1 where q: "dialer_init ops env d err ds = (q, ds1)" by fastforce
      show "\<exists>past'. Dial_loop ops env d (logged out fn) err ds (x, past) = Some (fst y, fst (snd y), snd (snd y), past')"
      proof (cases q)
        case (Ok dctx)
        obtain p x1 where p: "fn dctx x = (p, x1)" by fastforce
        obtain b ds2 where b: "dial_done ops d dctx ds1 = (b, ds2)" by fastforce
        have l: "logged out fn dctx (x, past) = (p, x1, past @ [(dctx, drop (length (out x)) (out x1))])"
          by (simp add: logged_def p)
        show ?thesis
        proof (cases "\<exists>e u. p = Err e \<and> b = Ok u")
          case True
          then obtain e u where e: "p = Err e" "b = Ok u" by blast
          then have "loop ops env d fn (Some e) ds2 x1 = Some y" using run q Ok p b by simp
          then show ?thesis using IH e q Ok b l by (simp add: unfold)
        next
          case False
          then show ?thesis using run q Ok p b l by (auto simp: unfold split: outcome.splits)
        qed
      qed (use run q in \<open>auto simp: unfold\<close>)
    qed
  qed
  then show ?thesis by simp
qed

lemma dialNDP_Sys: "dialNDP e k ds = (r, ds') \<Longrightarrow> ds_Sys ds' = ds_Sys ds"
  by (auto simp: dialNDP_def split: outcome.splits)

context state_laws
begin

lemma setAutoconf_writable:
  assumes "setAutoconf ops d ds = (r, ds')" and "writable (ds_Sys ds) (d_iface d)"
  shows "\<exists>prev. r = Ok prev \<and> st_IPv6Autoconf ops (ds_Sys ds) (d_iface d) = Ok prev \<and>
    st_SetIPv6Autoconf ops (ds_Sys ds) (d_iface d) False = (Ok (), ds_Sys ds') \<and>
    ds_Conns ds' = ds_Conns ds"
proof -
  obtain prev where prev: "st_IPv6Autoconf ops (ds_Sys ds) (d_iface d) = Ok prev"
    using writable_get[OF assms(2)] by (auto simp: is_Ok_iff)
  obtain q w where q: "st_SetIPv6Autoconf ops (ds_Sys ds) (d_iface d) False = (q, w)" by fastforce
  have "q = Ok ()" using writable_set[OF assms(2) q] by simp
  then have "r = Ok prev" "ds' = ds\<lparr>ds_Sys := w\<rparr>" using assms(1) prev q by (simp_all add: setAutoconf_def)
  then show ?thesis using prev q \<open>q = Ok ()\<close> by simp
qed

lemma dial_engages:
  assumes "dial ops env d ds = (r, ds')" and "writable (ds_Sys ds) (d_iface d)"
  shows "dial_effect ops d r (ds_Sys ds) (ds_Sys ds')"
proof -
  let ?k = "ds_Dials ds" and ?ds = "ds\<lparr>ds_Dials := Suc (ds_Dials ds)\<rparr>"
  consider "ds' = ?ds" "\<not> is_Ok r"
    | ifi q ds1 where "dialNDP (env ?k) ?k ?ds = (q, ds1)" "\<not> is_Ok q" "ds' = ds1" "\<not> is_Ok r"
    | ifi conn ip ds1 where "dialNDP (env ?k) ?k ?ds = (Ok (conn, ip), ds1)"
        "d_mode d = Monitor" "ds' = ds1"
        "r = Ok \<lparr>dc_Conn = conn, dc_Interface = ifi, dc_IP = ip, dc_Restore = None\<rparr>"
    | ifi conn ip ds1 q where "dialNDP (env ?k) ?k ?ds = (Ok (conn, ip), ds1)"
        "d_mode d = Advertise" "setAutoconf ops d ds1 = (q, ds')"
        "r = bindO q (\<lambda>prev. Ok \<lparr>dc_Conn = conn, dc_Interface = ifi, dc_IP = ip, dc_Restore = Some prev\<rparr>)"
    using assms(1) by (auto simp: dial_def Let_def split: outcome.splits dialer_mode.splits prod.splits)
  then show ?thesis
  proof cases
    case 4
    have "ds_Sys ds1 = ds_Sys ds" using dialNDP_Sys[OF 4(1)] by simp
    with setAutoconf_writable[OF 4(3)] assms(2) show ?thesis
      using 4 by (auto simp: engaged_def)
  qed (use dialNDP_Sys in \<open>fastforce simp: engaged_def dial_effect_not_Ok\<close>)+
qed

lemma init_retry_engages:
  "init_retry ops env d err n i delay ds = (r, ds') \<Longrightarrow> writable (ds_Sys ds) (d_iface d) \<Longrightarrow>
   dial_effect ops d r (ds_Sys ds) (ds_Sys ds')"
proof (induction n arbitrary: i delay ds)
  case 0
  then show ?case by auto
next
  case (Suc n)
  let ?ds = "ds\<lparr>ds_Waited := ds_Waited ds + delay\<rparr>"
  obtain q ds1 where q: "dial ops env d ?ds = (q, ds1)" by fastforce
  have w: "writable (ds_Sys ?ds) (d_iface d)" using Suc.prems(2) by simp
  show ?case
  proof (cases "de_Ctx (env (ds_Dials ds))")
    case (Some e)
    then show ?thesis using Suc.prems by auto
  next
    case None
    show ?thesis
    proof (cases q)
      case (Err e)
      then have "ds_Sys ds1 = ds_Sys ds" using dial_engages[OF q w] by simp
      then show ?thesis using Suc.IH[of "Suc i" "next_delay i" ds1] Suc.prems None q Err by simp
    qed (use dial_engages[OF q w] Suc.prems None q in auto)
  qed
qed

lemma init_engages:
  assumes "dialer_init ops env d err ds = (r, ds')" and "writable (ds_Sys ds) (d_iface d)"
  shows "dial_effect ops d r (ds_Sys ds) (ds_Sys ds')"
proof -
  obtain q ds1 where q: "(case err of None \<Rightarrow> dial ops env d ds | Some e \<Rightarrow> (Err e, ds)) = (q, ds1)"
    by fastforce
  have e: "dial_effect ops d q (ds_Sys ds) (ds_Sys ds1)"
    using q dial_engages[of env d ds q ds1] assms(2) by (auto split: option.splits)
  show ?thesis
  proof (cases q)
    case (Err x)
    then have "ds_Sys ds1 = ds_Sys ds" using e by simp
    then show ?thesis
      using assms Err init_retry_engages[of env d x init_attempts 0 0 ds1 r ds']
      by (auto simp: dialer_init_def q split: recovery.splits)
  qed (use assms e in \<open>auto simp: dialer_init_def q\<close>)
qed

text \<open>While the caller's function runs in advertise mode, autoconfiguration is off.\<close>

lemma engaged_off:
  assumes "engaged ops d dctx w w'" and "d_mode d = Advertise"
  shows "st_IPv6Autoconf ops w' (d_iface d) = Ok False"
  using assms set_get by (auto simp: engaged_def)

lemma engaged_done:
  assumes "engaged ops d dctx w (ds_Sys ds)" and "writable w (d_iface d)"
    and "dial_done ops d dctx ds = (r, ds')"
  shows "r = Ok () \<and> same_autoconf ops w (ds_Sys ds') \<and> writable (ds_Sys ds') (d_iface d)"
proof (cases "d_mode d")
  case Advertise
  then obtain prev where p: "dc_Restore dctx = Some prev" "st_IPv6Autoconf ops w (d_iface d) = Ok prev"
      "st_SetIPv6Autoconf ops w (d_iface d) False = (Ok (), ds_Sys ds)"
    using assms(1) by (auto simp: engaged_def)
  have w: "writable (ds_Sys ds) (d_iface d)" using writable_set[OF assms(2) p(3)] by simp
  obtain q w2 where q: "st_SetIPv6Autoconf ops (ds_Sys ds) (d_iface d) prev = (q, w2)" by fastforce
  have ok: "q = Ok ()" "writable w2 (d_iface d)" using writable_set[OF w q] by simp_all
  have "same_autoconf ops w w2"
    using set_restore[OF p(2,3)] q ok(1) by (auto simp: same_autoconf_def)
  then show ?thesis
    using assms(3) p(1) q ok by (auto simp: dial_done_def restore_def Let_def)
next
  case Monitor
  then show ?thesis using assms by (auto simp: engaged_def dial_done_def Let_def same_autoconf_def)
qed

lemma Dial_loop_restores:
  assumes "Dial_loop ops env d (fn :: dial_context \<Rightarrow> 'x \<Rightarrow> _) err ds x = Some (r, ds', x')"
    and "writable (ds_Sys ds) (d_iface d)" and "\<not> is_Panic r"
  shows "same_autoconf ops (ds_Sys ds) (ds_Sys ds')"
proof -
  let ?w = "ds_Sys ds"
  define P where "P = (\<lambda>(ds :: 'w dialer_state) (x :: 'x). writable (ds_Sys ds) (d_iface d) \<and> same_autoconf ops ?w (ds_Sys ds))"
  have P: "P ds x" using assms(2) by (simp add: P_def same_autoconf_def)
  have init: "dial_effect ops d q (ds_Sys ds) (ds_Sys ds1)"
    if "P ds x" "dialer_init ops env d err ds = (q, ds1)" for err ds x q ds1
    using that init_engages by (auto simp: P_def)
  have round: "b = Ok () \<and> P ds2 x1"
    if "P ds x" "dialer_init ops env d err ds = (Ok dctx, ds1)" "dial_done ops d dctx ds1 = (b, ds2)"
    for err ds x dctx ds1 b ds2 x1
    using engaged_done[OF _ _ that(3)] init[OF that(1,2)] that(1) by (auto simp: P_def same_autoconf_def)
  show ?thesis
    using assms(1,3) P
  proof (rule Dial_loop_rule[where P = P and Q = "\<lambda>r ds' x'. same_autoconf ops ?w (ds_Sys ds')"])
    fix err ds x e ds1
    assume "P ds x" "dialer_init ops env d err ds = (Err e, ds1)"
    then show "same_autoconf ops ?w (ds_Sys ds1)" using init by (fastforce simp: P_def)
    next
    fix err ds x dctx ds1 e x1 ds2
    assume "P ds x" "dialer_init ops env d err ds = (Ok dctx, ds1)" "dial_done ops d dctx ds1 = (Ok (), ds2)"
    from round[OF this] show "P ds2 x1" by blast
  next
    fix err ds x dctx ds1 q x1 e ds2
    assume "P ds x" "dialer_init ops env d err ds = (Ok dctx, ds1)" "dial_done ops d dctx ds1 = (Err e, ds2)"
    from round[OF this] show "same_autoconf ops ?w (ds_Sys ds2)" by simp
  next
    fix err ds x dctx ds1 u x1 ds2
    assume "P ds x" "dialer_init ops env d err ds = (Ok dctx, ds1)" "dial_done ops d dctx ds1 = (Ok (), ds2)"
    from round[OF this] show "same_autoconf ops ?w (ds_Sys ds2)" by (simp add: P_def)
  qed
qed

end

section \<open>Termination\<close>

text \<open>The loop returns when every round that fails makes the state of the caller's function smaller.\<close>

lemma Dial_loop_terminates:
  assumes "\<forall>dctx x e x1. fn dctx x = (Err e, x1) \<longrightarrow> size_of x1 < (size_of x :: nat)"
  shows "\<exists>y. Dial_loop st env d fn err ds x = Some y"
proof (induction "size_of x" arbitrary: err ds x rule: less_induct)
  case less
  obtain q ds1 where q: "dialer_init st env d err ds = (q, ds1)" by fastforce
  show ?case
  proof (cases q)
    case (Ok dctx)
    obtain p x1 where p: "fn dctx x = (p, x1)" by fastforce
    obtain b ds2 where b: "dial_done st d dctx ds1 = (b, ds2)" by fastforce
    show ?thesis
    proof (cases "\<exists>e u. p = Err e \<and> b = Ok u")
      case True
      then obtain e where e: "p = Err e" "b = Ok ()" by auto
      have "size_of x1 < size_of x" using assms p e(1) by blast
      from less(1)[OF this, of "Some e"] show ?thesis
        using q Ok p b e by (simp add: Dial_loop.simps[of st env d fn err ds])
    next
      case False
      then show ?thesis
        using q Ok p b by (auto simp: Dial_loop.simps[of st env d fn err ds] split: outcome.splits)
    qed
  qed (use q in \<open>simp_all add: Dial_loop.simps[of st env d fn err ds]\<close>)
qed


text \<open>
  Whatever the caller's function does, the loop returns once no dial succeeds any more, or the context is
  done: every further round takes a dial that succeeds while the context is alive, and these run out.
\<close>

definition no_dial_from :: "'w state_ops \<Rightarrow> (nat \<Rightarrow> dial_env) \<Rightarrow> dialer \<Rightarrow> nat \<Rightarrow> bool" where
  "no_dial_from st env d n \<longleftrightarrow>
     (\<forall>k \<ge> n. de_Ctx (env k) \<noteq> None \<or> (\<forall>ds. ds_Dials ds = k \<longrightarrow> \<not> is_Ok (fst (dial st env d ds))))"

lemma init_retry_alive:
  "init_retry st env d err n i delay ds = (Ok dctx, ds') \<Longrightarrow>
     \<exists>ds0. de_Ctx (env (ds_Dials ds0)) = None \<and> is_Ok (fst (dial st env d ds0)) \<and> ds_Dials ds \<le> ds_Dials ds0 \<and>
       ds_Dials ds' = Suc (ds_Dials ds0)"
proof (induction n arbitrary: i delay ds)
  case (Suc n)
  let ?ds = "ds\<lparr>ds_Waited := ds_Waited ds + delay\<rparr>"
  obtain q ds1 where q: "dial st env d ?ds = (q, ds1)" by fastforce
  have c: "ds_Dials ds1 = Suc (ds_Dials ds)" using dial_counts[OF q] by simp
  have alive: "de_Ctx (env (ds_Dials ds)) = None" using Suc.prems by (auto split: option.splits)
  show ?case
  proof (cases q)
    case (Ok x)
    then have "ds' = ds1" using Suc.prems alive q by simp
    then show ?thesis using alive q c Ok by (intro exI[of _ ?ds]) simp
  next
    case (Err e)
    then have "init_retry st env d err n (Suc i) (next_delay i) ds1 = (Ok dctx, ds')"
      using Suc.prems alive q by simp
    from Suc.IH[OF this] show ?thesis using c by fastforce
  qed (use Suc.prems alive q in auto)
qed simp

lemma dialer_init_retries:
  assumes "dialer_init st env d (Some e) ds = (Ok dctx, ds')" and "no_dial_from st env d n"
  shows "ds_Dials ds < ds_Dials ds'" and "ds_Dials ds' \<le> n"
proof -
  have "init_retry st env d e init_attempts 0 0 ds = (Ok dctx, ds')"
    using assms(1) by (auto simp: dialer_init_def split: recovery.splits)
  from init_retry_alive[OF this] obtain ds0 where ds0: "de_Ctx (env (ds_Dials ds0)) = None"
      "is_Ok (fst (dial st env d ds0))" "ds_Dials ds \<le> ds_Dials ds0" "ds_Dials ds' = Suc (ds_Dials ds0)" by blast
  have "\<not> n \<le> ds_Dials ds0" using assms(2) ds0(1,2) unfolding no_dial_from_def by blast
  then show "ds_Dials ds < ds_Dials ds'" "ds_Dials ds' \<le> n" using ds0(3,4) by simp_all
qed

lemma dialer_init_dials_again:
  assumes "dialer_init st env d (Some e) ds = (r, ds')" and "recovery_of e = Retry"
    and "de_Ctx (env (ds_Dials ds)) = None"
  shows "ds_Dials ds < ds_Dials ds'"
proof -
  let ?ds = "ds\<lparr>ds_Waited := ds_Waited ds + 0\<rparr>"
  obtain n where n: "init_attempts = Suc n" by (simp add: init_attempts_def)
  obtain q ds1 where q: "dial st env d ?ds = (q, ds1)" by fastforce
  have c: "ds_Dials ds1 = Suc (ds_Dials ds)" using dial_counts[OF q] by simp
  have "init_retry st env d e (Suc n) 0 0 ds = (r, ds')" using assms(1,2) by (simp add: dialer_init_def n)
  then consider "ds' = ds1" | "init_retry st env d e n 1 (next_delay 0) ds1 = (r, ds')"
    using assms(3) q by (auto split: outcome.splits)
  then show ?thesis using init_retry_counts(1)[of st env d e n 1 "next_delay 0" ds1 r ds'] c by cases (auto simp: next_delay_def init_maxDelay_def)
qed

lemma dial_done_counts: "dial_done st d dctx ds = (r, ds') \<Longrightarrow> ds_Dials ds' = ds_Dials ds"
  by (auto simp: dial_done_def restore_def Let_def split: option.splits prod.splits)

lemma Dial_loop_runs_out:
  assumes "no_dial_from st env d n"
  shows "\<exists>r ds' x'. Dial_loop st env d fn (Some e) ds x = Some (r, ds', x') \<and>
    ds_Dials ds' \<le> max (ds_Dials ds) n + 51 \<and> ds_Dials ds \<le> ds_Dials ds' \<and>
    (recovery_of e = Retry \<and> de_Ctx (env (ds_Dials ds)) = None \<longrightarrow> ds_Dials ds < ds_Dials ds')"
proof (induction "n - ds_Dials ds" arbitrary: e ds x rule: less_induct)
  case less
  note unfold = Dial_loop.simps[of st env d fn "Some e" ds x]
  obtain q ds1 where q: "dialer_init st env d (Some e) ds = (q, ds1)" by fastforce
  have le: "ds_Dials ds1 \<le> ds_Dials ds + 51" "ds_Dials ds \<le> ds_Dials ds1"
    using dialer_init_counts(1,3)[OF q] .
  have again: "recovery_of e = Retry \<Longrightarrow> de_Ctx (env (ds_Dials ds)) = None \<Longrightarrow> ds_Dials ds < ds_Dials ds1"
    using dialer_init_dials_again[OF q] .
  show ?case
  proof (cases q)
    case (Ok dctx)
    have less1: "ds_Dials ds < ds_Dials ds1" "ds_Dials ds1 \<le> n"
      using dialer_init_retries[OF _ assms] q Ok by auto
    obtain p x1 where p: "fn dctx x = (p, x1)" by fastforce
    obtain b ds2 where b: "dial_done st d dctx ds1 = (b, ds2)" by fastforce
    have c: "ds_Dials ds2 = ds_Dials ds1" using dial_done_counts[OF b] .
    show ?thesis
    proof (cases "\<exists>e u. p = Err e \<and> b = Ok u")
      case True
      then obtain e' where e': "p = Err e'" "b = Ok ()" by auto
      have "n - ds_Dials ds2 < n - ds_Dials ds" using less1 c by simp
      from less(1)[OF this, of e' x1] show ?thesis using q Ok p b e' less1 c by (auto simp: unfold)
    next
      case False
      then show ?thesis using q Ok p b less1 c by (auto simp: unfold split: outcome.splits)
    qed
  qed (use q le again in \<open>auto simp: unfold\<close>)
qed

lemma Dial_runs_out:
  assumes "no_dial_from st env d n"
  shows "\<exists>r ds' x'. Dial_loop st env d fn err ds x = Some (r, ds', x') \<and> ds_Dials ds' \<le> max (ds_Dials ds) n + 102"
proof -
  note unfold = Dial_loop.simps[of st env d fn err ds x]
  obtain q ds1 where q: "dialer_init st env d err ds = (q, ds1)" by fastforce
  have le: "ds_Dials ds1 \<le> ds_Dials ds + 51" using dialer_init_counts(1)[OF q] .
  show ?thesis
  proof (cases q)
    case (Ok dctx)
    obtain p x1 where p: "fn dctx x = (p, x1)" by fastforce
    obtain b ds2 where b: "dial_done st d dctx ds1 = (b, ds2)" by fastforce
    have c: "ds_Dials ds2 = ds_Dials ds1" using dial_done_counts[OF b] .
    show ?thesis
    proof (cases "\<exists>e u. p = Err e \<and> b = Ok u")
      case True
      then obtain e where e: "p = Err e" "b = Ok ()" by auto
      obtain r ds' x' where "Dial_loop st env d fn (Some e) ds2 x1 = Some (r, ds', x')"
          "ds_Dials ds' \<le> max (ds_Dials ds2) n + 51"
        using Dial_loop_runs_out[OF assms, of fn e ds2 x1] by blast
      then show ?thesis using q Ok p b e c le by (auto simp: unfold)
    next
      case False
      then show ?thesis using q Ok p b c le by (auto simp: unfold split: outcome.splits)
    qed
  qed (use q le in \<open>auto simp: unfold\<close>)
qed

text \<open>An error that is not to be recovered from ends the loop without another dial.\<close>

lemma Dial_loop_fatal:
  assumes "recovery_of e = Fatal"
  shows "Dial_loop st env d fn (Some e) ds x =
    Some (if errors_is e ContextCanceled then Ok ()
          else Err (FmtW ''failed to reinitialize %q listener: %w'' e), ds, x)"
  using assms by (simp add: Dial_loop.simps[of st env d fn "Some e"] dialer_init_def)


section \<open>Connections\<close>

text \<open>
  A dial that fails after the socket was opened leaves it open: nothing closes it.
\<close>

lemma dial_leak:
  assumes "dial st env d ds = (Err e, ds')"
    and "\<exists>ip. de_Listen (env (ds_Dials ds)) = Ok ip"
    and "\<exists>ifi. lookupInterface (de_InterfaceByName (env (ds_Dials ds))) = Ok ifi \<and>
          checkInterface ifi (de_Addrs (env (ds_Dials ds))) = Ok ()"
  shows "ds_Conns ds' = insert (ds_Dials ds) (ds_Conns ds)"
  using assms
  by (auto simp: dial_def Let_def dialNDP_def setAutoconf_def
      split: outcome.splits dialer_mode.splits prod.splits if_splits)

end
