(* ===== verification/Metric.thy ===== *)
theory Metric
  imports GoTime
begin

text \<open>
  Observations on the metrics of \<open>internal/corerad/metrics.go\<close>: a call of a metric function is its name,
  the value and the labels.  The metrics library only stores them.
\<close>

datatype metric = Metric (metric_name: string) (metric_value: f64) (metric_labels: "string list")

definition f_one :: f64 where "f_one = f_of_int 1"
definition f_zero :: f64 where "f_zero = f_of_int 0"

definition boolFloat :: "bool \<Rightarrow> f64" where
  "boolFloat b = (if b then f_one else f_zero)"

text \<open>\<open>Time.Unix\<close>: seconds since 1970, where an instant counts nanoseconds from year 1.\<close>

definition unix_offset :: int where "unix_offset = 62135596800"

definition time_Unix :: "instant \<Rightarrow> int" where
  "time_Unix t = t div Second - unix_offset"

definition unix_float :: "instant \<Rightarrow> f64" where
  "unix_float t = f_of_int (time_Unix t)"

end
