(* ===== verification/Errgroup.thy ===== *)
theory Errgroup
  imports Prelude
begin

text \<open>
  Package \<open>errgroup\<close>, as the advertiser, the monitor and the server use it: \<open>Wait\<close> returns the first error, by the order in which the goroutines return, and leaves
  the derived context canceled.
\<close>

fun group_Wait :: "go_error option list \<Rightarrow> go_error option" where
  "group_Wait [] = None"
| "group_Wait (Some e # rs) = Some e"
| "group_Wait (None # rs) = group_Wait rs"

definition derived_Err :: "go_error option \<Rightarrow> go_error option" where
  "derived_Err parent = (case parent of Some e \<Rightarrow> Some e | None \<Rightarrow> Some (Sentinel ContextCanceled))"

lemma group_Wait_None: "group_Wait rs = None \<longleftrightarrow> (\<forall>r \<in> set rs. r = None)"
  by (induction rs rule: group_Wait.induct) auto

lemma group_Wait_Some: "group_Wait rs = Some e \<Longrightarrow> Some e \<in> set rs"
  by (induction rs rule: group_Wait.induct) auto

lemma group_Wait_snoc: "group_Wait (rs @ [r]) = (case group_Wait rs of Some e \<Rightarrow> Some e | None \<Rightarrow> r)"
  by (induction rs rule: group_Wait.induct) (cases r, auto)

lemma derived_Err_not_None [simp]: "derived_Err parent \<noteq> None"
  by (simp add: derived_Err_def split: option.split)

end
