(* ===== verification/Advertise.thy ===== *)
theory Advertise
  imports Config Verify Metric Errgroup
begin

text \<open>
  \<open>internal/corerad/advertise.go\<close>: the advertiser of an interface.  What it asks from outside at one
  moment is the record \<open>adv_env\<close>: the operating system behind the plugins, the forwarding state, the
  connection and the message type names.  Its effects are the record \<open>adv_state\<close>: the advertisements
  written to the connection, the metrics, the calls of the inconsistency hook, and the allocator.
  Logging is left out.  The goroutines meet in channels, so each is a definition of its own: the
  request generator \<open>multicast_loop\<close>, the scheduler \<open>schedule_loop\<close> with the worker \<open>sendWorker\<close>, the
  message handler, and the group that waits for them; \<open>Advertise_System\<close> puts them together.
\<close>

record adv_env =
  ae_os :: os
  ae_Forwarding :: "string \<Rightarrow> bool outcome"
  ae_WriteTo :: "router_advertisement \<Rightarrow> addr \<Rightarrow> unit outcome"
  ae_TypeString :: "ndp_message \<Rightarrow> string"

record adv_state =
  av_Heap :: ptr
  av_Sent :: "(router_advertisement \<times> addr) list"
  av_Metrics :: "metric list"
  av_Hook :: "(router_advertisement \<times> router_advertisement) list"
  av_Ready :: bool

record advertiser =
  adv_cfg :: interface_config
  adv_OnInconsistentRA :: bool
  adv_minDelayBetweenRAs :: duration

definition maxInitialAdvInterval :: duration where "maxInitialAdvInterval = 16 * Second"
definition maxInitialAdv :: nat where "maxInitialAdv = 3"
definition minDelayBetweenRAs :: duration where "minDelayBetweenRAs = 3 * Second"
definition maxRADelay :: duration where "maxRADelay = 500 * Millisecond"

definition NewAdvertiser :: "interface_config \<Rightarrow> advertiser" where
  "NewAdvertiser cfg =
     \<lparr>adv_cfg = cfg, adv_OnInconsistentRA = False, adv_minDelayBetweenRAs = minDelayBetweenRAs\<rparr>"

definition metric_add :: "string \<Rightarrow> f64 \<Rightarrow> string list \<Rightarrow> adv_state \<Rightarrow> adv_state" where
  "metric_add name v labels s = s\<lparr>av_Metrics := av_Metrics s @ [Metric name v labels]\<rparr>"


section \<open>Building and sending\<close>

definition buildRA ::
  "adv_env \<Rightarrow> interface_config \<Rightarrow> adv_state \<Rightarrow> router_advertisement outcome \<times> adv_state" where
  "buildRA env ifi s =
     (case bindO (wrapErr (FmtW ''failed to get IPv6 forwarding state: %w'') (ae_Forwarding env (ci_Name ifi)))
             (\<lambda>forwarding. wrapErr (FmtV ''failed to generate router advertisement: %v'')
                (RouterAdvertisement_of (ae_os env) ifi forwarding (av_Heap s))) of
        Ok (ra, ms, h) \<Rightarrow> (Ok ra, s\<lparr>av_Heap := h\<rparr>)
      | Err e \<Rightarrow> (Err e, s)
      | Panic p \<Rightarrow> (Panic p, s))"

definition send ::
  "adv_env \<Rightarrow> addr \<Rightarrow> interface_config \<Rightarrow> adv_state \<Rightarrow> unit outcome \<times> adv_state" where
  "send env dst cfg s =
     (if ci_UnicastOnly cfg \<and> IsMulticast dst then (Ok (), s)
      else case buildRA env cfg s of
        (Err e, s1) \<Rightarrow> (Err (FmtW ''failed to build router advertisement: %w'' e), s1)
      | (Panic p, s1) \<Rightarrow> (Panic p, s1)
      | (Ok ra, s1) \<Rightarrow>
          (case ae_WriteTo env ra dst of
             Ok _ \<Rightarrow> (Ok (), s1\<lparr>av_Sent := av_Sent s1 @ [(ra, dst)]\<rparr>)
           | Err e \<Rightarrow> (Err (FmtW ''failed to send router advertisement to %s: %w'' e), s1)
           | Panic p \<Rightarrow> (Panic p, s1)))"

definition sendWorker ::
  "adv_env \<Rightarrow> interface_config \<Rightarrow> addr \<Rightarrow> adv_state \<Rightarrow> unit outcome \<times> adv_state" where
  "sendWorker env cfg ip s =
     (case send env ip cfg s of
        (Err e, s1) \<Rightarrow> (Err e, metric_add ''AdvErrorsTotal'' f_one [ci_Name cfg, ''transmit''] s1)
      | (Panic p, s1) \<Rightarrow> (Panic p, s1)
      | (Ok _, s1) \<Rightarrow>
          (let s2 = (if IsMulticast ip then
                       metric_add ''AdvLastMulticastTime'' (unix_float (os_Now (ae_os env))) [ci_Name cfg] s1
                     else s1);
               typ = (if IsMulticast ip then ''multicast'' else ''unicast'')
           in (Ok (), metric_add ''AdvRouterAdvertisementsTotal'' f_one [ci_Name cfg, typ] s2)))"

definition shutdown :: "adv_env \<Rightarrow> advertiser \<Rightarrow> bool \<Rightarrow> adv_state \<Rightarrow> unit outcome \<times> adv_state" where
  "shutdown env a terminate s =
     (if \<not> terminate then (Ok (), s)
      else case send env IPv6LinkLocalAllNodes ((adv_cfg a)\<lparr>ci_DefaultLifetime := 0\<rparr>) s of
        (Panic p, s1) \<Rightarrow> (Panic p, s1)
      | (_, s1) \<Rightarrow> (Ok (), s1))"


section \<open>Handling messages\<close>

definition report_problem :: "string \<Rightarrow> problem \<Rightarrow> adv_state \<Rightarrow> adv_state" where
  "report_problem iface p =
     metric_add ''AdvRouterAdvertisementInconsistenciesTotal'' f_one [iface, pb_Details p, pb_Field p]"

text \<open>The zero address stands for \<open>no response\<close>.\<close>

definition handle ::
  "adv_env \<Rightarrow> advertiser \<Rightarrow> ndp_message \<Rightarrow> addr \<Rightarrow> adv_state \<Rightarrow> addr outcome \<times> adv_state" where
  "handle env a m host s0 =
     (let iface = ci_Name (adv_cfg a);
          s = metric_add ''AdvMessagesReceivedTotal'' f_one [iface, ae_TypeString env m] s0
      in case m of
           RouterSolicitation opts \<Rightarrow>
             (Ok (if IsUnspecified host then IPv6LinkLocalAllNodes else host), s)
         | RouterAdvertisement ra \<Rightarrow>
             (case buildRA env (adv_cfg a) s of
                (Err e, s1) \<Rightarrow> (Err (FmtW ''failed to build router advertisement: %w'' e), s1)
              | (Panic p, s1) \<Rightarrow> (Panic p, s1)
              | (Ok want, s1) \<Rightarrow>
                  (case verifyRAs want ra of
                     Err e \<Rightarrow> (Err e, s1)
                   | Panic p \<Rightarrow> (Panic p, s1)
                   | Ok problems \<Rightarrow>
                       if length problems = 0 then (Ok AddrZero, s1)
                       else (let s2 = fold (report_problem iface) problems s1
                             in (Ok AddrZero,
                                 if adv_OnInconsistentRA a then s2\<lparr>av_Hook := av_Hook s2 @ [(want, ra)]\<rparr>
                                 else s2))))
         | OtherMessage _ \<Rightarrow>
             (Ok AddrZero, metric_add ''MessagesReceivedInvalidTotal'' f_one [iface, ae_TypeString env m] s))"


section \<open>Delays\<close>

text \<open>\<open>draw n\<close> is the next value of \<open>Int63n(n)\<close>, which panics when the bound is not positive.\<close>

definition Int63n :: "(int \<Rightarrow> int) \<Rightarrow> int \<Rightarrow> int outcome" where
  "Int63n draw n = (if n \<le> 0 then Panic ''invalid argument to Int63n'' else Ok (draw n))"

definition multicastDelay :: "(int \<Rightarrow> int) \<Rightarrow> nat \<Rightarrow> duration \<Rightarrow> duration \<Rightarrow> duration outcome" where
  "multicastDelay draw i mn mx =
     bindO (if mn = mx then Ok (dur_Round (wrap64 (mx * 1)) Second)
            else bindO (Int63n draw (wrap64 (mx - mn)))
                   (\<lambda>r. Ok (dur_Round (wrap64 (mn + wrap64 (r * 1))) Second))) (\<lambda>d.
       Ok (if i < maxInitialAdv \<and> maxInitialAdvInterval < d then maxInitialAdvInterval else d))"

datatype loop_status = Running | Returned | Panicked

text \<open>
  The generator of unsolicited requests: \<open>n\<close> iterations from the \<open>i\<close>-th on, the clock at \<open>t\<close>.
  \<open>ctx i\<close> says whether the context is done before the \<open>i\<close>-th request and during the wait after it.
  The result is the times of the requests made.
\<close>

fun multicast_loop ::
  "duration \<Rightarrow> duration \<Rightarrow> (nat \<Rightarrow> int \<Rightarrow> int) \<Rightarrow> (nat \<Rightarrow> bool \<times> bool) \<Rightarrow> nat \<Rightarrow> nat \<Rightarrow> instant \<Rightarrow>
     instant list \<times> loop_status" where
  "multicast_loop mn mx draw ctx 0 i t = ([], Running)"
| "multicast_loop mn mx draw ctx (Suc n) i t =
     (if fst (ctx i) then ([], Returned)
      else case multicastDelay (draw i) i mn mx of
        Ok d \<Rightarrow>
          if snd (ctx i) then ([t], Returned)
          else (case multicast_loop mn mx draw ctx n (Suc i) (time_Add t d) of (ts, st) \<Rightarrow> (t # ts, st))
      | _ \<Rightarrow> ([t], Panicked))"


section \<open>The scheduler\<close>

text \<open>
  The scheduled work is a list of due times and destinations, in the order of scheduling; \<open>sg.Delay\<close>
  adds to it.  The iterations of the loop are driven by the channel that is ready: an error of a
  worker, the end of the context (with what \<open>sg.Wait\<close> then returns), or a request, with the clock and
  the generator's draw.  One reading of the clock serves the whole iteration.
\<close>

record schedule_state =
  sc_tasks :: "(instant \<times> addr) list"
  sc_last :: instant

datatype sched_event =
    WorkerError go_error
  | ContextDone "go_error option"
  | Request addr instant "int \<Rightarrow> int"

definition schedule_start :: "instant \<Rightarrow> schedule_state" where
  "schedule_start now = \<lparr>sc_tasks = [], sc_last = now\<rparr>"

definition sg_Delay :: "instant \<Rightarrow> duration \<Rightarrow> addr \<Rightarrow> schedule_state \<Rightarrow> schedule_state" where
  "sg_Delay now delay ip s = s\<lparr>sc_tasks := sc_tasks s @ [(time_Add now delay, ip)]\<rparr>"

definition schedule_request ::
  "duration \<Rightarrow> addr \<Rightarrow> instant \<Rightarrow> (int \<Rightarrow> int) \<Rightarrow> schedule_state \<Rightarrow> schedule_state outcome" where
  "schedule_request minDelay ip now draw s =
     (if \<not> IsMulticast ip then
        bindO (Int63n draw maxRADelay) (\<lambda>r. Ok (sg_Delay now (wrap64 (r * 1)) ip s))
      else let delay = (if time_Sub now (sc_last s) < minDelay then minDelay else 0)
           in Ok (sg_Delay now delay ip (s\<lparr>sc_last := now\<rparr>)))"

text \<open>\<open>None\<close> while the loop has not returned.\<close>

fun schedule_loop ::
  "duration \<Rightarrow> sched_event list \<Rightarrow> schedule_state \<Rightarrow> unit outcome option \<times> schedule_state" where
  "schedule_loop minDelay [] s = (None, s)"
| "schedule_loop minDelay (WorkerError e # es) s = (Some (Err e), s\<lparr>sc_tasks := []\<rparr>)"
| "schedule_loop minDelay (ContextDone w # es) s =
     ((case w of
         None \<Rightarrow> Some (Ok ())
       | Some e \<Rightarrow> if e = Sentinel ContextCanceled then Some (Ok ()) else Some (Err e)), s)"
| "schedule_loop minDelay (Request ip now draw # es) s =
     (case schedule_request minDelay ip now draw s of
        Ok s' \<Rightarrow> schedule_loop minDelay es s'
      | Err e \<Rightarrow> (Some (Err e), s)
      | Panic p \<Rightarrow> (Some (Panic p), s))"


section \<open>The group and the run\<close>

text \<open>
  The function \<open>advertise\<close> hands to the listener, with the requests it has put into the scheduler's
  channel.
\<close>

definition on_message ::
  "adv_env \<Rightarrow> advertiser \<Rightarrow> ndp_message \<times> addr \<Rightarrow> adv_state \<times> addr list \<Rightarrow> unit outcome \<times> adv_state \<times> addr list" where
  "on_message env a msg st =
     (case handle env a (fst msg) (snd msg) (fst st) of
        (Err e, s) \<Rightarrow> (Err (FmtW ''failed to handle NDP message: %w'' e), s, snd st)
      | (Panic p, s) \<Rightarrow> (Panic p, s, snd st)
      | (Ok ip, s) \<Rightarrow> (Ok (), s, if addr_IsValid ip then snd st @ [ip] else snd st))"

text \<open>\<open>rs\<close> are the results of the goroutines in that order, \<open>parent\<close> the error of the caller's context.\<close>

definition advertise :: "go_error option list \<Rightarrow> go_error option \<Rightarrow> go_error option" where
  "advertise rs parent =
     (case group_Wait rs of
        Some e \<Rightarrow> Some (FmtW ''failed to run advertiser: %w'' e)
      | None \<Rightarrow> derived_Err parent)"

definition prepare_plugins :: "net_interface \<Rightarrow> plugin list \<Rightarrow> plugin list outcome" where
  "prepare_plugins ifi =
     mapO (\<lambda>p. wrapErr (FmtV ''failed to prepare plugin %q: %v'') (plugin_Prepare p ifi))"

text \<open>
  The function \<open>Run\<close> hands to the dialer.  \<open>work\<close> is what happens while the goroutines run: from the
  prepared advertiser and the state it gives their results, the context's error, and the state after.
\<close>

definition Run_fn ::
  "adv_env \<Rightarrow> adv_env \<Rightarrow> advertiser \<Rightarrow> bool \<Rightarrow> net_interface \<Rightarrow>
     (advertiser \<Rightarrow> adv_state \<Rightarrow> go_error option list \<times> go_error option \<times> adv_state) \<Rightarrow>
     adv_state \<Rightarrow> unit outcome \<times> advertiser \<times> adv_state" where
  "Run_fn env env' a0 terminate ifi work s =
     (case prepare_plugins ifi (ci_Plugins (adv_cfg a0)) of
        Err e \<Rightarrow> (Err e, a0, s)
      | Panic p \<Rightarrow> (Panic p, a0, s)
      | Ok ps \<Rightarrow>
          (let a = a0\<lparr>adv_cfg := (adv_cfg a0)\<lparr>ci_Plugins := ps\<rparr>\<rparr>
           in case send env IPv6LinkLocalAllNodes (adv_cfg a) s of
                (Err e, s1) \<Rightarrow> (Err (FmtV ''failed to send initial multicast router advertisement: %v'' e), a, s1)
              | (Panic p, s1) \<Rightarrow> (Panic p, a, s1)
              | (Ok _, s1) \<Rightarrow>
                  (case work a (s1\<lparr>av_Ready := True\<rparr>) of
                     (rs, parent, s2) \<Rightarrow>
                       (case advertise rs parent of
                          None \<Rightarrow> (Panic ''corerad: advertise must never return nil error'', a, s2)
                        | Some e \<Rightarrow>
                            if errors_is e ContextCanceled then
                              (case shutdown env' a terminate s2 of (r, s3) \<Rightarrow> (r, a, s3))
                            else (Err e, a, s2)))))"

end
