(* ===== verification/Verify_Facts.thy ===== *)
theory Verify_Facts
  imports Verify
begin

text \<open>
  What \<open>verifyRAs\<close> reports.  A check of one pair of items adds a fixed report to the problems found so
  far, and the report is empty exactly when the items agree; the locale \<open>pair_check\<close> lifts this to
  the two loops of the source, over all pairs and over equal positions.
\<close>

section \<open>Reports\<close>

definition mk_problem :: "string \<Rightarrow> string \<Rightarrow> any \<Rightarrow> any \<Rightarrow> problem" where
  "mk_problem field details want got =
     \<lparr>pb_Field = field, pb_Details = details,
      pb_Message = (if is_string want \<and> is_string got \<or> is_stringer want \<and> is_stringer got
                    then WantGotQuoted want got else WantGot want got)\<rparr>"

definition report_when :: "bool \<Rightarrow> string \<Rightarrow> string \<Rightarrow> any \<Rightarrow> any \<Rightarrow> problem list" where
  "report_when c field details want got = (if c then [mk_problem field details want got] else [])"

lemma report_when_Nil [simp]: "report_when c f d w g = [] \<longleftrightarrow> \<not> c"
  by (simp add: report_when_def)

lemma push_same_type:
  "type_of w = type_of g \<Longrightarrow> push f d w g ps = Ok (ps @ report_when True f d w g)"
  by (simp add: push_def newProblem_def report_when_def mk_problem_def)

lemma push_when_same_type:
  "type_of w = type_of g \<Longrightarrow> push_when c f d w g ps = Ok (ps @ report_when c f d w g)"
  by (simp add: push_when_def push_same_type report_when_def)

lemmas push_reports = push_same_type push_when_same_type


section \<open>The contract of a pairwise check\<close>

locale pair_check =
  fixes check :: "'x \<Rightarrow> 'x \<Rightarrow> problem list \<Rightarrow> problem list outcome"
    and report :: "'x \<Rightarrow> 'x \<Rightarrow> problem list"
    and agree :: "'x \<Rightarrow> 'x \<Rightarrow> bool"
  assumes check_report: "check a b ps = Ok (ps @ report a b)"
    and report_agree: "report a b = [] \<longleftrightarrow> agree a b"
    and agree_sym: "agree a b \<Longrightarrow> agree b a"
begin

text \<open>The loop over all pairs.\<close>

definition cross_report :: "(ptr \<times> 'x) list \<Rightarrow> (ptr \<times> 'x) list \<Rightarrow> problem list" where
  "cross_report xs ys = concat (map (\<lambda>a. concat (map (\<lambda>b. report (snd a) (snd b)) ys)) xs)"

lemma cross_loop:
  "foldO (\<lambda>ps a. foldO (\<lambda>ps b. check (snd a) (snd b) ps) ps ys) ps xs = Ok (ps @ cross_report xs ys)"
proof -
  have inner: "foldO (\<lambda>ps b. check (snd a) (snd b) ps) qs ys
      = Ok (qs @ concat (map (\<lambda>b. report (snd a) (snd b)) ys))" for a :: "ptr \<times> 'x" and qs
    by (rule foldO_collect) (simp add: check_report)
  show ?thesis
    unfolding cross_report_def by (rule foldO_collect) (simp add: inner)
qed

lemma cross_report_Nil:
  "cross_report xs ys = [] \<longleftrightarrow> (\<forall>a \<in> set xs. \<forall>b \<in> set ys. agree (snd a) (snd b))"
  by (auto simp: cross_report_def report_agree)

text \<open>The loop over positions of two lists of the same length.\<close>

definition zip_report :: "(ptr \<times> 'x) list \<Rightarrow> (ptr \<times> 'x) list \<Rightarrow> problem list" where
  "zip_report xs ys = concat (map (\<lambda>i. report (snd (xs ! i)) (snd (ys ! i))) [0..<length xs])"

lemma zip_loop:
  assumes "n = length xs"
  shows "foldO (\<lambda>ps i. check (snd (xs ! i)) (snd (ys ! i)) ps) ps [0..<n] = Ok (ps @ zip_report xs ys)"
  unfolding zip_report_def assms by (rule foldO_collect) (simp add: check_report)

lemma zip_report_Nil:
  assumes "length xs = length ys"
  shows "zip_report xs ys = [] \<longleftrightarrow> list_all2 agree (map snd xs) (map snd ys)"
  using assms by (auto simp: zip_report_def report_agree list_all2_conv_all_nth)

lemma zip_agree_sym: "list_all2 agree xs ys \<Longrightarrow> list_all2 agree ys xs"
  by (auto simp: list_all2_conv_all_nth intro: agree_sym)

end


section \<open>The four pairwise checks\<close>

definition prefix_report :: "prefix_information \<Rightarrow> prefix_information \<Rightarrow> problem list" where
  "prefix_report a b =
     (if pi_Prefix a \<noteq> pi_Prefix b \<or> pi_PrefixLength a \<noteq> pi_PrefixLength b then []
      else report_when (pi_PreferredLifetime a \<noteq> pi_PreferredLifetime b)
             ''prefix_information_preferred_lifetime'' (prefixStr a)
             (AnyDuration (pi_PreferredLifetime a)) (AnyDuration (pi_PreferredLifetime b)) @
           report_when (pi_ValidLifetime a \<noteq> pi_ValidLifetime b)
             ''prefix_information_valid_lifetime'' (prefixStr a)
             (AnyDuration (pi_ValidLifetime a)) (AnyDuration (pi_ValidLifetime b)))"

definition prefix_agree :: "prefix_information \<Rightarrow> prefix_information \<Rightarrow> bool" where
  "prefix_agree a b \<longleftrightarrow>
     (pi_Prefix a = pi_Prefix b \<and> pi_PrefixLength a = pi_PrefixLength b \<longrightarrow>
      pi_PreferredLifetime a = pi_PreferredLifetime b \<and> pi_ValidLifetime a = pi_ValidLifetime b)"

definition route_report :: "route_information \<Rightarrow> route_information \<Rightarrow> problem list" where
  "route_report a b =
     (if ri_Prefix a \<noteq> ri_Prefix b \<or> ri_PrefixLength a \<noteq> ri_PrefixLength b then []
      else report_when (ri_Preference a = ri_Preference b \<and> ri_RouteLifetime a \<noteq> ri_RouteLifetime b)
             ''route_information_lifetime'' (routeStr a)
             (AnyDuration (ri_RouteLifetime a)) (AnyDuration (ri_RouteLifetime b)))"

definition route_agree :: "route_information \<Rightarrow> route_information \<Rightarrow> bool" where
  "route_agree a b \<longleftrightarrow>
     (ri_Prefix a = ri_Prefix b \<and> ri_PrefixLength a = ri_PrefixLength b \<and>
      ri_Preference a = ri_Preference b \<longrightarrow> ri_RouteLifetime a = ri_RouteLifetime b)"

lemma all_equal_iff: "length as = length bs \<Longrightarrow> all_equal as bs \<longleftrightarrow> as = bs"
  unfolding all_equal_def list_all_iff by (auto intro: nth_equalityI)

definition rdnss_report :: "recursive_dns_server \<Rightarrow> recursive_dns_server \<Rightarrow> problem list" where
  "rdnss_report a b =
     report_when (rd_Lifetime a \<noteq> rd_Lifetime b) ''rdnss_lifetime'' ''''
       (AnyDuration (rd_Lifetime a)) (AnyDuration (rd_Lifetime b)) @
     report_when (rd_Servers a \<noteq> rd_Servers b) ''rdnss_servers'' ''''
       (AnyString (ipsStr (rd_Servers a))) (AnyString (ipsStr (rd_Servers b)))"

definition dnssl_report :: "dns_search_list \<Rightarrow> dns_search_list \<Rightarrow> problem list" where
  "dnssl_report a b =
     report_when (sl_Lifetime a \<noteq> sl_Lifetime b) ''dnssl_lifetime'' ''''
       (AnyDuration (sl_Lifetime a)) (AnyDuration (sl_Lifetime b)) @
     report_when (sl_DomainNames a \<noteq> sl_DomainNames b) ''dnssl_domain_names'' ''''
       (AnyString (join_names (sl_DomainNames a))) (AnyString (join_names (sl_DomainNames b)))"

interpretation prefix_check: pair_check check_prefix_pair prefix_report prefix_agree
  by unfold_locales (auto simp: check_prefix_pair_def push_reports prefix_report_def prefix_agree_def)

interpretation route_check: pair_check check_route_pair route_report route_agree
  by unfold_locales (auto simp: check_route_pair_def push_reports route_report_def route_agree_def)

interpretation rdnss_check: pair_check check_rdnss_pair rdnss_report "(=)"
proof unfold_locales
  show "check_rdnss_pair a b ps = Ok (ps @ rdnss_report a b)" for a b ps
    by (cases "rd_Servers a = rd_Servers b"; cases "length (rd_Servers a) = length (rd_Servers b)")
      (auto simp: check_rdnss_pair_def push_reports rdnss_report_def all_equal_iff)
qed (auto simp: rdnss_report_def)

interpretation dnssl_check: pair_check check_dnssl_pair dnssl_report "(=)"
proof unfold_locales
  show "check_dnssl_pair a b ps = Ok (ps @ dnssl_report a b)" for a b ps
    by (cases "sl_DomainNames a = sl_DomainNames b"; cases "length (sl_DomainNames a) = length (sl_DomainNames b)")
      (auto simp: check_dnssl_pair_def push_reports dnssl_report_def all_equal_iff)
qed (auto simp: dnssl_report_def)


section \<open>Consistency\<close>

text \<open>
  The relation the checks decide, by the options of each type in their order.  MTU and captive portal
  are compared by the address of the first option of the type, everything else by value.
\<close>

definition headers_agree :: "router_advertisement \<Rightarrow> router_advertisement \<Rightarrow> bool" where
  "headers_agree a b \<longleftrightarrow>
     ra_CurrentHopLimit a = ra_CurrentHopLimit b \<and>
     ra_ManagedConfiguration a = ra_ManagedConfiguration b \<and>
     ra_OtherConfiguration a = ra_OtherConfiguration b \<and>
     (ra_ReachableTime a = 0 \<or> ra_ReachableTime b = 0 \<or> ra_ReachableTime a = ra_ReachableTime b) \<and>
     (ra_RetransmitTimer a = 0 \<or> ra_RetransmitTimer b = 0 \<or> ra_RetransmitTimer a = ra_RetransmitTimer b)"

definition values_of :: "(ndp_option \<Rightarrow> 'a option) \<Rightarrow> router_advertisement \<Rightarrow> 'a list" where
  "values_of as a = List.map_filter (\<lambda>p. as (snd p)) (ra_Options a)"

definition addresses_of :: "(ndp_option \<Rightarrow> 'a option) \<Rightarrow> router_advertisement \<Rightarrow> ptr list" where
  "addresses_of as a = map fst (filter (\<lambda>p. as (snd p) \<noteq> None) (ra_Options a))"

definition same_object :: "(ndp_option \<Rightarrow> 'a option) \<Rightarrow> router_advertisement \<Rightarrow> router_advertisement \<Rightarrow> bool" where
  "same_object as a b \<longleftrightarrow>
     addresses_of as a = [] \<or> addresses_of as b = [] \<or> hd (addresses_of as a) = hd (addresses_of as b)"

definition both_or_neither :: "'a list \<Rightarrow> 'a list \<Rightarrow> bool" where
  "both_or_neither xs ys \<longleftrightarrow> xs = [] \<or> ys = [] \<or> xs = ys"

definition values_agree :: "router_advertisement \<Rightarrow> router_advertisement \<Rightarrow> bool" where
  "values_agree a b \<longleftrightarrow>
     headers_agree a b \<and>
     (\<forall>p \<in> set (values_of as_PrefixInformation a). \<forall>q \<in> set (values_of as_PrefixInformation b). prefix_agree p q) \<and>
     (\<forall>p \<in> set (values_of as_RouteInformation a). \<forall>q \<in> set (values_of as_RouteInformation b). route_agree p q) \<and>
     both_or_neither (values_of as_RecursiveDNSServer a) (values_of as_RecursiveDNSServer b) \<and>
     both_or_neither (values_of as_DNSSearchList a) (values_of as_DNSSearchList b)"

definition consistent :: "router_advertisement \<Rightarrow> router_advertisement \<Rightarrow> bool" where
  "consistent a b \<longleftrightarrow>
     values_agree a b \<and> same_object as_MTU a b \<and> same_object as_CaptivePortal a b"

text \<open>The picked options are the options of their type.\<close>

lemma pick_values: "map snd (pick as (ra_Options a)) = values_of as a"
proof -
  have "map snd (pick as ps) = List.map_filter (\<lambda>p. as (snd p)) ps" for ps
    by (induction ps) (auto simp: map_filter_simps split: option.splits)
  then show ?thesis by (simp add: values_of_def)
qed

lemma pick_length: "length (pick as (ra_Options a)) = length (values_of as a)"
  by (simp flip: pick_values)

lemma pickFirst_address:
  "map_option fst (pickFirst as (ra_Options a)) =
     (if addresses_of as a = [] then None else Some (hd (addresses_of as a)))"
proof -
  have "map_option fst (pickFirst as ps) =
      (case map fst (filter (\<lambda>p. as (snd p) \<noteq> None) ps) of [] \<Rightarrow> None | q # _ \<Rightarrow> Some q)" for ps
    by (induction ps) (auto split: option.splits)
  then show ?thesis by (auto simp: addresses_of_def split: list.split)
qed

lemma addresses_values: "addresses_of as a = [] \<longleftrightarrow> values_of as a = []"
proof -
  have "filter (\<lambda>p. as (snd p) \<noteq> None) ps = [] \<longleftrightarrow> List.map_filter (\<lambda>p. as (snd p)) ps = []" for ps
    by (induction ps) (auto simp: map_filter_simps split: option.splits)
  then show ?thesis by (simp add: addresses_of_def values_of_def)
qed

lemma pickFirst_same:
  "same_object as a b \<longleftrightarrow>
     (\<forall>p q. pickFirst as (ra_Options a) = Some p \<longrightarrow> pickFirst as (ra_Options b) = Some q \<longrightarrow> fst p = fst q)"
  using pickFirst_address[of as a] pickFirst_address[of as b]
  by (auto simp: same_object_def split: if_splits)

text \<open>Options of different objects have different addresses, so that two of a kind never pass.\<close>

definition at_most_one :: "(ndp_option \<Rightarrow> 'a option) \<Rightarrow> router_advertisement \<Rightarrow> router_advertisement \<Rightarrow> bool" where
  "at_most_one as a b \<longleftrightarrow> values_of as a = [] \<or> values_of as b = []"

lemma same_object_disjoint:
  assumes "fst ` set (ra_Options a) \<inter> fst ` set (ra_Options b) = {}"
  shows "same_object as a b \<longleftrightarrow> at_most_one as a b"
proof -
  have sub: "set (addresses_of as x) \<subseteq> fst ` set (ra_Options x)" for x by (auto simp: addresses_of_def)
  have "hd (addresses_of as a) \<noteq> hd (addresses_of as b)" if "addresses_of as a \<noteq> []" "addresses_of as b \<noteq> []"
    using hd_in_set[OF that(1)] hd_in_set[OF that(2)] sub[of a] sub[of b] assms by force
  then show ?thesis by (auto simp: same_object_def at_most_one_def addresses_values)
qed

text \<open>A check that always returns, with an empty result exactly when \<open>P\<close> holds.\<close>

definition decides :: "problem list outcome \<Rightarrow> bool \<Rightarrow> bool" where
  "decides c P \<longleftrightarrow> (\<exists>ps. c = Ok ps \<and> (ps = [] \<longleftrightarrow> P))"

lemma decides_Ok [simp]: "decides (Ok ps) P \<longleftrightarrow> (ps = [] \<longleftrightarrow> P)"
  by (simp add: decides_def)

lemma decides_bind:
  assumes "decides c P" and "\<And>ps. decides (k ps) (ps = [] \<and> Q)"
  shows "decides (bindO c k) (P \<and> Q)"
proof -
  obtain ps where "c = Ok ps" "ps = [] \<longleftrightarrow> P" using assms(1) by (auto simp: decides_def)
  then show ?thesis using assms(2)[of ps] by simp
qed

lemma decides_merge: "decides c Q \<Longrightarrow> decides (merge c ps) (ps = [] \<and> Q)"
  by (auto simp: decides_def merge_def)

lemma decides_bind_merge:
  assumes "decides c P" and "\<And>ps. decides (k ps) (ps = [] \<and> Q)"
  shows "decides (bindO (merge c qs) k) (qs = [] \<and> P \<and> Q)"
  using decides_bind[OF decides_merge[OF assms(1)] assms(2)] by (simp add: conj_assoc)

lemma checkRAs_decides: "decides (checkRAs a b) (headers_agree a b)"
  by (auto simp: checkRAs_def push_reports headers_agree_def checkDurations_def)

lemma checkMTUs_decides:
  "decides (checkMTUs (ra_Options a) (ra_Options b)) (same_object as_MTU a b)"
  by (auto simp: checkMTUs_def push_reports pickFirst_same split: option.split)

lemma checkCaptivePortal_decides:
  "decides (checkCaptivePortal (ra_Options a) (ra_Options b)) (same_object as_CaptivePortal a b)"
  by (auto simp: checkCaptivePortal_def push_reports pickFirst_same split: option.split)

lemma checkPrefixes_decides:
  "decides (checkPrefixes (ra_Options a) (ra_Options b))
     (\<forall>p \<in> set (values_of as_PrefixInformation a). \<forall>q \<in> set (values_of as_PrefixInformation b). prefix_agree p q)"
  by (auto simp: checkPrefixes_def Let_def prefix_check.cross_loop prefix_check.cross_report_Nil simp flip: pick_values)

lemma checkRoutes_decides:
  "decides (checkRoutes (ra_Options a) (ra_Options b))
     (\<forall>p \<in> set (values_of as_RouteInformation a). \<forall>q \<in> set (values_of as_RouteInformation b). route_agree p q)"
  by (auto simp: checkRoutes_def Let_def route_check.cross_loop route_check.cross_report_Nil simp flip: pick_values)

lemma checkRDNSS_decides:
  "decides (checkRDNSS (ra_Options a) (ra_Options b))
     (both_or_neither (values_of as_RecursiveDNSServer a) (values_of as_RecursiveDNSServer b))"
  by (auto simp: checkRDNSS_def Let_def rdnss_check.zip_loop rdnss_check.zip_report_Nil
      both_or_neither_def push_reports list.rel_eq simp flip: pick_values dest: map_eq_imp_length_eq)

lemma checkDNSSL_decides:
  "decides (checkDNSSL (ra_Options a) (ra_Options b))
     (both_or_neither (values_of as_DNSSearchList a) (values_of as_DNSSearchList b))"
  by (auto simp: checkDNSSL_def Let_def dnssl_check.zip_loop dnssl_check.zip_report_Nil
      both_or_neither_def push_reports list.rel_eq simp flip: pick_values dest: map_eq_imp_length_eq)

lemma consistent_parts:
  "consistent a b \<longleftrightarrow>
     headers_agree a b \<and> same_object as_MTU a b \<and>
     (\<forall>p \<in> set (values_of as_PrefixInformation a). \<forall>q \<in> set (values_of as_PrefixInformation b). prefix_agree p q) \<and>
     (\<forall>p \<in> set (values_of as_RouteInformation a). \<forall>q \<in> set (values_of as_RouteInformation b). route_agree p q) \<and>
     both_or_neither (values_of as_RecursiveDNSServer a) (values_of as_RecursiveDNSServer b) \<and>
     both_or_neither (values_of as_DNSSearchList a) (values_of as_DNSSearchList b) \<and>
     same_object as_CaptivePortal a b"
  unfolding consistent_def values_agree_def by blast

lemma verifyRAs_decides: "decides (verifyRAs a b) (consistent a b)"
  unfolding verifyRAs_def consistent_parts
  by (intro decides_bind decides_bind_merge decides_merge checkRAs_decides checkMTUs_decides
      checkPrefixes_decides checkRoutes_decides checkRDNSS_decides checkDNSSL_decides
      checkCaptivePortal_decides)

lemma consistent_sym: "consistent a b \<Longrightarrow> consistent b a"
proof -
  have "headers_agree a b \<Longrightarrow> headers_agree b a" by (auto simp: headers_agree_def)
  moreover have "same_object as a b \<Longrightarrow> same_object as b a" for as :: "ndp_option \<Rightarrow> 'z option"
    by (auto simp: same_object_def)
  moreover have "both_or_neither x y \<Longrightarrow> both_or_neither y x" for x y :: "'z list"
    by (auto simp: both_or_neither_def)
  ultimately show "consistent a b \<Longrightarrow> consistent b a"
    unfolding consistent_parts by (meson prefix_check.agree_sym route_check.agree_sym same_object_def)
qed

text \<open>Problems found by a part stay in the result.\<close>

lemma merge_Ok_iff: "merge c ps = Ok qs \<longleftrightarrow> (\<exists>rs. c = Ok rs \<and> qs = ps @ rs)"
  by (auto simp: merge_def bindO_Ok_iff)

lemma verifyRAs_includes:
  assumes "verifyRAs a b = Ok ps"
  shows "\<exists>qs. checkMTUs (ra_Options a) (ra_Options b) = Ok qs \<and> set qs \<subseteq> set ps"
    and "\<exists>qs. checkCaptivePortal (ra_Options a) (ra_Options b) = Ok qs \<and> set qs \<subseteq> set ps"
  using assms by (auto simp: verifyRAs_def bindO_Ok_iff merge_Ok_iff)

lemma pickFirst_below: "opts_below h ps \<Longrightarrow> pickFirst as ps = Some p \<Longrightarrow> fst p < h"
  by (induction ps) (auto split: option.splits)

end
