(* ===== verification/Advertise_Facts.thy ===== *)
theory Advertise_Facts
  imports Advertise Verify_Facts Config_Invariant
begin

text \<open>
  Facts about the advertiser: the delays of the generator, the order and spacing of the scheduled
  advertisements, what is sent, and how messages are answered.
\<close>

section \<open>Delays\<close>

definition rng_ok :: "(int \<Rightarrow> int) \<Rightarrow> bool" where
  "rng_ok draw \<longleftrightarrow> (\<forall>n. 0 < n \<longrightarrow> 0 \<le> draw n \<and> draw n < n)"

lemma Int63n_Ok: "0 < n \<Longrightarrow> Int63n draw n = Ok (draw n)"
  by (simp add: Int63n_def)

text \<open>Rounding to seconds keeps bounds that are whole seconds.\<close>

lemma dur_Round_bounds:
  assumes "0 \<le> a" and "a * Second \<le> d" and "d \<le> b * Second" and "b * Second \<le> 2 ^ 62"
  shows "a * Second \<le> dur_Round d Second" and "dur_Round d Second \<le> b * Second"
    and "Second dvd dur_Round d Second"
proof -
  have d: "0 \<le> d" using assms(1,2) by simp
  have fit: "d + Second \<le> max_int64" using assms(3,4) by (simp add: max_int64_def)
  have r: "dur_Round d Second = Second * ((2 * d + Second) div (2 * Second))"
    using dur_Round_nonneg[OF d _ fit] by simp
  have "a = (2 * (a * Second) + Second) div (2 * Second)" by simp
  also have "\<dots> \<le> (2 * d + Second) div (2 * Second)" using assms(2) by (intro zdiv_mono1) simp_all
  finally show "a * Second \<le> dur_Round d Second" unfolding r by simp
  have "(2 * d + Second) div (2 * Second) \<le> (2 * (b * Second) + Second) div (2 * Second)"
    using assms(3) by (intro zdiv_mono1) simp_all
  also have "\<dots> = b" by simp
  finally show "dur_Round d Second \<le> b * Second" unfolding r by simp
  show "Second dvd dur_Round d Second" unfolding r by simp
qed

lemma multicastDelay_bounds:
  assumes rng: "rng_ok draw" and a: "0 \<le> a" "a * Second \<le> mn" and le: "mn \<le> mx"
    and b: "mx \<le> b * Second" "b * Second \<le> 2 ^ 62"
  shows "\<exists>d. multicastDelay draw i mn mx = Ok d \<and> Second dvd d \<and> d \<le> b * Second \<and>
    (a * Second \<le> d \<or> (i < maxInitialAdv \<and> d = maxInitialAdvInterval)) \<and>
    (i < maxInitialAdv \<longrightarrow> d \<le> maxInitialAdvInterval)"
proof -
  define raw where "raw = (if mn = mx then mx else mn + draw (mx - mn))"
  have raw: "mn \<le> raw" "raw \<le> mx"
    using rng le by (auto simp: raw_def rng_ok_def) (smt (verit))
  have fit: "wrap64 x = x" if "- (2 ^ 62) \<le> x" "x \<le> 2 ^ 62" for x
    using that by (intro wrap64_id) (simp add: in_int64_def min_int64_def max_int64_def)
  have small: "0 \<le> mn" "mx \<le> 2 ^ 62" using a b by simp_all
  define d0 where "d0 = dur_Round raw Second"
  have d0: "a * Second \<le> d0" "d0 \<le> b * Second" "Second dvd d0"
    using dur_Round_bounds[OF a(1), of raw b] a(2) b raw by (simp_all add: d0_def)
  have eq: "multicastDelay draw i mn mx =
      Ok (if i < maxInitialAdv \<and> maxInitialAdvInterval < d0 then maxInitialAdvInterval else d0)"
  proof (cases "mn = mx")
    case True
    then show ?thesis using small le fit[of mx] by (simp add: multicastDelay_def d0_def raw_def)
  next
    case False
    have r: "0 \<le> draw (mx - mn)" "draw (mx - mn) < mx - mn" using rng False le by (auto simp: rng_ok_def)
    have "wrap64 (mx - mn) = mx - mn" "wrap64 (draw (mx - mn)) = draw (mx - mn)"
        "wrap64 (mn + draw (mx - mn)) = mn + draw (mx - mn)"
      using small le r by (simp_all add: fit)
    then show ?thesis
      using False le by (simp add: multicastDelay_def Int63n_def d0_def raw_def)
  qed
  have "Second dvd maxInitialAdvInterval" by (simp add: maxInitialAdvInterval_def)
  then show ?thesis using eq d0 by auto
qed

text \<open>Consecutive elements of a list.\<close>

fun successive :: "('a \<Rightarrow> 'a \<Rightarrow> bool) \<Rightarrow> 'a list \<Rightarrow> bool" where
  "successive P (x # y # ys) = (P x y \<and> successive P (y # ys))"
| "successive P _ = True"

lemma successive_iff_nth:
  "successive P xs \<longleftrightarrow> (\<forall>i. Suc i < length xs \<longrightarrow> P (xs ! i) (xs ! Suc i))"
proof (induction P xs rule: successive.induct)
  case (1 P x y ys)
  then show ?case by (simp add: All_less_Suc2)
qed auto

text \<open>
  The times at which the generator asks for multicast advertisements: the waits are at least the
  minimum interval and at most the maximum, rounded, and the first three are at most 16 seconds.
\<close>

lemma multicast_loop_first: "multicast_loop mn mx draw ctx n i t = (ts, st) \<Longrightarrow> ts = [] \<or> hd ts = t"
  by (cases n) (auto split: if_splits outcome.splits prod.splits)

lemma multicast_loop_waits:
  assumes "multicast_loop mn mx draw ctx n i t = (ts, st)"
    and rng: "\<forall>k. rng_ok (draw k)" and a: "0 \<le> a" "a \<le> 16" "a * Second \<le> mn" and le: "mn \<le> mx"
    and b: "mx \<le> b * Second" "b * Second \<le> 2 ^ 62"
  shows "st \<noteq> Panicked" and "successive (\<lambda>x y. a * Second \<le> y - x \<and> y - x \<le> b * Second) ts"
    and "\<forall>k. Suc k < length ts \<longrightarrow> i + k < maxInitialAdv \<longrightarrow> ts ! Suc k - ts ! k \<le> maxInitialAdvInterval"
proof -
  have "st \<noteq> Panicked \<and> successive (\<lambda>x y. a * Second \<le> y - x \<and> y - x \<le> b * Second) ts \<and>
      (\<forall>k. Suc k < length ts \<longrightarrow> i + k < maxInitialAdv \<longrightarrow> ts ! Suc k - ts ! k \<le> maxInitialAdvInterval)"
    using assms(1)
  proof (induction n arbitrary: i t ts)
    case 0
    then show ?case by auto
  next
    case (Suc n)
    obtain d where d: "multicastDelay (draw i) i mn mx = Ok d" "d \<le> b * Second" "a * Second \<le> d"
        "i < maxInitialAdv \<longrightarrow> d \<le> maxInitialAdvInterval"
      using multicastDelay_bounds[OF spec[OF rng] a(1,3) le b, of i i] a(2)
      by (auto simp: maxInitialAdvInterval_def)
    obtain us st' where us: "multicast_loop mn mx draw ctx n (Suc i) (time_Add t d) = (us, st')" by fastforce
    show ?case
    proof (cases "fst (ctx i) \<or> snd (ctx i)")
      case True
      then show ?thesis using Suc.prems d(1) by (auto split: if_splits)
    next
      case False
      then have ts: "ts = t # us" "st = st'" using Suc.prems d(1) us by auto
      have IH: "st' \<noteq> Panicked" "successive (\<lambda>x y. a * Second \<le> y - x \<and> y - x \<le> b * Second) us"
        "\<forall>k. Suc k < length us \<longrightarrow> Suc i + k < maxInitialAdv \<longrightarrow> us ! Suc k - us ! k \<le> maxInitialAdvInterval"
        using Suc.IH us ts(2) by blast+
      show ?thesis
      proof (cases us)
        case Nil
        then show ?thesis using IH(1) ts by simp
      next
        case (Cons u vs)
        then have u: "u = t + d" using multicast_loop_first[OF us] by (simp add: time_Add_def)
        have "ts ! Suc k - ts ! k \<le> maxInitialAdvInterval"
          if k: "Suc k < length ts" "i + k < maxInitialAdv" for k
          using k IH(3) d(4) u Cons ts(1) by (cases k) auto
        then show ?thesis using IH(1,2) ts d(2,3) u Cons by simp
      qed
    qed
  qed
  then show "st \<noteq> Panicked" "successive (\<lambda>x y. a * Second \<le> y - x \<and> y - x \<le> b * Second) ts"
    "\<forall>k. Suc k < length ts \<longrightarrow> i + k < maxInitialAdv \<longrightarrow> ts ! Suc k - ts ! k \<le> maxInitialAdvInterval"
    by blast+
qed


section \<open>The scheduler\<close>

lemma sg_Delay_tasks [simp]: "sc_tasks (sg_Delay now d ip s) = sc_tasks s @ [(now + d, ip)]"
  by (simp add: sg_Delay_def time_Add_def)

lemma sg_Delay_last [simp]: "sc_last (sg_Delay now d ip s) = sc_last s"
  by (simp add: sg_Delay_def)

text \<open>What one request schedules.\<close>

lemma schedule_request_spec:
  assumes "rng_ok draw"
  shows "\<exists>s' due. schedule_request minDelay ip now draw s = Ok s' \<and> sc_tasks s' = sc_tasks s @ [(due, ip)] \<and>
    (if IsMulticast ip
     then sc_last s' = now \<and> due = (if time_Sub now (sc_last s) < minDelay then now + minDelay else now)
     else sc_last s' = sc_last s \<and> now \<le> due \<and> due < now + maxRADelay)"
proof (cases "IsMulticast ip")
  case True
  then show ?thesis by (simp add: schedule_request_def Let_def)
next
  case False
  have r: "0 \<le> draw maxRADelay" "draw maxRADelay < maxRADelay"
    using assms by (auto simp: rng_ok_def maxRADelay_def)
  then have "wrap64 (draw maxRADelay) = draw maxRADelay"
    by (intro wrap64_id) (simp add: in_int64_def min_int64_def max_int64_def maxRADelay_def)
  then show ?thesis
    using False r by (simp add: schedule_request_def Int63n_def maxRADelay_def)
qed

text \<open>The run of the loop over requests only.\<close>

type_synonym request = "addr \<times> instant \<times> (int \<Rightarrow> int)"

definition as_event :: "request \<Rightarrow> sched_event" where
  "as_event r = (case r of (ip, now, draw) \<Rightarrow> Request ip now draw)"

definition multicast_dues :: "schedule_state \<Rightarrow> instant list" where
  "multicast_dues s = map fst (filter (\<lambda>t. IsMulticast (snd t)) (sc_tasks s))"

definition draws_ok :: "request list \<Rightarrow> bool" where
  "draws_ok rs \<longleftrightarrow> (\<forall>r \<in> set rs. rng_ok (snd (snd r)))"

definition clock_runs :: "instant \<Rightarrow> request list \<Rightarrow> bool" where
  "clock_runs t rs \<longleftrightarrow> sorted (t # map (fst \<circ> snd) rs)"

lemma schedule_loop_requests:
  assumes "draws_ok rs"
  shows "\<exists>s'. schedule_loop minDelay (map as_event rs) s = (None, s') \<and>
    map snd (sc_tasks s') = map snd (sc_tasks s) @ map fst rs"
  using assms
proof (induction rs arbitrary: s)
  case Nil
  then show ?case by simp
next
  case (Cons r rs)
  obtain ip now draw where r: "r = (ip, now, draw)" by (cases r)
  obtain s1 due where s1: "schedule_request minDelay ip now draw s = Ok s1"
      "sc_tasks s1 = sc_tasks s @ [(due, ip)]"
    using schedule_request_spec[of draw minDelay ip now s] Cons.prems r by (auto simp: draws_ok_def)
  have "draws_ok rs" using Cons.prems by (simp add: draws_ok_def)
  from Cons.IH[OF this, of s1] show ?case using s1 by (auto simp: r as_event_def)
qed

text \<open>
  The multicast advertisements are due in the order of their requests; the invariant relates the last
  due time to the last request.
\<close>

definition sched_inv :: "duration \<Rightarrow> schedule_state \<Rightarrow> bool" where
  "sched_inv minDelay s \<longleftrightarrow>
     sorted (multicast_dues s) \<and> (\<forall>d \<in> set (multicast_dues s). d \<le> sc_last s + minDelay)"

lemma multicast_dues_snoc:
  "sc_tasks s' = sc_tasks s @ [(due, ip)] \<Longrightarrow>
     multicast_dues s' = multicast_dues s @ (if IsMulticast ip then [due] else [])"
  by (simp add: multicast_dues_def)

lemma schedule_request_inv:
  assumes "schedule_request minDelay ip now draw s = Ok s'" and "rng_ok draw" and "sched_inv minDelay s"
    and "sc_last s \<le> now" and "0 \<le> minDelay"
  shows "sched_inv minDelay s'" and "sc_last s' \<le> now" and "sc_last s \<le> sc_last s'"
proof -
  obtain due where t: "sc_tasks s' = sc_tasks s @ [(due, ip)]"
    and d: "if IsMulticast ip
       then sc_last s' = now \<and> due = (if time_Sub now (sc_last s) < minDelay then now + minDelay else now)
       else sc_last s' = sc_last s"
    using schedule_request_spec[OF assms(2), of minDelay ip now s] assms(1) by (auto split: if_splits)
  note dues = multicast_dues_snoc[OF t]
  have sub: "time_Sub now (sc_last s) \<le> now - sc_last s" using assms(4) by (rule time_Sub_le)
  show "sc_last s' \<le> now" "sc_last s \<le> sc_last s'" using d assms(4) by (auto split: if_splits)
  show "sched_inv minDelay s'"
  proof (cases "IsMulticast ip")
    case True
    have "x \<le> due" if "x \<in> set (multicast_dues s)" for x
      using that assms(3,4,5) d True sub by (fastforce simp: sched_inv_def split: if_splits)
    then show ?thesis
      using assms(3,4,5) d True dues by (fastforce simp: sched_inv_def sorted_append split: if_splits)
  next
    case False
    then show ?thesis using assms(3) d dues by (simp add: sched_inv_def)
  qed
qed

lemma schedule_loop_order:
  assumes "schedule_loop minDelay (map as_event rs) s = (None, s')" and "draws_ok rs"
    and "clock_runs (sc_last s) rs" and "sched_inv minDelay s" and "0 \<le> minDelay"
  shows "sched_inv minDelay s'"
  using assms
proof (induction rs arbitrary: s)
  case Nil
  then show ?case by simp
next
  case (Cons r rs)
  obtain ip now draw where r: "r = (ip, now, draw)" by (cases r)
  have ok: "rng_ok draw" "draws_ok rs" using Cons.prems(2) r by (auto simp: draws_ok_def)
  obtain s1 where s1: "schedule_request minDelay ip now draw s = Ok s1"
    using schedule_request_spec[OF ok(1)] by blast
  have now: "sc_last s \<le> now" using Cons.prems(3) r by (simp add: clock_runs_def)
  note inv = schedule_request_inv[OF s1 ok(1) Cons.prems(4) now Cons.prems(5)]
  have "clock_runs (sc_last s1) rs"
    using Cons.prems(3) inv(2) r by (auto simp: clock_runs_def)
  then show ?case
    using Cons.IH[of s1] Cons.prems(1,5) s1 ok(2) inv(1) by (simp add: r as_event_def)
qed

text \<open>
  The scheduler keeps the RFC's distance between multicast advertisements when the requests themselves
  keep it: then no advertisement is delayed.
\<close>

lemma schedule_loop_spaced:
  assumes "schedule_loop minDelay (map as_event rs) s = (None, s')" and "draws_ok rs"
    and "\<forall>r \<in> set rs. IsMulticast (fst r)"
    and "successive (\<lambda>x y. minDelay \<le> y - x) (sc_last s # map (fst \<circ> snd) rs)"
    and "0 \<le> minDelay" and "minDelay \<le> max_int64"
  shows "sc_tasks s' = sc_tasks s @ map (\<lambda>r. (fst (snd r), fst r)) rs"
  using assms
proof (induction rs arbitrary: s)
  case Nil
  then show ?case by simp
next
  case (Cons r rs)
  obtain ip now draw where r: "r = (ip, now, draw)" by (cases r)
  have ok: "rng_ok draw" "draws_ok rs" using Cons.prems(2) r by (auto simp: draws_ok_def)
  have far: "minDelay \<le> now - sc_last s" using Cons.prems(4) r by simp
  then have "\<not> time_Sub now (sc_last s) < minDelay"
    using Cons.prems(5,6) by (simp add: time_Sub_def min_int64_def)
  then obtain s1 where s1: "schedule_request minDelay ip now draw s = Ok s1"
      "sc_tasks s1 = sc_tasks s @ [(now, ip)]" "sc_last s1 = now"
    using schedule_request_spec[OF ok(1), of minDelay ip now s] Cons.prems(3) r by auto
  have "successive (\<lambda>x y. minDelay \<le> y - x) (sc_last s1 # map (fst \<circ> snd) rs)"
    using Cons.prems(4) s1(3) r by (simp add: comp_def)
  then show ?case
    using Cons.IH[of s1] Cons.prems(1,3,5,6) s1 ok(2) by (simp add: r as_event_def comp_def)
qed


section \<open>Sending\<close>

text \<open>What a successful \<open>send\<close> adds to the connection.\<close>

definition advertised_header :: "adv_env \<Rightarrow> interface_config \<Rightarrow> router_advertisement \<Rightarrow> bool" where
  "advertised_header env cfg ra \<longleftrightarrow>
     (\<exists>fw. ae_Forwarding env (ci_Name cfg) = Ok fw \<and>
        ra_header ra = ra_header ((base_ra cfg)\<lparr>ra_RouterLifetime := effective_lifetime cfg fw\<rparr>))"

definition advertised_options :: "adv_env \<Rightarrow> interface_config \<Rightarrow> router_advertisement \<Rightarrow> bool" where
  "advertised_options env cfg ra \<longleftrightarrow>
     (\<exists>optss. mapO (plugin_options (ae_os env)) (ci_Plugins cfg) = Ok optss \<and>
        map snd (ra_Options ra) = concat optss)"

lemma buildRA_facts:
  assumes "buildRA env cfg s = (Ok ra, s')"
  shows "advertised_header env cfg ra" and "advertised_options env cfg ra"
    and "av_Sent s' = av_Sent s" and "av_Metrics s' = av_Metrics s" and "av_Hook s' = av_Hook s"
    and "av_Ready s' = av_Ready s" and "av_Heap s \<le> av_Heap s'"
proof -
  from assms obtain fw ms h where fw: "ae_Forwarding env (ci_Name cfg) = Ok fw"
    and r: "RouterAdvertisement_of (ae_os env) cfg fw (av_Heap s) = Ok (ra, ms, h)"
    and s': "s' = s\<lparr>av_Heap := h\<rparr>"
    by (auto simp: buildRA_def bindO_Ok_iff split: outcome.splits prod.splits)
  note facts = RouterAdvertisement_facts[OF r]
  show "advertised_header env cfg ra" "advertised_options env cfg ra"
    using fw facts(1,3) by (auto simp: advertised_header_def advertised_options_def)
  show "av_Sent s' = av_Sent s" "av_Metrics s' = av_Metrics s" "av_Hook s' = av_Hook s"
    "av_Ready s' = av_Ready s" "av_Heap s \<le> av_Heap s'"
    using s' facts(4) by simp_all
qed

lemma buildRA_below:
  assumes "buildRA env cfg s = (Ok ra, s')" and "plugins_allocated (av_Heap s) cfg"
  shows "opts_below (av_Heap s') (ra_Options ra)"
proof -
  from assms(1) obtain fw ms h where "RouterAdvertisement_of (ae_os env) cfg fw (av_Heap s) = Ok (ra, ms, h)"
    and "s' = s\<lparr>av_Heap := h\<rparr>"
    by (auto simp: buildRA_def bindO_Ok_iff split: outcome.splits prod.splits)
  then show ?thesis using RouterAdvertisement_below[of _ cfg fw "av_Heap s" ra ms h] assms(2) by (metis adv_state.select_convs(1) adv_state.surjective adv_state.update_convs(1))
qed

lemma buildRA_frame:
  assumes "buildRA env cfg s = (r, s')"
  shows "av_Sent s' = av_Sent s" and "av_Metrics s' = av_Metrics s" and "av_Hook s' = av_Hook s"
    and "av_Ready s' = av_Ready s"
  using assms by (auto simp: buildRA_def split: outcome.splits prod.splits)

lemma send_spec:
  assumes "send env dst cfg s = (r, s')"
  shows "av_Metrics s' = av_Metrics s" and "av_Hook s' = av_Hook s"
    and "av_Sent s' = av_Sent s \<or>
      (\<exists>ra. r = Ok () \<and> av_Sent s' = av_Sent s @ [(ra, dst)] \<and> advertised_header env cfg ra \<and>
        advertised_options env cfg ra \<and> \<not> (ci_UnicastOnly cfg \<and> IsMulticast dst))"
    and "r = Ok () \<Longrightarrow> av_Sent s' = av_Sent s \<Longrightarrow> ci_UnicastOnly cfg \<and> IsMulticast dst"
proof -
  obtain q s1 where b: "buildRA env cfg s = (q, s1)" by fastforce
  note fr = buildRA_frame[OF b]
  show "av_Metrics s' = av_Metrics s" "av_Hook s' = av_Hook s"
    using assms b fr by (auto simp: send_def split: if_splits outcome.splits)
  show "av_Sent s' = av_Sent s \<or>
      (\<exists>ra. r = Ok () \<and> av_Sent s' = av_Sent s @ [(ra, dst)] \<and> advertised_header env cfg ra \<and>
        advertised_options env cfg ra \<and> \<not> (ci_UnicastOnly cfg \<and> IsMulticast dst))"
    using assms b fr buildRA_facts(1,2)[of env cfg s _ s1]
    by (auto simp: send_def split: if_splits outcome.splits)
  have "length (av_Sent s') = Suc (length (av_Sent s))"
    if ok: "r = Ok ()" and mc: "\<not> (ci_UnicastOnly cfg \<and> IsMulticast dst)"
  proof -
    obtain ra where "s' = s1\<lparr>av_Sent := av_Sent s1 @ [(ra, dst)]\<rparr>"
      using assms b ok mc by (auto simp: send_def split: if_splits outcome.splits)
    then show ?thesis using fr(1) by simp
  qed
  then show "r = Ok () \<Longrightarrow> av_Sent s' = av_Sent s \<Longrightarrow> ci_UnicastOnly cfg \<and> IsMulticast dst"
    by fastforce
qed

lemma metric_add_fields [simp]:
  "av_Sent (metric_add n v l s) = av_Sent s" "av_Hook (metric_add n v l s) = av_Hook s"
  "av_Heap (metric_add n v l s) = av_Heap s" "av_Ready (metric_add n v l s) = av_Ready s"
  "av_Metrics (metric_add n v l s) = av_Metrics s @ [Metric n v l]"
  by (simp_all add: metric_add_def)

text \<open>Every call of the worker counts either one advertisement or one error.\<close>

definition counts :: "string \<Rightarrow> metric list \<Rightarrow> nat" where
  "counts name ms = length (filter (\<lambda>m. metric_name m = name) ms)"

lemma counts_simps [simp]:
  "counts n [] = 0" "counts n (m # ms) = (if metric_name m = n then 1 else 0) + counts n ms"
  "counts n (ms @ ms') = counts n ms + counts n ms'"
  by (simp_all add: counts_def)

lemma sendWorker_spec:
  assumes "sendWorker env cfg ip s = (r, s')" and "\<not> is_Panic r"
  shows "(is_Ok r \<longleftrightarrow> is_Ok (fst (send env ip cfg s))) \<and>
    av_Sent s' = av_Sent (snd (send env ip cfg s)) \<and>
    counts ''AdvRouterAdvertisementsTotal'' (av_Metrics s') =
      counts ''AdvRouterAdvertisementsTotal'' (av_Metrics s) + (if is_Ok r then 1 else 0) \<and>
    counts ''AdvErrorsTotal'' (av_Metrics s') =
      counts ''AdvErrorsTotal'' (av_Metrics s) + (if is_Ok r then 0 else 1) \<and>
    counts ''AdvLastMulticastTime'' (av_Metrics s') =
      counts ''AdvLastMulticastTime'' (av_Metrics s) + (if is_Ok r \<and> IsMulticast ip then 1 else 0)"
proof -
  obtain q s1 where q: "send env ip cfg s = (q, s1)" by fastforce
  have m: "av_Metrics s1 = av_Metrics s" using send_spec(1)[OF q] .
  show ?thesis
    using assms q by (cases q; cases "IsMulticast ip") (auto simp: sendWorker_def m Let_def)
qed

text \<open>The final advertisement of a terminating advertiser has router lifetime 0.\<close>

lemma base_ra_lifetime [simp]: "ra_RouterLifetime (base_ra c) = ci_DefaultLifetime c"
  by (simp add: base_ra_def)

lemma advertised_lifetime:
  "advertised_header env cfg ra \<Longrightarrow>
     \<exists>fw. ae_Forwarding env (ci_Name cfg) = Ok fw \<and> ra_RouterLifetime ra = effective_lifetime cfg fw"
  by (auto simp: advertised_header_def dest!: ra_header_lifetime)

lemma shutdown_spec:
  assumes "shutdown env a terminate s = (r, s')"
  shows "av_Sent s' = av_Sent s \<or>
    (\<exists>ra. terminate \<and> av_Sent s' = av_Sent s @ [(ra, IPv6LinkLocalAllNodes)] \<and> ra_RouterLifetime ra = 0 \<and>
      \<not> ci_UnicastOnly (adv_cfg a))"
    and "\<not> terminate \<Longrightarrow> s' = s"
proof -
  let ?cfg = "(adv_cfg a)\<lparr>ci_DefaultLifetime := 0\<rparr>"
  obtain q s1 where q: "send env IPv6LinkLocalAllNodes ?cfg s = (q, s1)" by fastforce
  have lt: "advertised_header env ?cfg ra \<Longrightarrow> ra_RouterLifetime ra = 0" for ra
    by (auto simp: effective_lifetime_def dest!: advertised_lifetime)
  have mc: "IsMulticast IPv6LinkLocalAllNodes" by (simp add: IPv6LinkLocalAllNodes_def)
  have s1: "\<not> terminate \<and> s' = s \<or> terminate \<and> s' = s1"
    using assms q by (auto simp: shutdown_def split: if_splits outcome.splits)
  show "av_Sent s' = av_Sent s \<or>
    (\<exists>ra. terminate \<and> av_Sent s' = av_Sent s @ [(ra, IPv6LinkLocalAllNodes)] \<and> ra_RouterLifetime ra = 0 \<and>
      \<not> ci_UnicastOnly (adv_cfg a))"
    using s1 send_spec(3)[OF q] lt mc by auto
  show "\<not> terminate \<Longrightarrow> s' = s" using s1 by simp
qed


section \<open>Answering messages\<close>

text \<open>Whom \<open>handle\<close> tells the scheduler to answer.\<close>

lemma handle_answer:
  assumes "handle env a m host s = (Ok ip, s')"
  shows "ip = (case m of
      RouterSolicitation _ \<Rightarrow> if IsUnspecified host then IPv6LinkLocalAllNodes else host
    | _ \<Rightarrow> AddrZero)"
  using assms by (auto simp: handle_def Let_def split: ndp_message.splits outcome.splits prod.splits if_splits)

lemma report_problems_frame:
  "av_Hook (fold (report_problem i) ps s) = av_Hook s"
  "av_Sent (fold (report_problem i) ps s) = av_Sent s"
  "counts ''AdvRouterAdvertisementInconsistenciesTotal'' (av_Metrics (fold (report_problem i) ps s)) =
     counts ''AdvRouterAdvertisementInconsistenciesTotal'' (av_Metrics s) + length ps"
  by (induction ps arbitrary: s) (auto simp: report_problem_def)

text \<open>The hook fires exactly when the received advertisement is not consistent with the own one.\<close>

lemma handle_ra:
  assumes "handle env a (RouterAdvertisement ra) host s = (r, s')" and "buildRA env (adv_cfg a) s = (Ok want, t)"
  shows "r = Ok AddrZero"
    and "av_Hook s' = av_Hook s @ (if adv_OnInconsistentRA a \<and> \<not> consistent want ra then [(want, ra)] else [])"
    and "counts ''AdvRouterAdvertisementInconsistenciesTotal'' (av_Metrics s') =
        counts ''AdvRouterAdvertisementInconsistenciesTotal'' (av_Metrics s) \<longleftrightarrow> consistent want ra"
proof -
  let ?s = "metric_add ''AdvMessagesReceivedTotal'' f_one
      [ci_Name (adv_cfg a), ae_TypeString env (RouterAdvertisement ra)] s"
  obtain t' where b: "buildRA env (adv_cfg a) ?s = (Ok want, t')"
    using assms(2) by (auto simp: buildRA_def split: outcome.splits prod.splits)
  obtain ps where ps: "verifyRAs want ra = Ok ps" "ps = [] \<longleftrightarrow> consistent want ra"
    using verifyRAs_decides[of want ra] by (auto simp: decides_def)
  note f = buildRA_facts[OF b]
  show "r = Ok AddrZero" using assms(1) b ps by (auto simp: handle_def Let_def split: if_splits)
  show "av_Hook s' = av_Hook s @ (if adv_OnInconsistentRA a \<and> \<not> consistent want ra then [(want, ra)] else [])"
    and "counts ''AdvRouterAdvertisementInconsistenciesTotal'' (av_Metrics s') =
        counts ''AdvRouterAdvertisementInconsistenciesTotal'' (av_Metrics s) \<longleftrightarrow> consistent want ra"
    using assms(1) b ps f(4,5) by (auto simp: handle_def Let_def report_problems_frame split: if_splits)
qed

lemma buildRA_generates:
  assumes "buildRA env cfg s = (Ok ra, t)"
  shows "\<exists>fw ms k. ae_Forwarding env (ci_Name cfg) = Ok fw \<and>
    RouterAdvertisement_of (ae_os env) cfg fw (av_Heap s) = Ok (ra, ms, k)"
  using assms by (auto simp: buildRA_def bindO_Ok_iff split: outcome.splits prod.splits)

end
