(* ===== verification/Listener.thy ===== *)
theory Listener
  imports Metric Ndp
begin

text \<open>
  \<open>internal/corerad/listener.go\<close>: receiving NDP messages with retries.  What happens at the \<open>k\<close>-th read
  of a connection is the record \<open>recv_env\<close> at \<open>k\<close>: the context before the read, the answer of the
  read, the context after a failed read, and the context at the end of a back-off.
\<close>

datatype read_result =
    ReadError go_error bool  \<comment> \<open>the error, and whether it is a \<open>net.Error\<close> that reports a timeout\<close>
  | ReadMessage ndp_message int addr  \<comment> \<open>with the hop limit and the source\<close>

record recv_env =
  re_Ctx :: "go_error option"
  re_Read :: read_result
  re_CtxAfter :: "go_error option"
  re_CtxBackoff :: "go_error option"

text \<open>The position in the sequence of reads, the metrics, and the time spent backing off.\<close>

record recv_state =
  rv_Reads :: nat
  rv_Metrics :: "metric list"
  rv_Waited :: duration

definition recv_retries :: nat where "recv_retries = 5"

definition backoff :: "nat \<Rightarrow> duration" where
  "backoff i = int i * 50 * Millisecond"

text \<open>The last \<open>n\<close> iterations of the loop, of which the next has index \<open>i\<close>.\<close>

fun receive_loop ::
  "ndp_pkg \<Rightarrow> (ndp_message \<Rightarrow> string) \<Rightarrow> string \<Rightarrow> (nat \<Rightarrow> recv_env) \<Rightarrow> nat \<Rightarrow> nat \<Rightarrow> recv_state \<Rightarrow>
     (ndp_message \<times> addr) outcome \<times> recv_state" where
  "receive_loop ndp tn iface env 0 i s = (Err (Sentinel ErrRetriesExhausted), s)"
| "receive_loop ndp tn iface env (Suc n) i s =
     (let e = env (rv_Reads s)
      in case re_Ctx e of
           Some cerr \<Rightarrow> (Err cerr, s)
         | None \<Rightarrow>
             (let s1 = s\<lparr>rv_Reads := Suc (rv_Reads s)\<rparr>
              in case re_Read e of
                   ReadError err timeout \<Rightarrow>
                     (case re_CtxAfter e of
                        Some cerr \<Rightarrow> (Err cerr, s1)
                      | None \<Rightarrow>
                          if timeout then
                            (case re_CtxBackoff e of
                               Some cerr \<Rightarrow> (Err cerr, s1)
                             | None \<Rightarrow>
                                 receive_loop ndp tn iface env n (Suc i)
                                   (s1\<lparr>rv_Waited := rv_Waited s1 + backoff i\<rparr>))
                          else (Err err, s1))
                 | ReadMessage m hopLimit host \<Rightarrow>
                     if hopLimit \<noteq> ndp_HopLimit ndp then
                       receive_loop ndp tn iface env n (Suc i)
                         (s1\<lparr>rv_Metrics := rv_Metrics s1 @
                            [Metric ''MessagesReceivedInvalidTotal'' f_one [iface, tn m]]\<rparr>)
                     else (Ok (m, host), s1)))"

definition receiveRetry ::
  "ndp_pkg \<Rightarrow> (ndp_message \<Rightarrow> string) \<Rightarrow> string \<Rightarrow> (nat \<Rightarrow> recv_env) \<Rightarrow> recv_state \<Rightarrow>
     (ndp_message \<times> addr) outcome \<times> recv_state" where
  "receiveRetry ndp tn iface env s = receive_loop ndp tn iface env recv_retries 0 s"

text \<open>
  How \<open>Listen\<close> ends.  Its deferred functions run in the reverse of the order in which they are
  deferred: the one that waits for the goroutine that interrupts the reads comes before the one that
  cancels the context that this goroutine waits for.  So a loop that ends while the caller's context is
  alive leaves \<open>Listen\<close> \<open>Waiting\<close>, with what it will return once that context ends.
\<close>

datatype listen_end = Ended "unit outcome" | Waiting "unit outcome"

text \<open>
  \<open>Listen\<close> with the caller's function and its state.  \<open>canceled k\<close> is whether the context has an
  error after the read that brought the position to \<open>k\<close> failed, \<open>interrupt\<close> what setting the read
  deadline returned.
\<close>

partial_function (option) Listen ::
  "ndp_pkg \<Rightarrow> (ndp_message \<Rightarrow> string) \<Rightarrow> string \<Rightarrow> (nat \<Rightarrow> recv_env) \<Rightarrow> (nat \<Rightarrow> bool) \<Rightarrow> unit outcome \<Rightarrow>
     (ndp_message \<times> addr \<Rightarrow> 's \<Rightarrow> unit outcome \<times> 's) \<Rightarrow> recv_state \<Rightarrow> 's \<Rightarrow>
     (listen_end \<times> recv_state \<times> 's) option" where
  [code]: "Listen ndp tn iface env canceled interrupt onMessage s t =
     (case receiveRetry ndp tn iface env s of
        (Err err, s1) \<Rightarrow>
          Some (if canceled (rv_Reads s1) then
                  Ended (wrapErr (FmtW ''failed to interrupt listener: %w'') interrupt)
                else Waiting (Err (FmtW ''failed to read NDP messages: %w'' err)), s1, t)
      | (Panic p, s1) \<Rightarrow> Some (Waiting (Panic p), s1, t)
      | (Ok (m, host), s1) \<Rightarrow>
          (case onMessage (m, WithZone host '''') t of
             (Ok _, t1) \<Rightarrow> Listen ndp tn iface env canceled interrupt onMessage s1 t1
           | (r, t1) \<Rightarrow> Some (Waiting r, s1, t1)))"


section \<open>Facts\<close>

lemma receive_loop_bounds:
  assumes "receive_loop ndp tn iface env n i s = (r, s')"
  shows "rv_Reads s \<le> rv_Reads s' \<and> rv_Reads s' \<le> rv_Reads s + n \<and>
    rv_Waited s \<le> rv_Waited s' \<and> rv_Waited s' \<le> rv_Waited s + (\<Sum>j = i..<i + n. backoff j)"
  using assms
proof (induction n arbitrary: i s)
  case 0
  then show ?case by simp
next
  case (Suc n)
  have sum: "(\<Sum>j = i..<i + Suc n. backoff j) = backoff i + (\<Sum>j = Suc i..<Suc i + n. backoff j)"
    by (simp add: sum.atLeast_Suc_lessThan)
  have nn: "0 \<le> (\<Sum>j = a..<b. backoff j)" "0 \<le> backoff a" for a b
    by (simp_all add: backoff_def sum_nonneg)
  let ?s1 = "s\<lparr>rv_Reads := Suc (rv_Reads s)\<rparr>"
  consider "s' = s" | "s' = ?s1"
    | "receive_loop ndp tn iface env n (Suc i) (?s1\<lparr>rv_Waited := rv_Waited s + backoff i\<rparr>) = (r, s')"
    | m where "receive_loop ndp tn iface env n (Suc i) (?s1\<lparr>rv_Metrics := rv_Metrics s @ [m]\<rparr>) = (r, s')"
    using Suc.prems by (auto simp: Let_def split: option.splits read_result.splits if_splits)
  then show ?case
  proof cases
    case 3
    from Suc.IH[OF 3] show ?thesis using nn(1)[of "Suc i" "Suc i + n"] nn(2)[of i] unfolding sum by simp
  next
    case 4
    from Suc.IH[OF 4] show ?thesis using nn(1)[of "Suc i" "Suc i + n"] nn(2)[of i] unfolding sum by simp
  qed (use nn(1)[of i "i + Suc n"] in auto)
qed

lemma receiveRetry_bounds:
  assumes "receiveRetry ndp tn iface env s = (r, s')"
  shows "rv_Reads s' \<le> rv_Reads s + 5" and "rv_Waited s' \<le> rv_Waited s + 500 * Millisecond"
proof -
  have "(\<Sum>j = 0..<0 + (5 :: nat). backoff j) = 500 * Millisecond"
    by (simp add: backoff_def eval_nat_numeral)
  then show "rv_Reads s' \<le> rv_Reads s + 5" "rv_Waited s' \<le> rv_Waited s + 500 * Millisecond"
    using receive_loop_bounds[OF assms[unfolded receiveRetry_def recv_retries_def]] by simp_all
qed

text \<open>A message that is returned was the last one read and has the right hop limit.\<close>

lemma receive_loop_Ok:
  assumes "receive_loop ndp tn iface env n i s = (Ok (m, host), s')"
  shows "rv_Reads s < rv_Reads s' \<and>
    re_Read (env (rv_Reads s' - 1)) = ReadMessage m (ndp_HopLimit ndp) host"
  using assms
proof (induction n arbitrary: i s)
  case 0
  then show ?case by simp
next
  case (Suc n)
  let ?s1 = "s\<lparr>rv_Reads := Suc (rv_Reads s)\<rparr>"
  consider "s' = ?s1" "re_Read (env (rv_Reads s)) = ReadMessage m (ndp_HopLimit ndp) host"
    | "receive_loop ndp tn iface env n (Suc i) (?s1\<lparr>rv_Waited := rv_Waited s + backoff i\<rparr>) = (Ok (m, host), s')"
    | x where "receive_loop ndp tn iface env n (Suc i) (?s1\<lparr>rv_Metrics := rv_Metrics s @ [x]\<rparr>) = (Ok (m, host), s')"
    using Suc.prems by (auto simp: Let_def split: option.splits read_result.splits if_splits)
  then show ?case
  proof cases
    case 2
    from Suc.IH[OF 2] show ?thesis by simp
  next
    case 3
    from Suc.IH[OF 3] show ?thesis by simp
  qed simp
qed

text \<open>Messages with a wrong hop limit use up the retries.\<close>

lemma receive_loop_invalid:
  assumes "\<forall>k. rv_Reads s \<le> k \<and> k < rv_Reads s + n \<longrightarrow>
      re_Ctx (env k) = None \<and> (\<exists>m h src. re_Read (env k) = ReadMessage m h src \<and> h \<noteq> ndp_HopLimit ndp)"
  shows "fst (receive_loop ndp tn iface env n i s) = Err (Sentinel ErrRetriesExhausted)"
  using assms
proof (induction n arbitrary: i s)
  case 0
  then show ?case by simp
next
  case (Suc n)
  obtain m h src where k: "re_Ctx (env (rv_Reads s)) = None"
      "re_Read (env (rv_Reads s)) = ReadMessage m h src" "h \<noteq> ndp_HopLimit ndp"
    using Suc.prems[rule_format, of "rv_Reads s"] by auto
  then show ?case
    using Suc.prems by (auto simp: Let_def intro!: Suc.IH)
qed

text \<open>Everything handed to the caller was read with the right hop limit, and has no zone.\<close>

definition valid_message :: "ndp_pkg \<Rightarrow> (nat \<Rightarrow> recv_env) \<Rightarrow> ndp_message \<times> addr \<Rightarrow> bool" where
  "valid_message ndp env msg \<longleftrightarrow>
     (\<exists>k src. re_Read (env k) = ReadMessage (fst msg) (ndp_HopLimit ndp) src \<and> snd msg = WithZone src '''')"

text \<open>
  The rule for facts about a run that has ended: \<open>P\<close> is kept by every message, \<open>Q\<close> holds of each of the
  three ways in which the loop ends.
\<close>

lemma Listen_rule [consumes 1, case_names message canceled failed callback]:
  assumes "Listen ndp tn iface env canceled interrupt onMessage s t = Some (e, s', t')" and "P t"
    and message: "\<And>msg t t1. valid_message ndp env msg \<Longrightarrow> P t \<Longrightarrow> onMessage msg t = (Ok (), t1) \<Longrightarrow> P t1"
    and canceled: "\<And>s1 t. P t \<Longrightarrow> canceled (rv_Reads s1) \<Longrightarrow>
      Q (Ended (wrapErr (FmtW ''failed to interrupt listener: %w'') interrupt)) s1 t"
    and failed: "\<And>s1 t r. P t \<Longrightarrow> \<not> is_Ok r \<Longrightarrow> Q (Waiting r) s1 t"
    and callback: "\<And>msg s1 t r t1. valid_message ndp env msg \<Longrightarrow> P t \<Longrightarrow> onMessage msg t = (r, t1) \<Longrightarrow> \<not> is_Ok r \<Longrightarrow>
      Q (Waiting r) s1 t1"
  shows "Q e s' t'"
proof -
  let ?R = "\<lambda>ndp' tn iface env' canceled' interrupt' onMessage' s t (y :: listen_end \<times> recv_state \<times> 'a).
     ndp' = ndp \<longrightarrow> env' = env \<longrightarrow> canceled' = canceled \<longrightarrow> interrupt' = interrupt \<longrightarrow> onMessage' = onMessage \<longrightarrow>
     P t \<longrightarrow> Q (fst y) (fst (snd y)) (snd (snd y))"
  have "?R ndp tn iface env canceled interrupt onMessage s t (e, s', t')"
    using assms(1)
  proof (rule Listen.raw_induct[where P = ?R, rotated])
    fix L ndp' tn iface env' canceled' interrupt' onMessage' s t y
    assume IH: "\<And>ndp' tn iface env' canceled' interrupt' onMessage' s t y.
        L ndp' tn iface env' canceled' interrupt' onMessage' s t = Some y \<Longrightarrow>
        ?R ndp' tn iface env' canceled' interrupt' onMessage' s t y"
      and run: "(case receiveRetry ndp' tn iface env' s of
        (Err err, s1) \<Rightarrow>
          Some (if canceled' (rv_Reads s1) then
                  Ended (wrapErr (FmtW ''failed to interrupt listener: %w'') interrupt')
                else Waiting (Err (FmtW ''failed to read NDP messages: %w'' err)), s1, t)
      | (Panic p, s1) \<Rightarrow> Some (Waiting (Panic p), s1, t)
      | (Ok (m, host), s1) \<Rightarrow>
          (case onMessage' (m, WithZone host '''') t of
             (Ok _, t1) \<Rightarrow> L ndp' tn iface env' canceled' interrupt' onMessage' s1 t1
           | (r, t1) \<Rightarrow> Some (Waiting r, s1, t1))) = Some y"
    show "?R ndp' tn iface env' canceled' interrupt' onMessage' s t y"
    proof (intro impI)
      assume eq: "ndp' = ndp" "env' = env" "canceled' = canceled" "interrupt' = interrupt" "onMessage' = onMessage"
        and Pt: "P t"
      obtain q s1 where q: "receiveRetry ndp tn iface env s = (q, s1)" by fastforce
      show "Q (fst y) (fst (snd y)) (snd (snd y))"
      proof (cases q)
        case (Ok msg)
        obtain m host where mh: "msg = (m, host)" by (cases msg)
        obtain u t1 where u: "onMessage (m, WithZone host '''') t = (u, t1)" by fastforce
        have v: "valid_message ndp env (m, WithZone host '''')"
          using receive_loop_Ok[OF q[unfolded Ok mh receiveRetry_def]] by (auto simp: valid_message_def)
        show ?thesis
        proof (cases u)
          case Ok': (Ok unit)
          then have "P t1" using message[OF v Pt] u by simp
          moreover have "L ndp tn iface env canceled interrupt onMessage s1 t1 = Some y"
            using run q Ok mh u eq Ok' by simp
          ultimately show ?thesis using IH by blast
        qed (use run q Ok mh u eq callback[OF v Pt u] in auto)
      qed (use run q eq canceled[OF Pt] failed[OF Pt] in auto)
    qed
  qed
  then show ?thesis using assms(2) by simp
qed

lemma Listen_invariant:
  assumes "Listen ndp tn iface env canceled interrupt onMessage s t = Some (e, s', t')" and "P t"
    and "\<And>msg t u t1. valid_message ndp env msg \<Longrightarrow> P t \<Longrightarrow> onMessage msg t = (u, t1) \<Longrightarrow> P t1"
  shows "P t'"
  using assms(1,2) by (rule Listen_rule) (use assms(3) in blast)+

text \<open>\<open>Listen\<close> returns only with the caller's context.\<close>

lemma Listen_returns:
  assumes "Listen ndp tn iface env canceled interrupt onMessage s t = Some (Ended r, s', t')"
  shows "canceled (rv_Reads s') \<and> r = wrapErr (FmtW ''failed to interrupt listener: %w'') interrupt"
proof -
  have "case Ended r of Ended r \<Rightarrow>
      canceled (rv_Reads s') \<and> r = wrapErr (FmtW ''failed to interrupt listener: %w'') interrupt | Waiting _ \<Rightarrow> True"
    using assms TrueI by (rule Listen_rule[where P = "\<lambda>_. True" and Q = "\<lambda>e s' t'. case e of Ended r \<Rightarrow>
      canceled (rv_Reads s') \<and> r = wrapErr (FmtW ''failed to interrupt listener: %w'') interrupt | Waiting _ \<Rightarrow> True"]) auto
  then show ?thesis by simp
qed

end
