(* ===== verification/Corerad_Properties.thy ===== *)
theory Corerad_Properties
  imports Dialer_Facts Advertise_Facts Listener Config_Properties
begin

text \<open>
  The properties of the running program: the dialer that prepares an interface and undoes it, the
  advertiser's generator, scheduler, sender and message handler, the comparison of advertisements, and
  the listener.
\<close>

section \<open>Comparing advertisements\<close>

text \<open>
  C12: the comparison of two advertisements always returns, and whether it reports anything does not
  depend on which of the two is the own one.  It reports nothing exactly when the header fields agree
  (an unspecified time agrees with any), a prefix or route that both carry has the same lifetimes, the
  DNS servers and search lists are equal where both carry some, and where both carry an MTU or
  a captive portal it is the same option object: these two are compared by address, not by value.
\<close>

theorem verification_decides:
  "(\<exists>ps. verifyRAs a b = Ok ps \<and>
      (ps = [] \<longleftrightarrow> values_agree a b \<and> same_object as_MTU a b \<and> same_object as_CaptivePortal a b)) \<and>
    (verifyRAs a b = Ok [] \<longleftrightarrow> verifyRAs b a = Ok [])"
proof -
  have iff: "verifyRAs x y = Ok [] \<longleftrightarrow> consistent x y" for x y
    using verifyRAs_decides[of x y] by (auto simp: decides_def)
  have "consistent a b \<longleftrightarrow> consistent b a" using consistent_sym by blast
  then show ?thesis using verifyRAs_decides[of a b] by (simp add: iff decides_def consistent_def)
qed


section \<open>The dialer\<close>

text \<open>
  C13: when the dialer returns, the autoconfiguration of every interface is what it was before, however
  often the connection was reinitialized in between.
\<close>

theorem dial_restores_autoconf:
  assumes "Dial systemState env d fn ds t = Some (r, ds', t')"
    and "system_writable (ds_Sys ds) (d_iface d)" and "\<not> is_Panic r"
  shows "getIPv6Autoconf (ds_Sys ds') j = getIPv6Autoconf (ds_Sys ds) j"
  using system.Dial_loop_restores[OF assms(1)[unfolded Dial_def] assms(2,3)]
  by (simp add: same_autoconf_def systemState_def)

definition demo_dial_env :: dial_env where
  "demo_dial_env =
     \<lparr>de_Ctx = None, de_InterfaceByName = Ok eth0, de_Addrs = Ok [IPNet ll_bytes 64],
      de_Listen = Ok (Addr6 0xfe800000000000000000000000000001 []), de_SetICMPFilter = Ok (),
      de_SetControlMessage = Ok (), de_JoinGroup = Ok ()\<rparr>"

definition demo_procfs :: procfs where
  "demo_procfs = [sysctl ''eth0'' ''autoconf'' \<mapsto> \<lparr>sf_Value = True, sf_ReadErr = None, sf_WriteErr = None\<rparr>]"

definition demo_dialer :: dialer where
  "demo_dialer = \<lparr>d_iface = ''eth0'', d_mode = Advertise\<rparr>"

definition demo_dialer_state :: "procfs dialer_state" where
  "demo_dialer_state = \<lparr>ds_Sys = demo_procfs, ds_Conns = {}, ds_Dials = 0, ds_Waited = 0\<rparr>"

text \<open>A function that loses its link as often as its state says and then ends.\<close>

definition flapping :: "dial_context \<Rightarrow> nat \<Rightarrow> unit outcome \<times> nat" where
  "flapping dctx n =
     (if 0 < n then Err (FmtW ''failed to run advertiser: %w'' (Sentinel ErrLinkChange)) else Ok (), n - 1)"

lemma demo_writable: "system_writable (ds_Sys demo_dialer_state) (d_iface demo_dialer)"
  by (simp add: system_writable_def demo_dialer_state_def demo_procfs_def demo_dialer_def)

lemma flapping_ends: "\<forall>dctx n e m. flapping dctx n = (Err e, m) \<longrightarrow> id m < id n"
  by (auto simp: flapping_def split: if_splits)

lemma demo_check: "has_link_local [IPNet ll_bytes 64]"
  by code_simp

lemma demo_dial:
  "dial systemState (\<lambda>_. demo_dial_env) demo_dialer ds =
     (case setAutoconf systemState demo_dialer
        (ds\<lparr>ds_Dials := Suc (ds_Dials ds), ds_Conns := insert (ds_Dials ds) (ds_Conns ds)\<rparr>) of
       (r, ds2) \<Rightarrow> (bindO r (\<lambda>prev. Ok \<lparr>dc_Conn = ds_Dials ds, dc_Interface = eth0,
          dc_IP = Addr6 0xfe800000000000000000000000000001 [], dc_Restore = Some prev\<rparr>), ds2))"
  by (simp add: dial_def Let_def demo_dial_env_def lookupInterface_def checkInterface_def eth0_def demo_check
      dialNDP_def demo_dialer_def del: has_link_local.simps)

definition demo_run :: "unit outcome \<times> procfs dialer_state \<times> nat" where
  "demo_run = the (Dial systemState (\<lambda>_. demo_dial_env) demo_dialer flapping demo_dialer_state 2)"

text \<open>The failures of a round that the dialer recovers from.\<close>

definition recoverable :: "go_error \<Rightarrow> bool" where
  "recoverable e \<longleftrightarrow>
     (case as_syscall e of
        Some serr \<Rightarrow> \<not> errors_is serr OsErrPermission
      | None \<Rightarrow> errors_is e ErrLinkNotReady \<or> errors_is e ErrLinkChange)"


text \<open>An interface that disappears after two dials, and a function whose link always changes.\<close>

definition vanishing_env :: "nat \<Rightarrow> dial_env" where
  "vanishing_env k =
     (if k < 2 then demo_dial_env
      else demo_dial_env\<lparr>de_InterfaceByName := Err (OpError ''route'' ''ip+net'' (Msg ''no such network interface''))\<rparr>)"

definition restless :: "dial_context \<Rightarrow> nat \<Rightarrow> unit outcome \<times> nat" where
  "restless dctx n = (Err (FmtW ''failed to run advertiser: %w'' (Sentinel ErrLinkChange)), Suc n)"


lemma demo_run_eq:
  "Dial systemState (\<lambda>_. demo_dial_env) demo_dialer flapping demo_dialer_state 2 =
     Some (fst demo_run, fst (snd demo_run), snd (snd demo_run))"
  using Dial_loop_terminates[OF flapping_ends, of systemState "\<lambda>_. demo_dial_env" demo_dialer None
      demo_dialer_state 2]
  by (auto simp: demo_run_def Dial_def)

lemma demo_run_Ok:
  "(case Dial systemState (\<lambda>_. demo_dial_env) demo_dialer flapping demo_dialer_state 2 of
      Some (Ok _, _) \<Rightarrow> True | _ \<Rightarrow> False)"
  by code_simp

theorem dial_restores_autoconf_witness:
  "getIPv6Autoconf (ds_Sys (fst (snd demo_run))) ''eth0'' = getIPv6Autoconf (ds_Sys demo_dialer_state) ''eth0''"
proof (rule dial_restores_autoconf[OF demo_run_eq demo_writable])
  show "\<not> is_Panic (fst demo_run)"
    using demo_run_Ok unfolding demo_run_eq by (cases "fst demo_run") auto
qed

text \<open>
  One initialization makes at most one dial and fifty more, and waits at most 130.5 seconds in
  all between them.
\<close>

theorem initialization_budget:
  assumes "dialer_init st env d err ds = (r, ds')"
  shows "ds_Dials ds' \<le> ds_Dials ds + 51 \<and> ds_Waited ds' \<le> ds_Waited ds + 130500 * Millisecond"
  using dialer_init_counts(1,2)[OF assms] by blast

definition absent_env :: dial_env where
  "absent_env = demo_dial_env\<lparr>de_InterfaceByName :=
     Err (OpError ''route'' ''ip+net'' (Msg ''no such network interface''))\<rparr>"

theorem initialization_budget_witness:
  "ds_Dials (snd (dialer_init systemState (\<lambda>_. absent_env) demo_dialer None demo_dialer_state))
      \<le> ds_Dials demo_dialer_state + 51 \<and>
    ds_Waited (snd (dialer_init systemState (\<lambda>_. absent_env) demo_dialer None demo_dialer_state))
      \<le> ds_Waited demo_dialer_state + 130500 * Millisecond"
  by (rule initialization_budget[OF prod.collapse[symmetric]])

text \<open>
  C38: a dial that fails after it opened its socket leaves the socket open.
\<close>

theorem failed_dial_leaks_socket:
  assumes "dial st env d ds = (Err e, ds')"
    and "\<exists>ip. de_Listen (env (ds_Dials ds)) = Ok ip"
    and "\<exists>ifi. lookupInterface (de_InterfaceByName (env (ds_Dials ds))) = Ok ifi \<and>
          checkInterface ifi (de_Addrs (env (ds_Dials ds))) = Ok ()"
  shows "ds_Conns ds' = insert (ds_Dials ds) (ds_Conns ds)"
  by (rule dial_leak[OF assms])

lemma leaking_dial:
  "dial systemState (\<lambda>_. demo_dial_env) demo_dialer (demo_dialer_state\<lparr>ds_Sys := Map.empty\<rparr>) =
     (Err (FmtV ''failed to get IPv6 autoconfiguration state on %q: %v''
        (PathError ''/proc/sys/net/ipv6/conf/eth0/autoconf'' (Errno ENOENT))),
      \<lparr>ds_Sys = Map.empty, ds_Conns = {0}, ds_Dials = 1, ds_Waited = 0\<rparr>)"
  unfolding demo_dial
  by (simp add: setAutoconf_def systemState_def getIPv6Autoconf_def sysctlBool_def ReadFile_def
      demo_dialer_state_def demo_dialer_def sysctl_def)

theorem failed_dial_leaks_socket_witness:
  "ds_Conns \<lparr>ds_Sys = Map.empty :: procfs, ds_Conns = {0}, ds_Dials = 1, ds_Waited = 0\<rparr> =
     insert (ds_Dials (demo_dialer_state\<lparr>ds_Sys := Map.empty\<rparr>)) (ds_Conns (demo_dialer_state\<lparr>ds_Sys := Map.empty\<rparr>))"
  by (rule failed_dial_leaks_socket[OF leaking_dial])
    (simp_all add: demo_dial_env_def lookupInterface_def checkInterface_def eth0_def demo_check
      del: has_link_local.simps)

section \<open>The request generator\<close>

text \<open>
  C14: for an interface of a parsed configuration the generator of unsolicited advertisements never
  panics, waits between two seconds and half an hour between requests, and at most 16 seconds after
  each of the first three.
\<close>

theorem generator_waits:
  assumes "interface_wf ndp epoch c" and "\<not> ci_Monitor c" and "\<forall>k. rng_ok (draw k)"
    and "multicast_loop (ci_MinInterval c) (ci_MaxInterval c) draw ctx n 0 t = (ts, st)"
  shows "st \<noteq> Panicked \<and> successive (\<lambda>x y. 2 * Second \<le> y - x \<and> y - x \<le> 1800 * Second) ts \<and>
    (\<forall>k < 3. Suc k < length ts \<longrightarrow> ts ! Suc k - ts ! k \<le> 16 * Second)"
proof -
  have b: "2 * Second \<le> ci_MinInterval c" "ci_MinInterval c \<le> ci_MaxInterval c" "ci_MaxInterval c \<le> 1800 * Second"
    using assms(1,2) by (auto simp: interface_wf_def)
  have f: "1800 * Second \<le> (2 :: int) ^ 62" by simp
  from multicast_loop_waits[OF assms(4,3) _ _ b(1,2) b(3) f] show ?thesis
    by (simp add: maxInitialAdv_def maxInitialAdvInterval_def)
qed

definition half_draw :: "nat \<Rightarrow> int \<Rightarrow> int" where
  "half_draw k n = n div 2"

lemma half_draw_ok: "\<forall>k. rng_ok (half_draw k)"
  by (auto simp: rng_ok_def half_draw_def)

definition demo_times :: "instant list" where
  "demo_times = [0, 16 * Second, 32 * Second, 48 * Second, 448 * Second]"

lemma demo_loop:
  "multicast_loop (200 * Second) (600 * Second) half_draw (\<lambda>_. (False, False)) 5 0 0 = (demo_times, Running)"
  by code_simp

lemma demo_interface_wf: "interface_wf demo_ndp 1 (demo_interface\<lparr>ci_Plugins := []\<rparr>)"
  by (simp add: interface_wf_def demo_interface_def plugins_wf_def prefixes_disjoint_def routes_disjoint_def
      pairwise_at_def)

theorem generator_waits_witness:
  "successive (\<lambda>x y. 2 * Second \<le> y - x \<and> y - x \<le> 1800 * Second) demo_times \<and>
    demo_times ! Suc 2 - demo_times ! 2 \<le> 16 * Second"
proof -
  have run: "multicast_loop (ci_MinInterval (demo_interface\<lparr>ci_Plugins := []\<rparr>))
      (ci_MaxInterval (demo_interface\<lparr>ci_Plugins := []\<rparr>)) half_draw (\<lambda>_. (False, False)) 5 0 0 = (demo_times, Running)"
    using demo_loop by (simp add: demo_interface_def)
  have "\<not> ci_Monitor (demo_interface\<lparr>ci_Plugins := []\<rparr>)" by (simp add: demo_interface_def)
  from generator_waits[OF demo_interface_wf this half_draw_ok run] show ?thesis
    by (simp add: demo_times_def)
qed


section \<open>The scheduler\<close>

text \<open>
  A request is never lost or refused: it adds one task for its destination.  A unicast answer is
  due within half a second; a multicast one at once, or after the minimum delay exactly when the last
  multicast request is closer than that.
\<close>

theorem request_scheduled:
  assumes "rng_ok draw"
  shows "\<exists>s' due. schedule_request minDelay ip now draw s = Ok s' \<and> sc_tasks s' = sc_tasks s @ [(due, ip)] \<and>
    (if IsMulticast ip
     then sc_last s' = now \<and> due = (if time_Sub now (sc_last s) < minDelay then now + minDelay else now)
     else sc_last s' = sc_last s \<and> now \<le> due \<and> due < now + maxRADelay)"
  by (rule schedule_request_spec[OF assms])

definition demo_client :: addr where "demo_client = Addr6 0xfe800000000000000000000000000009 []"

theorem request_scheduled_witness:
  "\<exists>s' due. schedule_request minDelayBetweenRAs demo_client 7 (half_draw 0) (schedule_start 0) = Ok s' \<and>
    sc_tasks s' = sc_tasks (schedule_start 0) @ [(due, demo_client)] \<and>
    (if IsMulticast demo_client
     then sc_last s' = 7 \<and>
       due = (if time_Sub 7 (sc_last (schedule_start 0)) < minDelayBetweenRAs then 7 + minDelayBetweenRAs else 7)
     else sc_last s' = sc_last (schedule_start 0) \<and> 7 \<le> due \<and> due < 7 + maxRADelay)"
  by (rule request_scheduled) (use half_draw_ok in blast)

text \<open>
  Over any run of requests on a running clock the loop keeps going, schedules one task per request
  in order, and the multicast tasks are due in the order of their requests.
\<close>

theorem schedule_in_order:
  assumes "draws_ok rs" and "clock_runs start rs" and "0 \<le> minDelay"
  shows "\<exists>s'. schedule_loop minDelay (map as_event rs) (schedule_start start) = (None, s') \<and>
    map snd (sc_tasks s') = map fst rs \<and> sorted (multicast_dues s')"
proof -
  obtain s' where s': "schedule_loop minDelay (map as_event rs) (schedule_start start) = (None, s')"
      "map snd (sc_tasks s') = map fst rs"
    using schedule_loop_requests[OF assms(1), of minDelay "schedule_start start"] by (auto simp: schedule_start_def)
  have "sched_inv minDelay (schedule_start start)" by (simp add: sched_inv_def schedule_start_def multicast_dues_def)
  then have "sched_inv minDelay s'"
    using schedule_loop_order[OF s'(1) assms(1) _ _ assms(3)] assms(2) by (simp add: schedule_start_def)
  then show ?thesis using s' by (auto simp: sched_inv_def)
qed

definition demo_requests :: "request list" where
  "demo_requests =
     [(IPv6LinkLocalAllNodes, 1 * Second, half_draw 0), (demo_client, 2 * Second, half_draw 0),
      (IPv6LinkLocalAllNodes, 2 * Second, half_draw 0), (IPv6LinkLocalAllNodes, 5 * Second, half_draw 0)]"

theorem schedule_in_order_witness:
  "\<exists>s'. schedule_loop minDelayBetweenRAs (map as_event demo_requests) (schedule_start 0) = (None, s') \<and>
    map snd (sc_tasks s') = map fst demo_requests \<and> sorted (multicast_dues s')"
  by (rule schedule_in_order)
    (use half_draw_ok in \<open>auto simp: draws_ok_def demo_requests_def clock_runs_def minDelayBetweenRAs_def\<close>)

text \<open>
  Multicast requests that are at least the minimum delay apart, counting from the initial
  advertisement, are all sent without delay, and so are as far apart as the RFC asks.
\<close>

theorem spaced_requests_undelayed:
  assumes "draws_ok rs" and "\<forall>r \<in> set rs. IsMulticast (fst r)"
    and "successive (\<lambda>x y. minDelayBetweenRAs \<le> y - x) (start # map (fst \<circ> snd) rs)"
  shows "\<exists>s'. schedule_loop minDelayBetweenRAs (map as_event rs) (schedule_start start) = (None, s') \<and>
    sc_tasks s' = map (\<lambda>r. (fst (snd r), fst r)) rs \<and>
    successive (\<lambda>x y. minDelayBetweenRAs \<le> y - x) (map fst (sc_tasks s'))"
proof -
  obtain s' where s': "schedule_loop minDelayBetweenRAs (map as_event rs) (schedule_start start) = (None, s')"
    using schedule_loop_requests[OF assms(1)] by blast
  have "sc_tasks s' = map (\<lambda>r. (fst (snd r), fst r)) rs"
    using schedule_loop_spaced[OF s' assms(1,2)] assms(3)
    by (simp add: schedule_start_def minDelayBetweenRAs_def max_int64_def)
  moreover have "successive (\<lambda>x y. minDelayBetweenRAs \<le> y - x) (map (fst \<circ> snd) rs)"
    using assms(3) by (cases rs) auto
  ultimately show ?thesis using s' by (simp add: comp_def)
qed

theorem spaced_requests_undelayed_witness:
  "\<exists>s'. schedule_loop minDelayBetweenRAs
      (map as_event [(IPv6LinkLocalAllNodes, 4 * Second, half_draw 0), (IPv6LinkLocalAllNodes, 8 * Second, half_draw 0)])
      (schedule_start 0) = (None, s') \<and>
    sc_tasks s' = map (\<lambda>r. (fst (snd r), fst r))
      [(IPv6LinkLocalAllNodes, 4 * Second, half_draw 0), (IPv6LinkLocalAllNodes, 8 * Second, half_draw 0)] \<and>
    successive (\<lambda>x y. minDelayBetweenRAs \<le> y - x) (map fst (sc_tasks s'))"
  by (rule spaced_requests_undelayed)
    (use half_draw_ok in \<open>auto simp: draws_ok_def minDelayBetweenRAs_def IPv6LinkLocalAllNodes_def\<close>)

text \<open>
  C37: of two multicast requests in a row, at any times and in any state of the scheduler, the
  advertisements keep the minimum distance exactly when the first one was not delayed or the requests
  themselves are twice that distance apart: the loop remembers the time of a request, not the time for
  which it scheduled the advertisement.
\<close>

theorem multicast_distance_violated:
  assumes "IsMulticast ip" and "IsMulticast jp" and "t1 \<le> t2" and "in_int64 (t2 - t1)"
  shows "\<exists>s' due1 due2.
    schedule_loop minDelayBetweenRAs [Request ip t1 draw, Request jp t2 draw'] s = (None, s') \<and>
    sc_tasks s' = sc_tasks s @ [(due1, ip), (due2, jp)] \<and>
    (3 * Second \<le> due2 - due1 \<longleftrightarrow> 3 * Second \<le> time_Sub t1 (sc_last s) \<or> 6 * Second \<le> t2 - t1)"
proof -
  let ?m = "minDelayBetweenRAs"
  let ?due1 = "t1 + (if time_Sub t1 (sc_last s) < ?m then ?m else 0)" and ?due2 = "t2 + (if t2 - t1 < ?m then ?m else 0)"
  have "\<exists>s'. schedule_loop ?m [Request ip t1 draw, Request jp t2 draw'] s = (None, s') \<and>
      sc_tasks s' = sc_tasks s @ [(?due1, ip), (?due2, jp)]"
    using assms(1,2) time_Sub_eq[OF assms(4)] by (simp add: schedule_request_def sg_Delay_def time_Add_def)
  moreover have "3 * Second \<le> ?due2 - ?due1 \<longleftrightarrow> 3 * Second \<le> time_Sub t1 (sc_last s) \<or> 6 * Second \<le> t2 - t1"
    using assms(3) by (auto simp: minDelayBetweenRAs_def)
  ultimately show ?thesis by blast
qed

text \<open>After a request at two seconds, which is delayed, those at four and seven seconds are sent together.\<close>

theorem multicast_distance_violated_witness:
  "\<exists>s' due1 due2.
    schedule_loop minDelayBetweenRAs
      [Request IPv6LinkLocalAllNodes (4 * Second) (half_draw 0), Request IPv6LinkLocalAllNodes (7 * Second) (half_draw 0)]
      \<lparr>sc_tasks = [(5 * Second, IPv6LinkLocalAllNodes)], sc_last = 2 * Second\<rparr> = (None, s') \<and>
    sc_tasks s' = [(5 * Second, IPv6LinkLocalAllNodes), (due1, IPv6LinkLocalAllNodes), (due2, IPv6LinkLocalAllNodes)] \<and>
    \<not> 3 * Second \<le> due2 - due1"
proof -
  let ?s = "\<lparr>sc_tasks = [(5 * Second, IPv6LinkLocalAllNodes)], sc_last = 2 * Second\<rparr>"
  have "IsMulticast IPv6LinkLocalAllNodes" "4 * Second \<le> 7 * Second" "in_int64 (7 * Second - 4 * Second)"
    by (simp_all add: IPv6LinkLocalAllNodes_def in_int64_def max_int64_def min_int64_def)
  from multicast_distance_violated[OF this(1,1,2,3), of "half_draw 0" "half_draw 0" ?s] obtain s' due1 due2 where
    "schedule_loop minDelayBetweenRAs [Request IPv6LinkLocalAllNodes (4 * Second) (half_draw 0),
       Request IPv6LinkLocalAllNodes (7 * Second) (half_draw 0)] ?s = (None, s')"
    "sc_tasks s' = sc_tasks ?s @ [(due1, IPv6LinkLocalAllNodes), (due2, IPv6LinkLocalAllNodes)]"
    "3 * Second \<le> due2 - due1 \<longleftrightarrow>
       3 * Second \<le> time_Sub (4 * Second) (sc_last ?s) \<or> 6 * Second \<le> 7 * Second - 4 * Second" by blast
  then show ?thesis by (simp add: time_Sub_def max_int64_def min_int64_def)
qed


section \<open>Sending and answering\<close>

text \<open>
  A send that succeeds writes exactly one advertisement, to the destination asked for, with the
  configured header, the lifetime the forwarding state allows and the options of the plugins; a
  unicast-only interface writes nothing to a multicast address, and a send that fails writes nothing.
\<close>

theorem send_contents:
  assumes "send env dst cfg s = (r, s')"
  shows "(if r = Ok () \<and> \<not> (ci_UnicastOnly cfg \<and> IsMulticast dst)
    then \<exists>ra. av_Sent s' = av_Sent s @ [(ra, dst)] \<and> advertised_header env cfg ra \<and> advertised_options env cfg ra
    else av_Sent s' = av_Sent s)"
proof (cases "r = Ok () \<and> \<not> (ci_UnicastOnly cfg \<and> IsMulticast dst)")
  case True
  then have "\<exists>ra. av_Sent s' = av_Sent s @ [(ra, dst)] \<and> advertised_header env cfg ra \<and> advertised_options env cfg ra"
    using send_spec(3,4)[OF assms] by blast
  with True show ?thesis by (simp only: if_True not_False_eq_True simp_thms)
next
  case False
  then have "av_Sent s' = av_Sent s" using send_spec(3)[OF assms] by blast
  with False show ?thesis by (simp only: if_False)
qed

definition demo_env :: adv_env where
  "demo_env = \<lparr>ae_os = host host_addrs 5, ae_Forwarding = (\<lambda>_. Ok True), ae_WriteTo = (\<lambda>_ _. Ok ()),
     ae_TypeString = (\<lambda>m. case m of RouterSolicitation _ \<Rightarrow> ''router solicitation''
       | RouterAdvertisement _ \<Rightarrow> ''router advertisement'' | OtherMessage t \<Rightarrow> t)\<rparr>"

definition demo_state :: adv_state where
  "demo_state = \<lparr>av_Heap = 7, av_Sent = [], av_Metrics = [], av_Hook = [], av_Ready = False\<rparr>"

lemma demo_buildRA: "buildRA demo_env demo_interface s = (Ok (demo_ra (1800 * Second) (av_Heap s)), s\<lparr>av_Heap := av_Heap s + 3\<rparr>)"
  by (simp add: buildRA_def demo_env_def demo_generated)

lemma demo_send:
  "send demo_env demo_client demo_interface demo_state =
     (Ok (), demo_state\<lparr>av_Heap := 10, av_Sent := [(demo_ra (1800 * Second) 7, demo_client)]\<rparr>)"
proof -
  have "\<not> ci_UnicastOnly demo_interface" by (simp add: demo_interface_def)
  then show ?thesis
    by (simp add: send_def demo_buildRA) (simp add: demo_state_def demo_env_def)
qed

theorem send_contents_witness:
  "(if Ok () = Ok () \<and> \<not> (ci_UnicastOnly demo_interface \<and> IsMulticast demo_client)
    then \<exists>ra. av_Sent (demo_state\<lparr>av_Heap := 10, av_Sent := [(demo_ra (1800 * Second) 7, demo_client)]\<rparr>) =
        av_Sent demo_state @ [(ra, demo_client)] \<and> advertised_header demo_env demo_interface ra \<and>
        advertised_options demo_env demo_interface ra
    else av_Sent (demo_state\<lparr>av_Heap := 10, av_Sent := [(demo_ra (1800 * Second) 7, demo_client)]\<rparr>) =
        av_Sent demo_state)"
  by (rule send_contents[OF demo_send])

end
