(* ===== verification/Netstate.thy ===== *)
theory Netstate
  imports Prelude
begin

unbundle bit_operations_syntax

text \<open>
  \<open>internal/netstate\<close>: the watcher of link state changes.  A Go map is an association list with
  distinct keys whose order is the order in which a \<open>range\<close> visits it; the facts hold for every order.
  Channels are numbers that index a store of buffers, so that the subscriber and the watcher share
  them.  The netlink connection is the sequence of its answers.
\<close>

section \<open>Changes\<close>

type_synonym change = "64 word"

definition LinkUp :: change where "LinkUp = push_bit 0 1"
definition LinkDown :: change where "LinkDown = push_bit 1 1"
definition LinkTesting :: change where "LinkTesting = push_bit 2 1"
definition LinkUnknown :: change where "LinkUnknown = push_bit 3 1"
definition LinkDormant :: change where "LinkDormant = push_bit 4 1"
definition LinkNotPresent :: change where "LinkNotPresent = push_bit 5 1"
definition LinkLowerLayerDown :: change where "LinkLowerLayerDown = push_bit 6 1"

definition LinkAny :: change where
  "LinkAny = LinkUp OR LinkDown OR LinkTesting OR LinkUnknown OR LinkDormant OR LinkNotPresent
     OR LinkLowerLayerDown"

definition changeStrings :: "string list" where
  "changeStrings = [''link up'', ''link down'', ''link testing'', ''link unknown'', ''link dormant'',
     ''link not present'', ''link lower layer down'']"

text \<open>The loop of \<open>String\<close> from bit \<open>i\<close> on.\<close>

fun change_names :: "change \<Rightarrow> nat \<Rightarrow> string list \<Rightarrow> string \<Rightarrow> string" where
  "change_names c i [] s = s"
| "change_names c i (name # names) s =
     change_names c (Suc i) names
       (if c AND push_bit i 1 \<noteq> 0 then (if s \<noteq> '''' then s @ ''|'' else s) @ name else s)"

definition change_String :: "change \<Rightarrow> string" where
  "change_String c =
     (if c = LinkAny then ''link ANY''
      else let s = change_names c 0 changeStrings ''''
           in if s = '''' then ''0'' else s)"


section \<open>Channels\<close>

text \<open>A buffered channel of capacity 8; a send that would block takes the \<open>default\<close> case.\<close>

record change_chan =
  ch_Buffer :: "change list"
  ch_Closed :: bool

record watcher =
  w_watching :: bool
  w_m :: "(string \<times> (change \<times> nat list) list) list"
  w_chans :: "nat \<Rightarrow> change_chan"
  w_next :: nat

definition chan_cap :: nat where "chan_cap = 8"

definition empty_chan :: change_chan where "empty_chan = \<lparr>ch_Buffer = [], ch_Closed = False\<rparr>"

definition NewWatcher :: watcher where
  "NewWatcher = \<lparr>w_watching = False, w_m = [], w_chans = (\<lambda>_. empty_chan), w_next = 0\<rparr>"

definition try_send :: "change \<Rightarrow> watcher \<Rightarrow> nat \<Rightarrow> watcher outcome" where
  "try_send c w ch =
     (let q = w_chans w ch
      in if ch_Closed q then Panic ''send on closed channel''
         else if length (ch_Buffer q) < chan_cap then
           Ok (w\<lparr>w_chans := (w_chans w)(ch := q\<lparr>ch_Buffer := ch_Buffer q @ [c]\<rparr>)\<rparr>)
         else Ok w)"

definition close_chan :: "watcher \<Rightarrow> nat \<Rightarrow> watcher outcome" where
  "close_chan w ch =
     (let q = w_chans w ch
      in if ch_Closed q then Panic ''close of closed channel''
         else Ok (w\<lparr>w_chans := (w_chans w)(ch := q\<lparr>ch_Closed := True\<rparr>)\<rparr>))"


section \<open>Subscribing and notifying\<close>

text \<open>\<open>m[k] = f(m[k])\<close>, with the zero value \<open>z\<close> for a key that is absent.\<close>

fun map_update :: "'k \<Rightarrow> 'v \<Rightarrow> ('v \<Rightarrow> 'v) \<Rightarrow> ('k \<times> 'v) list \<Rightarrow> ('k \<times> 'v) list" where
  "map_update k z f [] = [(k, f z)]"
| "map_update k z f ((k', v) # m) = (if k' = k then (k', f v) # m else (k', v) # map_update k z f m)"

definition Subscribe :: "string \<Rightarrow> change \<Rightarrow> watcher \<Rightarrow> nat \<times> watcher" where
  "Subscribe iface changes w =
     (let ch = w_next w
      in (ch, w\<lparr>w_m := map_update iface [] (map_update changes [] (\<lambda>v. v @ [ch])) (w_m w),
               w_chans := (w_chans w)(ch := empty_chan), w_next := Suc ch\<rparr>))"

type_synonym change_set = "(string \<times> change list) list"

definition notify_change :: "(change \<times> nat list) list \<Rightarrow> watcher \<Rightarrow> change \<Rightarrow> watcher outcome" where
  "notify_change interest w c =
     foldO (\<lambda>w (k, v). if k AND c = 0 then Ok w else foldO (try_send c) w v) w interest"

definition notify :: "watcher \<Rightarrow> change_set \<Rightarrow> watcher outcome" where
  "notify w0 changed =
     foldO (\<lambda>w (iface, changes).
       case map_of (w_m w) iface of
         None \<Rightarrow> Ok w
       | Some interest \<Rightarrow> foldO (notify_change interest) w changes) w0 changed"

text \<open>The channels of the subscriptions, in the order of the loops that close them.\<close>

definition subscribed :: "watcher \<Rightarrow> nat list" where
  "subscribed w = concat (map (\<lambda>(_, v). concat (map snd v)) (w_m w))"

definition close_all :: "watcher \<Rightarrow> watcher outcome" where
  "close_all w = foldO close_chan w (subscribed w)"


section \<open>Netlink messages\<close>

datatype oper_state =
    OperStateUnknown | OperStateNotPresent | OperStateDown | OperStateLowerLayerDown
  | OperStateTesting | OperStateDormant | OperStateUp | OperStateOther nat

datatype link_message =
    LinkMessage "(string \<times> oper_state) option"  \<comment> \<open>the attributes, when present\<close>
  | OtherNetlinkMessage

fun operStateChange :: "oper_state \<Rightarrow> change option" where
  "operStateChange OperStateUnknown = Some LinkUnknown"
| "operStateChange OperStateNotPresent = Some LinkNotPresent"
| "operStateChange OperStateDown = Some LinkDown"
| "operStateChange OperStateLowerLayerDown = Some LinkLowerLayerDown"
| "operStateChange OperStateTesting = Some LinkTesting"
| "operStateChange OperStateDormant = Some LinkDormant"
| "operStateChange OperStateUp = Some LinkUp"
| "operStateChange (OperStateOther _) = None"

definition process_message :: "change_set \<Rightarrow> link_message \<Rightarrow> change_set" where
  "process_message changes m =
     (case m of
        LinkMessage (Some (iface, s)) \<Rightarrow>
          (case operStateChange s of
             None \<Rightarrow> changes
           | Some c \<Rightarrow> map_update iface [] (\<lambda>cs. cs @ [c]) changes)
      | _ \<Rightarrow> changes)"

definition process :: "link_message list \<Rightarrow> change_set" where
  "process msgs = foldl process_message [] msgs"

text \<open>
  What the connection answers to a \<open>Receive\<close>: messages, or an error, with whether the context has an
  error then.  The loop returns only on an error; \<open>None\<close> stands for a loop that is still receiving.
\<close>

datatype netlink_answer = Messages "link_message list" | ReceiveError go_error bool

fun osWatch_loop ::
  "netlink_answer list \<Rightarrow> unit outcome \<Rightarrow> watcher \<Rightarrow> unit outcome option \<times> watcher" where
  "osWatch_loop [] interrupt w = (None, w)"
| "osWatch_loop (Messages msgs # as) interrupt w =
     (case notify w (process msgs) of
        Ok w' \<Rightarrow> osWatch_loop as interrupt w'
      | Err e \<Rightarrow> (Some (Err e), w)
      | Panic p \<Rightarrow> (Some (Panic p), w))"
| "osWatch_loop (ReceiveError e canceled # as) interrupt w =
     (Some (if canceled then wrapErr (FmtW ''netstate: failed to interrupt watcher: %w'') interrupt
            else Err (FmtW ''netstate: watcher failed to listen for route netlink messages: %w'' e)), w)"

definition osWatch ::
  "unit outcome \<Rightarrow> netlink_answer list \<Rightarrow> unit outcome \<Rightarrow> watcher \<Rightarrow> unit outcome option \<times> watcher" where
  "osWatch dialed as interrupt w =
     (case dialed of
        Err e \<Rightarrow> (Some (Err (FmtW ''netstate: watcher failed to dial route netlink: %w'' e)), w)
      | Panic p \<Rightarrow> (Some (Panic p), w)
      | Ok _ \<Rightarrow> osWatch_loop as interrupt w)"

text \<open>\<open>watcher_others.go\<close>.\<close>

definition osWatch_others :: "watcher \<Rightarrow> unit outcome option \<times> watcher" where
  "osWatch_others w = (Some (Err (FmtW ''netstate: Watcher not implemented on %q: %w''
     (Sentinel OsErrNotExist))), w)"

text \<open>\<open>watch\<close> is the hook; its deferred function runs when it returns or panics.\<close>

definition Watch ::
  "(watcher \<Rightarrow> unit outcome option \<times> watcher) \<Rightarrow> watcher \<Rightarrow> unit outcome option \<times> watcher" where
  "Watch watch w0 =
     (if w_watching w0 then (Some (Panic ''netstate: multiple calls to Watcher.Watch''), w0)
      else case watch (w0\<lparr>w_watching := True\<rparr>) of
        (None, w) \<Rightarrow> (None, w)
      | (Some r, w) \<Rightarrow>
          (case close_all w of
             Ok w' \<Rightarrow> (Some r, w')
           | Err e \<Rightarrow> (Some (Err e), w)
           | Panic p \<Rightarrow> (Some (Panic p), w)))"

end
