(* ===== verification/Monitor.thy ===== *)
theory Monitor
  imports Verify Metric Errgroup
begin

text \<open>
  \<open>internal/corerad/monitor.go\<close>: the monitor of an interface reports what other routers advertise.  Its
  effects are the metrics it sets, the calls of its callback, and its readiness.
\<close>

record monitor =
  mon_iface :: string
  mon_verbose :: bool
  mon_OnMessage :: bool

record mon_env =
  me_Now :: instant
  me_TypeString :: "ndp_message \<Rightarrow> string"

record mon_state =
  ms_Metrics :: "metric list"
  ms_Seen :: "ndp_message list"
  ms_Ready :: bool

definition NewMonitor :: "string \<Rightarrow> bool \<Rightarrow> monitor" where
  "NewMonitor iface verbose = \<lparr>mon_iface = iface, mon_verbose = verbose, mon_OnMessage = False\<rparr>"

definition expires :: "instant \<Rightarrow> duration \<Rightarrow> f64" where
  "expires now d = unix_float (time_Add now d)"

text \<open>The body of the loop over the prefix options.\<close>

definition monitor_prefix :: "string \<Rightarrow> string \<Rightarrow> instant \<Rightarrow> prefix_information \<Rightarrow> metric list" where
  "monitor_prefix iface host now p =
     (let str = cidrStr (pi_Prefix p) (pi_PrefixLength p)
      in [Metric ''MonPrefixAutonomous'' (boolFloat (pi_Autonomous p)) [iface, str, host],
          Metric ''MonPrefixOnLink'' (boolFloat (pi_OnLink p)) [iface, str, host],
          Metric ''MonPrefixPreferredLifetimeExpirationTime'' (expires now (pi_PreferredLifetime p)) [iface, str, host],
          Metric ''MonPrefixValidLifetimeExpirationTime'' (expires now (pi_ValidLifetime p)) [iface, str, host]])"

definition monitor_handle :: "mon_env \<Rightarrow> monitor \<Rightarrow> ndp_message \<Rightarrow> string \<Rightarrow> mon_state \<Rightarrow> mon_state" where
  "monitor_handle env m msg host s =
     (let iface = mon_iface m;
          received = [Metric ''MonMessagesReceivedTotal'' f_one [iface, host, me_TypeString env msg]];
          now = me_Now env
      in s\<lparr>ms_Metrics := ms_Metrics s @ received @
           (case msg of
              RouterAdvertisement ra \<Rightarrow>
                [Metric ''MonFlagManaged'' (boolFloat (ra_ManagedConfiguration ra)) [iface, host],
                 Metric ''MonFlagOther'' (boolFloat (ra_OtherConfiguration ra)) [iface, host]] @
                (if ra_RouterLifetime ra \<noteq> 0 then
                   [Metric ''MonDefaultRouteExpirationTime'' (expires now (ra_RouterLifetime ra)) [iface, host]]
                 else []) @
                concat (map (\<lambda>p. monitor_prefix iface host now (snd p))
                  (pick as_PrefixInformation (ra_Options ra)))
            | _ \<Rightarrow> [])\<rparr>)"

text \<open>The function given to the listener: the callback fires after \<open>handle\<close>.\<close>

definition monitor_message ::
  "mon_env \<Rightarrow> monitor \<Rightarrow> ndp_message \<times> addr \<Rightarrow> mon_state \<Rightarrow> unit outcome \<times> mon_state" where
  "monitor_message env m msg s =
     (let s1 = monitor_handle env m (fst msg) (addr_String (snd msg)) s
      in (Ok (), if mon_OnMessage m then s1\<lparr>ms_Seen := ms_Seen s1 @ [fst msg]\<rparr> else s1))"

text \<open>\<open>rs\<close> are the results of the goroutines, in the order in which they return.\<close>

definition monitor_group :: "go_error option list \<Rightarrow> go_error option \<Rightarrow> go_error option" where
  "monitor_group rs parent =
     (case group_Wait rs of
        Some e \<Rightarrow> Some (FmtW ''failed to run Monitor: %w'' e)
      | None \<Rightarrow> derived_Err parent)"

text \<open>The function \<open>Run\<close> hands to the dialer; \<open>work\<close> is what happens while the goroutines run.\<close>

definition monitor_Run_fn ::
  "(mon_state \<Rightarrow> go_error option list \<times> go_error option \<times> mon_state) \<Rightarrow> mon_state \<Rightarrow>
     unit outcome \<times> mon_state" where
  "monitor_Run_fn work s =
     (case work (s\<lparr>ms_Ready := True\<rparr>) of
        (rs, parent, s1) \<Rightarrow>
          (case monitor_group rs parent of
             None \<Rightarrow> (Panic ''corerad: monitor must never return nil error'', s1)
           | Some e \<Rightarrow> if errors_is e ContextCanceled then (Ok (), s1) else (Err e, s1)))"


section \<open>Facts\<close>

lemma monitor_handle_ra:
  assumes "metric_name x = ''MonDefaultRouteExpirationTime''"
  shows "x \<in> set (ms_Metrics (monitor_handle env m (RouterAdvertisement ra) host s)) \<longleftrightarrow>
    x \<in> set (ms_Metrics s) \<or> (ra_RouterLifetime ra \<noteq> 0 \<and>
      metric_value x = expires (me_Now env) (ra_RouterLifetime ra) \<and> metric_labels x = [mon_iface m, host])"
  using assms by (cases x) (auto simp: monitor_handle_def Let_def monitor_prefix_def)

lemma monitor_handle_prefix:
  "(\<exists>k. (k, p) \<in> set (pick as_PrefixInformation (ra_Options ra))) \<Longrightarrow>
     set (monitor_prefix (mon_iface m) host (me_Now env) p) \<subseteq>
       set (ms_Metrics (monitor_handle env m (RouterAdvertisement ra) host s))"
  by (fastforce simp: monitor_handle_def Let_def)

lemma monitor_group_not_None: "monitor_group rs parent \<noteq> None"
  by (auto simp: monitor_group_def derived_Err_def split: option.split)

end
