(* ===== verification/Server.thy ===== *)
theory Server
  imports Netstate Dialer Advertise Monitor GoFmt
begin

text \<open>
  \<open>internal/corerad/server.go\<close>, \<open>signals_unix.go\<close> and \<open>signals_windows.go\<close>: the tasks of the daemon and
  how they end.  A task is a value of \<open>task\<close>; \<open>BuildTasks\<close> creates them from the configuration and
  subscribes to the link state watcher for those that need it.  Logging is left out; the
  service manager's notifications are in \<open>Serve_System\<close>.
\<close>

section \<open>Signals\<close>

datatype os_signal = SIGINT | SIGTERM | SIGHUP | SignalOther nat

definition Signals :: "os_signal list" where
  "Signals = [SIGINT, SIGTERM, SIGHUP]"

definition isTerminal :: "os_signal \<Rightarrow> bool" where
  "isTerminal s \<longleftrightarrow> s \<noteq> SIGHUP"

definition Signals_windows :: "os_signal list" where
  "Signals_windows = [SIGINT]"

definition isTerminal_windows :: "os_signal \<Rightarrow> bool" where
  "isTerminal_windows s \<longleftrightarrow> True"


section \<open>The server and its tasks\<close>

text \<open>A watch channel is \<open>None\<close> when the server has no watcher.\<close>

datatype task =
    AdvertiserTask advertiser dialer "nat option"
  | MonitorTask monitor dialer "nat option"
  | HTTPTask string
  | WatcherTask
  | SignalTask

record server =
  sv_term :: bool
  sv_w :: "watcher option"

definition NewServer :: server where
  "NewServer = \<lparr>sv_term = False, sv_w = Some NewWatcher\<rparr>"

definition terminator_set :: "os_signal \<Rightarrow> server \<Rightarrow> server" where
  "terminator_set sig s = s\<lparr>sv_term := isTerminal sig\<rparr>"

definition terminate :: "server \<Rightarrow> bool" where
  "terminate s = sv_term s"

definition subscribe_link :: "string \<Rightarrow> server \<Rightarrow> nat option \<times> server" where
  "subscribe_link iface s =
     (case sv_w s of
        None \<Rightarrow> (None, s)
      | Some w \<Rightarrow> (case Subscribe iface LinkDown w of (ch, w') \<Rightarrow> (Some ch, s\<lparr>sv_w := Some w'\<rparr>)))"

definition build_task :: "task list \<times> server \<Rightarrow> interface_config \<Rightarrow> (task list \<times> server) outcome" where
  "build_task st ifi =
     (case st of (tasks, s) \<Rightarrow>
        if \<not> ci_Advertise ifi \<and> \<not> ci_Monitor ifi then Ok (tasks, s)
        else case subscribe_link (ci_Name ifi) s of (watchC, s') \<Rightarrow>
          if ci_Advertise ifi then
            bindO (NewDialer (ci_Name ifi) mode_Advertise) (\<lambda>dialer.
              Ok (tasks @ [AdvertiserTask (NewAdvertiser ifi) dialer watchC], s'))
          else if ci_Monitor ifi then
            bindO (NewDialer (ci_Name ifi) mode_Monitor) (\<lambda>dialer.
              Ok (tasks @ [MonitorTask (NewMonitor (ci_Name ifi) (ci_Verbose ifi)) dialer watchC], s'))
          else Panic ''corerad: Server interface %q is not advertising or monitoring'')"

definition BuildTasks :: "config \<Rightarrow> server \<Rightarrow> (task list \<times> server) outcome" where
  "BuildTasks cfg s =
     bindO (foldO build_task ([], s) (cfg_Interfaces cfg)) (\<lambda>(tasks, s').
       Ok (tasks @ (if dbg_Address (cfg_Debug cfg) \<noteq> '''' then [HTTPTask (dbg_Address (cfg_Debug cfg))] else [])
                 @ (if sv_w s' \<noteq> None then [WatcherTask] else []), s'))"

fun task_String :: "task \<Rightarrow> string" where
  "task_String (AdvertiserTask a _ _) = ''advertiser '' @ go_quote (ci_Name (adv_cfg a))"
| "task_String (MonitorTask m _ _) = ''monitor '' @ go_quote (mon_iface m)"
| "task_String (HTTPTask a) = ''debug HTTP server '' @ go_quote a"
| "task_String WatcherTask = ''link state watcher''"
| "task_String SignalTask = ''signal watcher''"


section \<open>Running\<close>

text \<open>
  \<open>linkStateWatcher\<close>: the \<open>select\<close> may take any case that is ready.  \<open>done\<close> is whether the context is
  done; the states are those of the watcher, whose channel a receive takes from.
\<close>

inductive linkStateWatcher :: "bool \<Rightarrow> nat option \<Rightarrow> watcher \<Rightarrow> unit outcome \<Rightarrow> watcher \<Rightarrow> bool" where
  no_watcher: "linkStateWatcher done None w (Ok ()) w"
| canceled: "linkStateWatcher True (Some ch) w (Ok ()) w"
| closed: "ch_Buffer (w_chans w ch) = [] \<Longrightarrow> ch_Closed (w_chans w ch) \<Longrightarrow>
     linkStateWatcher done (Some ch) w (Ok ()) w"
| changed: "ch_Buffer (w_chans w ch) = c # cs \<Longrightarrow>
     linkStateWatcher done (Some ch) w (Err (Sentinel ErrLinkChange))
       (w\<lparr>w_chans := (w_chans w)(ch := (w_chans w ch)\<lparr>ch_Buffer := cs\<rparr>)\<rparr>)"

inductive_cases linkStateWatcherE: "linkStateWatcher done watchC w r w'"

text \<open>
  What happens at the \<open>i\<close>-th attempt of \<open>serve\<close>: whether the context has an error before it, and whether
  it ends during the delay.  \<open>fn i\<close> is the function, with the state it changes; a nil error is \<open>Ok ()\<close>.
\<close>

record serve_env =
  se_Canceled :: bool
  se_CanceledDelay :: bool

record 's serve_state =
  ss_State :: 's
  ss_Calls :: nat
  ss_Waited :: duration

definition serve_attempts :: nat where "serve_attempts = 40"

definition serve_wait :: "nat \<Rightarrow> duration \<Rightarrow> 's serve_state \<Rightarrow> 's serve_state" where
  "serve_wait i delay s = (if i \<noteq> 0 then s\<lparr>ss_Waited := ss_Waited s + delay\<rparr> else s)"

definition serve_call ::
  "(nat \<Rightarrow> 's \<Rightarrow> unit outcome \<times> 's) \<Rightarrow> nat \<Rightarrow> 's serve_state \<Rightarrow> unit outcome \<times> 's serve_state" where
  "serve_call fn i s =
     (case fn i (ss_State s) of (r, t) \<Rightarrow> (r, s\<lparr>ss_State := t, ss_Calls := Suc (ss_Calls s)\<rparr>))"

fun serve_loop ::
  "(nat \<Rightarrow> serve_env) \<Rightarrow> duration \<Rightarrow> (nat \<Rightarrow> 's \<Rightarrow> unit outcome \<times> 's) \<Rightarrow> nat \<Rightarrow> nat \<Rightarrow> 's serve_state \<Rightarrow>
     unit outcome \<times> 's serve_state" where
  "serve_loop env delay fn 0 i s = (Err (Msg ''timed out starting HTTP debug server''), s)"
| "serve_loop env delay fn (Suc n) i s =
     (if se_Canceled (env i) then (Ok (), s)
      else if i \<noteq> 0 \<and> se_CanceledDelay (env i) then (Ok (), s)
      else case serve_call fn i (serve_wait i delay s) of
        (Panic p, s') \<Rightarrow> (Panic p, s')
      | (Ok _, s') \<Rightarrow> (Panic ''corerad: serve function should never return nil'', s')
      | (Err e, s') \<Rightarrow>
          if errors_is e ErrServerClosed then (Ok (), s')
          else if as_op_error e \<noteq> None then serve_loop env delay fn n (Suc i) s'
          else (Err e, s'))"

definition serve ::
  "(nat \<Rightarrow> serve_env) \<Rightarrow> duration \<Rightarrow> (nat \<Rightarrow> 's \<Rightarrow> unit outcome \<times> 's) \<Rightarrow> 's \<Rightarrow>
     unit outcome \<times> 's serve_state" where
  "serve env delay fn t = serve_loop env delay fn serve_attempts 0 \<lparr>ss_State = t, ss_Calls = 0, ss_Waited = 0\<rparr>"

text \<open>
  The HTTP task: the state is whether \<open>readyC\<close> is closed.  \<open>listen i\<close> and \<open>served i\<close> are what
  \<open>net.Listen\<close> and \<open>Server.Serve\<close> return at the attempt; when listening succeeds the function returns
  only after the context ended.
\<close>

definition http_fn ::
  "(nat \<Rightarrow> unit outcome) \<Rightarrow> (nat \<Rightarrow> unit outcome) \<Rightarrow> nat \<Rightarrow> bool \<Rightarrow> unit outcome \<times> bool" where
  "http_fn listen served i ready =
     (case listen i of
        Err e \<Rightarrow> (Err e, ready)
      | Panic p \<Rightarrow> (Panic p, ready)
      | Ok _ \<Rightarrow> if ready then (Panic ''close of closed channel'', ready) else (served i, True))"

definition http_Run ::
  "(nat \<Rightarrow> serve_env) \<Rightarrow> (nat \<Rightarrow> unit outcome) \<Rightarrow> (nat \<Rightarrow> unit outcome) \<Rightarrow> unit outcome \<times> bool serve_state" where
  "http_Run env listen served = serve env (3 * Second) (http_fn listen served) False"

text \<open>\<open>watch\<close> is what the watcher returned.\<close>

definition watcherTask_Run :: "unit outcome \<Rightarrow> unit outcome" where
  "watcherTask_Run watch =
     (case watch of
        Err e \<Rightarrow>
          if errors_is e OsErrNotExist then Ok ()
          else Err (FmtV ''failed to watch for interface state changes: %v'' e)
      | r \<Rightarrow> r)"

text \<open>
  The signal task: \<open>None\<close> is the end of the context.  The second component is whether the task canceled
  the context of all tasks.
\<close>

definition signalTask_Run :: "os_signal option \<Rightarrow> server \<Rightarrow> bool \<times> server" where
  "signalTask_Run sig s =
     (case sig of None \<Rightarrow> (False, s) | Some g \<Rightarrow> (True, terminator_set g s))"

text \<open>
  The tasks with their results, in the order in which they return.  A panic of a task ends the program.
\<close>

definition task_result :: "task \<times> unit outcome \<Rightarrow> go_error option outcome" where
  "task_result tr =
     (case snd tr of
        Ok _ \<Rightarrow> Ok None
      | Err e \<Rightarrow> Ok (Some (FmtV (''failed to run task '' @ task_String (fst tr)) e))
      | Panic p \<Rightarrow> Panic p)"

definition Serve :: "(task \<times> unit outcome) list \<Rightarrow> unit outcome" where
  "Serve trs =
     bindO (mapO task_result trs) (\<lambda>rs.
       case group_Wait rs of
         Some e \<Rightarrow> Err (FmtV ''failed to serve: %v'' e)
       | None \<Rightarrow> Ok ())"

end
