(* ===== verification/Netstate_Facts.thy ===== *)
theory Netstate_Facts
  imports Netstate
begin

text \<open>
  Every subscription has a channel of its own, which stays open until the watcher returns; a
  notification delivers to each channel the changes of its interface that its sel selects, in order,
  as far as the channel has room, whatever the order in which the maps are visited.
\<close>

section \<open>Association lists\<close>

lemma map_of_map_update:
  "map_of (map_update k z f m) = (map_of m)(k \<mapsto> f (case map_of m k of None \<Rightarrow> z | Some v \<Rightarrow> v))"
  by (induction k z f m rule: map_update.induct) (auto simp: fun_eq_iff)

lemma map_update_keys: "set (map fst (map_update k z f m)) = insert k (set (map fst m))"
  by (induction k z f m rule: map_update.induct) auto

lemma map_update_distinct: "distinct (map fst m) \<Longrightarrow> distinct (map fst (map_update k z f m))"
proof (induction k z f m rule: map_update.induct)
  case (2 k z f k' v m)
  then show ?case using map_update_keys[of k z f m] by auto
qed simp

lemma map_update_values:
  assumes "mset (g z) = {#}" and "\<And>v. mset (g (f v)) = mset (g v) + X"
  shows "mset (concat (map (\<lambda>p. g (snd p)) (map_update k z f m))) = mset (concat (map (\<lambda>p. g (snd p)) m)) + X"
  using assms by (induction k z f m rule: map_update.induct) auto

lemma map_update_all:
  assumes "\<forall>p \<in> set m. P (snd p)" and "P z" and "\<And>v. P v \<Longrightarrow> P (f v)"
  shows "\<forall>p \<in> set (map_update k z f m). P (snd p)"
  using assms by (induction k z f m rule: map_update.induct) auto


section \<open>The invariant\<close>

definition watcher_wf :: "watcher \<Rightarrow> bool" where
  "watcher_wf w \<longleftrightarrow>
     distinct (map fst (w_m w)) \<and> (\<forall>p \<in> set (w_m w). distinct (map fst (snd p))) \<and>
     distinct (subscribed w) \<and>
     (\<forall>ch \<in> set (subscribed w). ch < w_next w \<and> \<not> ch_Closed (w_chans w ch) \<and>
        length (ch_Buffer (w_chans w ch)) \<le> chan_cap)"

text \<open>\<open>ch\<close> is registered for the changes \<open>sel\<close> of an interface.\<close>

definition subscription :: "watcher \<Rightarrow> string \<Rightarrow> change \<Rightarrow> nat \<Rightarrow> bool" where
  "subscription w iface sel ch \<longleftrightarrow>
     (\<exists>m v. map_of (w_m w) iface = Some m \<and> map_of m sel = Some v \<and> ch \<in> set v)"

lemma NewWatcher_wf: "watcher_wf NewWatcher"
  by (simp add: watcher_wf_def NewWatcher_def subscribed_def)

lemma subscribed_flat: "subscribed w = concat (map (\<lambda>p. concat (map snd (snd p))) (w_m w))"
  by (simp add: subscribed_def case_prod_unfold)

lemma Subscribe_subscribed:
  assumes "Subscribe iface sel w = (ch, w')"
  shows "mset (subscribed w') = mset (subscribed w) + {#ch#}"
proof -
  have inner: "mset (concat (map snd (map_update sel [] (\<lambda>v. v @ [ch]) m))) = mset (concat (map snd m)) + {#ch#}" for m
    using map_update_values[of "\<lambda>v. v" "[]" "\<lambda>v. v @ [ch]" "{#ch#}" sel m] by simp
  have "mset (concat (map (\<lambda>p. concat (map snd (snd p)))
      (map_update iface [] (map_update sel [] (\<lambda>v. v @ [ch])) (w_m w)))) =
    mset (concat (map (\<lambda>p. concat (map snd (snd p))) (w_m w))) + {#ch#}"
    by (rule map_update_values) (simp_all add: inner)
  then show ?thesis using assms by (auto simp: Subscribe_def subscribed_flat Let_def)
qed

lemma Subscribe_wf:
  assumes "Subscribe iface sel w = (ch, w')" and "watcher_wf w"
  shows "watcher_wf w'"
proof -
  have sub: "set (subscribed w') = insert ch (set (subscribed w))"
    using Subscribe_subscribed[OF assms(1)] by (metis add_mset_add_single set_mset_add_mset_insert set_mset_mset)
  have fresh: "ch \<notin> set (subscribed w)" using assms by (auto simp: Subscribe_def watcher_wf_def Let_def)
  have "mset (subscribed w') = mset (ch # subscribed w)" using Subscribe_subscribed[OF assms(1)] by simp
  then have d: "distinct (subscribed w')"
    using assms(2) fresh by (metis distinct.simps(2) mset_eq_imp_distinct_iff watcher_wf_def)
  have w': "w' = w\<lparr>w_m := map_update iface [] (map_update sel [] (\<lambda>v. v @ [ch])) (w_m w),
      w_chans := (w_chans w)(ch := empty_chan), w_next := Suc ch\<rparr>" and ch: "ch = w_next w"
    using assms(1) by (auto simp: Subscribe_def Let_def)
  have k: "distinct (map fst (w_m w'))" "\<forall>p \<in> set (w_m w'). distinct (map fst (snd p))"
    using assms(2) unfolding w'
    by (simp_all add: map_update_distinct watcher_wf_def)
      (rule map_update_all, simp_all add: map_update_distinct)
  have "\<forall>c \<in> set (subscribed w'). c < w_next w' \<and> \<not> ch_Closed (w_chans w' c) \<and>
      length (ch_Buffer (w_chans w' c)) \<le> chan_cap"
    using assms(2) unfolding sub by (auto simp: w' ch watcher_wf_def empty_chan_def intro: less_SucI)
  then show ?thesis using k d by (simp add: watcher_wf_def)
qed

lemma Subscribe_subscription:
  assumes "Subscribe iface sel w = (ch, w')"
  shows "subscription w' i k c \<longleftrightarrow> subscription w i k c \<or> (i = iface \<and> k = sel \<and> c = ch)"
proof -
  have w': "w_m w' = map_update iface [] (map_update sel [] (\<lambda>v. v @ [ch])) (w_m w)"
    using assms by (auto simp: Subscribe_def Let_def)
  show ?thesis
    unfolding subscription_def w' map_of_map_update
    by (auto simp: map_of_map_update split: option.splits if_splits; metis)
qed

section \<open>Notification\<close>

text \<open>What a channel holds after the changes \<open>cs\<close> were offered to it.\<close>

definition delivered :: "change list \<Rightarrow> change list \<Rightarrow> change list" where
  "delivered buf cs = buf @ take (chan_cap - length buf) cs"

lemma delivered_Nil [simp]: "delivered buf [] = buf"
  by (simp add: delivered_def)

lemma delivered_Cons:
  "delivered buf (c # cs) = delivered (if length buf < chan_cap then buf @ [c] else buf) cs"
  by (simp add: delivered_def take_Cons' Suc_diff_Suc[symmetric] del: Suc_diff_Suc)

lemma delivered_length: "length buf \<le> chan_cap \<Longrightarrow> length (delivered buf cs) \<le> chan_cap"
  by (simp add: delivered_def)

text \<open>The loops of \<open>notify\<close> are one loop over the sends they make.\<close>

definition change_sends :: "(change \<times> nat list) list \<Rightarrow> change \<Rightarrow> (change \<times> nat) list" where
  "change_sends interest c =
     concat (map (\<lambda>(k, v). if k AND c = 0 then [] else map (Pair c) v) interest)"

definition sends :: "watcher \<Rightarrow> change_set \<Rightarrow> (change \<times> nat) list" where
  "sends w changed =
     concat (map (\<lambda>(iface, cs).
       case map_of (w_m w) iface of None \<Rightarrow> [] | Some m \<Rightarrow> concat (map (change_sends m) cs)) changed)"

abbreviation send_all :: "watcher \<Rightarrow> (change \<times> nat) list \<Rightarrow> watcher outcome" where
  "send_all \<equiv> foldO (\<lambda>w (c, ch). try_send c w ch)"

lemma foldO_concat:
  assumes "\<And>s x. f s x = foldO g s (h x)"
  shows "foldO f s xs = foldO g s (concat (map h xs))"
  by (induction xs arbitrary: s) (simp_all add: foldO_append assms)

lemma foldO_cong_inv:
  assumes "P s" and "\<And>s x. P s \<Longrightarrow> x \<in> set xs \<Longrightarrow> f s x = g s x"
    and "\<And>s x s'. P s \<Longrightarrow> g s x = Ok s' \<Longrightarrow> P s'"
  shows "foldO f s xs = foldO g s xs"
  using assms(1,2)
proof (induction xs arbitrary: s)
  case (Cons x xs)
  then show ?case using assms(3) by (cases "g s x") auto
qed simp

lemma try_send_m: "try_send c w ch = Ok w' \<Longrightarrow> w_m w' = w_m w"
  by (auto simp: try_send_def Let_def split: if_splits)

lemma send_all_m: "send_all w xs = Ok w' \<Longrightarrow> w_m w' = w_m w"
  by (erule foldO_invariant[where P = "\<lambda>x. w_m x = w_m w"]) (auto simp: try_send_m)

lemma notify_change_sends: "notify_change m w c = send_all w (change_sends m c)"
proof -
  have "foldO (try_send c) w v = send_all w (map (Pair c) v)" for w v
    by (induction v arbitrary: w) auto
  then show ?thesis
    unfolding notify_change_def change_sends_def by (intro foldO_concat) auto
qed

lemma notify_sends: "notify w changed = send_all w (sends w changed)"
proof -
  let ?h = "\<lambda>(iface, cs). case map_of (w_m w) iface of None \<Rightarrow> [] | Some m \<Rightarrow> concat (map (change_sends m) cs)"
  have "notify w changed = foldO (\<lambda>s x. send_all s (?h x)) w changed"
    unfolding notify_def
  proof (rule foldO_cong_inv[where P = "\<lambda>x. w_m x = w_m w"])
    fix s :: watcher and x :: "string \<times> change list"
    assume "w_m s = w_m w"
    moreover have "foldO (notify_change m) t cs = send_all t (concat (map (change_sends m) cs))" for m t cs
      by (rule foldO_concat) (rule notify_change_sends)
    ultimately show "(case x of (iface, changes) \<Rightarrow> case map_of (w_m s) iface of None \<Rightarrow> Ok s
        | Some interest \<Rightarrow> foldO (notify_change interest) s changes) = send_all s (?h x)"
      by (auto split: prod.splits option.splits)
  qed (auto dest: send_all_m)
  also have "\<dots> = send_all w (concat (map ?h changed))" by (rule foldO_concat) simp
  finally show ?thesis by (simp add: sends_def)
qed

text \<open>A run of sends to open channels.\<close>

lemma send_all_Ok:
  assumes "\<forall>x \<in> set xs. \<not> ch_Closed (w_chans w (snd x))"
  shows "\<exists>w'. send_all w xs = Ok w' \<and> w_next w' = w_next w \<and> w_watching w' = w_watching w \<and>
    (\<forall>ch. w_chans w' ch = (w_chans w ch)\<lparr>ch_Buffer :=
        delivered (ch_Buffer (w_chans w ch)) (map fst (filter (\<lambda>x. snd x = ch) xs))\<rparr>)"
  using assms
proof (induction xs arbitrary: w)
  case (Cons x xs)
  obtain c k where x: "x = (c, k)" by (cases x)
  define b where "b = ch_Buffer (w_chans w k)"
  define w1 where "w1 = w\<lparr>w_chans := (w_chans w)(k := (w_chans w k)\<lparr>ch_Buffer := (if length b < chan_cap then b @ [c] else b)\<rparr>)\<rparr>"
  have s: "try_send c w k = Ok w1"
    using Cons.prems x by (cases w; cases "w_chans w k") (auto simp: try_send_def Let_def w1_def b_def)
  have "\<forall>y \<in> set xs. \<not> ch_Closed (w_chans w1 (snd y))" using Cons.prems by (auto simp: w1_def)
  from Cons.IH[OF this] obtain w' where w': "send_all w1 xs = Ok w'" "w_next w' = w_next w1" "w_watching w' = w_watching w1"
      "\<And>ch. w_chans w' ch = (w_chans w1 ch)\<lparr>ch_Buffer :=
        delivered (ch_Buffer (w_chans w1 ch)) (map fst (filter (\<lambda>x. snd x = ch) xs))\<rparr>" by blast
  have "w_chans w' ch = (w_chans w ch)\<lparr>ch_Buffer :=
        delivered (ch_Buffer (w_chans w ch)) (map fst (filter (\<lambda>x. snd x = ch) (x # xs)))\<rparr>" for ch
    unfolding w'(4) by (simp add: w1_def x b_def delivered_Cons)
  then show ?case using w'(1-3) s x by (simp add: w1_def)
qed simp

text \<open>The sends to one channel.\<close>

lemma filter_concat_map_Nil: "(\<forall>x \<in> set xs. filter P (h x) = []) \<Longrightarrow> filter P (concat (map h xs)) = []"
  by (induction xs) auto

lemma change_sends_to:
  assumes "distinct (concat (map snd m))" and "(sel, v) \<in> set m" and "ch \<in> set v"
  shows "map fst (filter (\<lambda>x. snd x = ch) (change_sends m c)) = (if sel AND c = 0 then [] else [c])"
  using assms
proof (induction m)
  case (Cons p m)
  obtain k u where p: "p = (k, u)" by (cases p)
  have single: "map fst (filter (\<lambda>x. snd x = ch) (map (Pair c) u)) = (if ch \<in> set u then [c] else [])"
    if "distinct u" for u using that by (induction u) (auto simp: filter_empty_conv)
  have none: "filter (\<lambda>x. snd x = ch) (change_sends m' c) = []" if "ch \<notin> set (concat (map snd m'))" for m'
    using that unfolding change_sends_def by (intro filter_concat_map_Nil) (force simp: filter_empty_conv)
  have split: "change_sends ((k, u) # m) c = (if k AND c = 0 then [] else map (Pair c) u) @ change_sends m c"
    by (simp add: change_sends_def)
  show ?case
  proof (cases "(sel, v) = p")
    case True
    then have "ch \<notin> set (concat (map snd m))" using Cons.prems p by auto
    then show ?thesis using True p Cons.prems single none by (simp add: split)
  next
    case False
    then have m: "(sel, v) \<in> set m" using Cons.prems by auto
    then have "ch \<notin> set u" using Cons.prems p by force
    then have "filter (\<lambda>x. snd x = ch) (map (Pair c) u) = []" by (auto simp: filter_empty_conv)
    then show ?thesis using Cons.IH m Cons.prems p by (simp add: split)
  qed
qed simp

definition changes_of :: "string \<Rightarrow> change_set \<Rightarrow> change list" where
  "changes_of iface changed = concat (map snd (filter (\<lambda>p. fst p = iface) changed))"

lemma change_sends_only: "ch \<notin> set (concat (map snd m)) \<Longrightarrow> filter (\<lambda>x. snd x = ch) (change_sends m c) = []"
  unfolding change_sends_def by (intro filter_concat_map_Nil) (force simp: filter_empty_conv)

lemma distinct_concat_part: "distinct (concat (map h xs)) \<Longrightarrow> x \<in> set xs \<Longrightarrow> distinct (h x)"
  by (induction xs) auto

lemma distinct_concat_once:
  assumes "distinct (concat (map h xs))" and "x \<in> set xs" and "y \<in> set xs" and "c \<in> set (h x)" and "c \<in> set (h y)"
    and "distinct xs"
  shows "x = y"
  using assms by (induction xs) auto

text \<open>
  The delivery of a notification: independent of the order of the maps, and without a panic.
\<close>

lemma sends_to:
  assumes "watcher_wf w" and "subscription w iface sel ch"
  shows "map fst (filter (\<lambda>x. snd x = ch) (sends w changed)) =
    filter (\<lambda>c. sel AND c \<noteq> 0) (changes_of iface changed)"
proof -
  obtain m v where m: "map_of (w_m w) iface = Some m" "map_of m sel = Some v" "ch \<in> set v"
    using assms(2) by (auto simp: subscription_def)
  have inm: "(iface, m) \<in> set (w_m w)" "(sel, v) \<in> set m" using m map_of_SomeD by fast+
  have dist: "distinct (concat (map (\<lambda>p. concat (map snd (snd p))) (w_m w)))"
    using assms(1) by (simp add: watcher_wf_def subscribed_flat)
  have dm: "distinct (w_m w)" using assms(1) by (simp add: watcher_wf_def distinct_map)
  have d: "distinct (concat (map snd m))"
    using distinct_concat_part[OF dist inm(1)] by simp
  have mine: "ch \<in> set (concat (map snd m))" using m(3) inm(2) by force
  have other: "ch \<notin> set (concat (map snd m'))" if "map_of (w_m w) i = Some m'" "i \<noteq> iface" for i m'
  proof
    assume "ch \<in> set (concat (map snd m'))"
    then have "(i, m') = (iface, m)"
      using distinct_concat_once[OF dist map_of_SomeD[OF that(1)] inm(1) _ _ dm, of ch] mine by simp
    with that(2) show False by simp
  qed
  have "map fst (filter (\<lambda>x. snd x = ch) (concat (map (change_sends m) cs))) = filter (\<lambda>c. sel AND c \<noteq> 0) cs" for cs
    by (induction cs) (simp_all add: change_sends_to[OF d inm(2) m(3)])
  moreover have "filter (\<lambda>x. snd x = ch) (concat (map (change_sends m') cs)) = []"
    if "map_of (w_m w) i = Some m'" "i \<noteq> iface" for i m' cs
    by (intro filter_concat_map_Nil ballI change_sends_only other[OF that])
  ultimately show ?thesis
    unfolding sends_def changes_of_def
    by (induction changed) (auto simp: m(1) split: option.split)
qed

lemma notify_delivers:
  assumes "watcher_wf w"
  shows "\<exists>w'. notify w changed = Ok w' \<and> watcher_wf w' \<and> w_m w' = w_m w \<and>
    (\<forall>iface sel ch. subscription w iface sel ch \<longrightarrow>
      ch_Buffer (w_chans w' ch) =
        delivered (ch_Buffer (w_chans w ch)) (filter (\<lambda>c. sel AND c \<noteq> 0) (changes_of iface changed)))"
proof -
  have reg: "snd x \<in> set (subscribed w)" if x: "x \<in> set (sends w changed)" for x
  proof -
    obtain i m c k v where "map_of (w_m w) i = Some m" "(k, v) \<in> set m" "snd x \<in> set v"
      using x by (auto simp: sends_def change_sends_def split: option.splits if_splits; metis)
    then show ?thesis unfolding subscribed_flat by (force dest: map_of_SomeD)
  qed
  then have op: "\<forall>x \<in> set (sends w changed). \<not> ch_Closed (w_chans w (snd x))"
    using assms by (auto simp: watcher_wf_def)
  obtain w' where w': "send_all w (sends w changed) = Ok w'" "w_next w' = w_next w"
    and b: "\<And>ch. w_chans w' ch = (w_chans w ch)\<lparr>ch_Buffer :=
        delivered (ch_Buffer (w_chans w ch)) (map fst (filter (\<lambda>x. snd x = ch) (sends w changed)))\<rparr>"
    using send_all_Ok[OF op] by blast
  have m: "w_m w' = w_m w" using send_all_m[OF w'(1)] .
  have sub: "subscribed w' = subscribed w" by (simp add: subscribed_def m)
  have "watcher_wf w'"
    using assms unfolding watcher_wf_def sub m w'(2) by (auto simp: b delivered_length)
  moreover have "notify w changed = Ok w'" using notify_sends w'(1) by simp
  ultimately show ?thesis using m by (auto simp: b sends_to[OF assms])
qed


section \<open>The end of the watch\<close>

lemma close_chans:
  assumes "distinct xs" and "\<forall>ch \<in> set xs. \<not> ch_Closed (w_chans w ch)"
  shows "\<exists>w'. foldO close_chan w xs = Ok w' \<and> w_m w' = w_m w \<and>
    (\<forall>ch. w_chans w' ch = (if ch \<in> set xs then (w_chans w ch)\<lparr>ch_Closed := True\<rparr> else w_chans w ch))"
  using assms
proof (induction xs arbitrary: w)
  case (Cons x xs)
  let ?w = "w\<lparr>w_chans := (w_chans w)(x := (w_chans w x)\<lparr>ch_Closed := True\<rparr>)\<rparr>"
  have "close_chan w x = Ok ?w" using Cons.prems by (simp add: close_chan_def Let_def)
  moreover have "distinct xs" "\<forall>ch \<in> set xs. \<not> ch_Closed (w_chans ?w ch)" using Cons.prems by auto
  ultimately show ?case using Cons.IH[of ?w] Cons.prems(1) by (fastforce simp: fun_eq_iff)
qed simp

lemma close_all_Ok:
  assumes "watcher_wf w"
  shows "\<exists>w'. close_all w = Ok w' \<and>
    (\<forall>ch. w_chans w' ch = (if ch \<in> set (subscribed w) then (w_chans w ch)\<lparr>ch_Closed := True\<rparr> else w_chans w ch))"
  using close_chans[of "subscribed w" w] assms by (auto simp: close_all_def watcher_wf_def)

text \<open>Everything a connection reports reaches the subscribers as the changes of its link messages.\<close>

definition message_changes :: "string \<Rightarrow> link_message list \<Rightarrow> change list" where
  "message_changes iface msgs =
     concat (map (\<lambda>m. case m of
        LinkMessage (Some (i, s)) \<Rightarrow>
          (case operStateChange s of Some c \<Rightarrow> if i = iface then [c] else [] | None \<Rightarrow> [])
      | _ \<Rightarrow> []) msgs)"

lemma changes_of_update:
  "changes_of iface (map_update i [] (\<lambda>cs. cs @ [c]) m) = changes_of iface m @ (if i = iface then [c] else [])"
  if "distinct (map fst m)"
proof -
  have none: "filter (\<lambda>p. fst p = iface) m = []" if "iface \<notin> fst ` set m" for m :: change_set
    using that by (auto simp: filter_empty_conv)
  show ?thesis
    using that by (induction i "[] :: change list" "\<lambda>cs. cs @ [c]" m rule: map_update.induct)
      (auto simp: changes_of_def none)
qed

lemma process_changes:
  "changes_of iface (process msgs) = message_changes iface msgs" and "distinct (map fst (process msgs))"
proof -
  have "changes_of iface (foldl process_message cs msgs) = changes_of iface cs @ message_changes iface msgs \<and>
      distinct (map fst (foldl process_message cs msgs))" if "distinct (map fst cs)" for cs
    using that
  proof (induction msgs arbitrary: cs)
    case (Cons m msgs)
    have "distinct (map fst (process_message cs m))"
      using Cons.prems by (auto simp: process_message_def map_update_distinct split: link_message.split option.split)
    moreover have "changes_of iface (process_message cs m) = changes_of iface cs @ message_changes iface [m]"
      using changes_of_update[OF Cons.prems]
      by (auto simp: process_message_def message_changes_def split: link_message.split option.split)
    ultimately show ?case using Cons.IH by (simp add: message_changes_def)
  qed (simp add: message_changes_def)
  from this[of "[]"] show "changes_of iface (process msgs) = message_changes iface msgs"
    "distinct (map fst (process msgs))" by (simp_all add: process_def changes_of_def)
qed

end
