(* ===== verification/Server_Facts.thy ===== *)
theory Server_Facts
  imports Server Netstate_Facts
begin

text \<open>
  The tasks built from a configuration and their subscriptions, the retry loop of the HTTP task, and the
  way a link state change reaches a task.
\<close>

section \<open>Building the tasks\<close>

definition active :: "interface_config \<Rightarrow> bool" where
  "active ifi \<longleftrightarrow> ci_Advertise ifi \<or> ci_Monitor ifi"

definition task_of :: "interface_config \<Rightarrow> nat \<Rightarrow> task" where
  "task_of ifi ch =
     (if ci_Advertise ifi then
        AdvertiserTask (NewAdvertiser ifi) \<lparr>d_iface = ci_Name ifi, d_mode = Dialer.Advertise\<rparr> (Some ch)
      else MonitorTask (NewMonitor (ci_Name ifi) (ci_Verbose ifi))
             \<lparr>d_iface = ci_Name ifi, d_mode = Dialer.Monitor\<rparr> (Some ch))"

fun interface_tasks :: "nat \<Rightarrow> interface_config list \<Rightarrow> task list" where
  "interface_tasks n [] = []"
| "interface_tasks n (ifi # ifs) = task_of ifi n # interface_tasks (Suc n) ifs"

lemma Subscribe_next: "Subscribe iface sel w = (ch, w') \<Longrightarrow> ch = w_next w \<and> w_next w' = Suc (w_next w)"
  by (auto simp: Subscribe_def Let_def)

lemma build_tasks_loop:
  assumes "sv_w s = Some w" and "watcher_wf w"
  shows "\<exists>w'. foldO build_task (ts, s) ifs =
      Ok (ts @ interface_tasks (w_next w) (filter active ifs), s\<lparr>sv_w := Some w'\<rparr>) \<and> watcher_wf w' \<and>
    (\<forall>i k c. subscription w i k c \<longrightarrow> subscription w' i k c) \<and>
    (\<forall>j < length (filter active ifs). subscription w' (ci_Name (filter active ifs ! j)) LinkDown (w_next w + j))"
  using assms
proof (induction ifs arbitrary: ts s w)
  case Nil
  then have "s = s\<lparr>sv_w := Some w\<rparr>" by (cases s) simp
  moreover have "foldO build_task (ts, s) [] = Ok (ts @ interface_tasks (w_next w) (filter active []), s)" by simp
  ultimately show ?case using Nil(2) by (metis filter.simps(1) less_nat_zero_code list.size(3))
next
  case (Cons ifi ifs)
  show ?case
  proof (cases "active ifi")
    case False
    then have "build_task (ts, s) ifi = Ok (ts, s)" by (simp add: build_task_def active_def)
    then show ?thesis using Cons.IH[OF Cons.prems, of ts] False by simp
  next
    case True
    obtain ch w1 where w1: "Subscribe (ci_Name ifi) LinkDown w = (ch, w1)" by fastforce
    note nx = Subscribe_next[OF w1]
    let ?s = "s\<lparr>sv_w := Some w1\<rparr>"
    have b: "build_task (ts, s) ifi = Ok (ts @ [task_of ifi ch], ?s)"
      using True w1 Cons.prems(1) by (auto simp: build_task_def active_def subscribe_link_def task_of_def)
    have s1: "sv_w ?s = Some w1" by simp
    from Cons.IH[OF s1 Subscribe_wf[OF w1 Cons.prems(2)], of "ts @ [task_of ifi ch]"] obtain w' where
      w': "foldO build_task (ts @ [task_of ifi ch], ?s) ifs =
          Ok ((ts @ [task_of ifi ch]) @ interface_tasks (w_next w1) (filter active ifs), ?s\<lparr>sv_w := Some w'\<rparr>)"
        "watcher_wf w'" "\<forall>i k c. subscription w1 i k c \<longrightarrow> subscription w' i k c"
        "\<forall>j < length (filter active ifs). subscription w' (ci_Name (filter active ifs ! j)) LinkDown (w_next w1 + j)"
      by blast
    have "foldO build_task (ts, s) (ifi # ifs) =
        Ok (ts @ interface_tasks (w_next w) (filter active (ifi # ifs)), s\<lparr>sv_w := Some w'\<rparr>)"
      using b w'(1) nx True by simp
    moreover have "subscription w' (ci_Name (filter active (ifi # ifs) ! j)) LinkDown (w_next w + j)"
      if "j < length (filter active (ifi # ifs))" for j
      using that w'(3,4) nx True Subscribe_subscription[OF w1] by (cases j) auto
    ultimately show ?thesis using w'(2,3) Subscribe_subscription[OF w1] by blast
  qed
qed

lemma BuildTasks_spec:
  assumes "sv_w s = Some w" and "watcher_wf w"
  shows "\<exists>w'. BuildTasks cfg s =
      Ok (interface_tasks (w_next w) (filter active (cfg_Interfaces cfg)) @
          (if dbg_Address (cfg_Debug cfg) \<noteq> '''' then [HTTPTask (dbg_Address (cfg_Debug cfg))] else []) @
          [WatcherTask], s\<lparr>sv_w := Some w'\<rparr>) \<and> watcher_wf w' \<and>
    (\<forall>j < length (filter active (cfg_Interfaces cfg)).
       subscription w' (ci_Name (filter active (cfg_Interfaces cfg) ! j)) LinkDown (w_next w + j))"
  using build_tasks_loop[OF assms, of "[]" "cfg_Interfaces cfg"] by (auto simp: BuildTasks_def)


section \<open>The retry loop\<close>

lemma serve_wait_fields [simp]:
  "ss_State (serve_wait i delay s) = ss_State s" "ss_Calls (serve_wait i delay s) = ss_Calls s"
  "ss_Waited (serve_wait i delay s) = ss_Waited s + (if i \<noteq> 0 then delay else 0)"
  by (simp_all add: serve_wait_def)

lemma serve_call_fields:
  assumes "serve_call fn i s = (r, s')"
  shows "fn i (ss_State s) = (r, ss_State s')" and "ss_Calls s' = Suc (ss_Calls s)" and "ss_Waited s' = ss_Waited s"
  using assms by (auto simp: serve_call_def split: prod.splits)

lemma serve_loop_facts:
  assumes "serve_loop env delay fn n i s = (r, s')" and "0 \<le> delay"
  shows "ss_Calls s' \<le> ss_Calls s + n \<and>
    ss_Waited s' \<le> ss_Waited s + int n * delay \<and>
    (i = 0 \<longrightarrow> 0 < n \<longrightarrow> ss_Waited s' \<le> ss_Waited s + int (n - 1) * delay)"
  using assms
proof (induction n arbitrary: i s)
  case 0
  then show ?case by simp
next
  case (Suc n)
  obtain q s2 where c: "serve_call fn i (serve_wait i delay s) = (q, s2)" by fastforce
  note f = serve_call_fields[OF c]
  have d: "0 \<le> int n * delay" using Suc.prems(2) by simp
  consider "s' = s" | "s' = s2" | "serve_loop env delay fn n (Suc i) s2 = (r, s')"
    using Suc.prems(1) c by (auto split: if_splits outcome.splits)
  then show ?case
  proof cases
    case 3
    have "int (Suc n) * delay = int n * delay + delay" by (simp add: algebra_simps)
    then show ?thesis using Suc.IH[OF 3 Suc.prems(2)] f d Suc.prems(2) by (cases "i = 0") auto
  qed (use f d Suc.prems(2) in \<open>auto simp: algebra_simps\<close>)
qed

lemma serve_bounds:
  assumes "serve env delay fn t = (r, s')" and "0 \<le> delay"
  shows "ss_Calls s' \<le> 40" and "ss_Waited s' \<le> 39 * delay"
  using serve_loop_facts[OF assms(1)[unfolded serve_def] assms(2)] by (simp_all add: serve_attempts_def)

text \<open>A result other than the timeout comes from the context or from the last call.\<close>

lemma serve_loop_result:
  assumes "serve_loop env delay fn n i s = (Err e, s')" and "e \<noteq> Msg ''timed out starting HTTP debug server''"
  shows "\<exists>k t. fst (fn k t) = Err e \<and> as_op_error e = None \<and> \<not> errors_is e ErrServerClosed"
  using assms
proof (induction n arbitrary: i s)
  case (Suc n)
  obtain q s2 where c: "serve_call fn i (serve_wait i delay s) = (q, s2)" by fastforce
  have fq: "fst (fn i (ss_State s)) = q" using serve_call_fields(1)[OF c] by simp
  consider "q = Err e" "as_op_error e = None" "\<not> errors_is e ErrServerClosed"
    | "serve_loop env delay fn n (Suc i) s2 = (Err e, s')"
    using Suc.prems(1) c by (cases "as_op_error e") (auto split: if_splits outcome.splits)
  then show ?case
  proof cases
    case 1
    then show ?thesis using fq by blast
  next
    case 2
    then show ?thesis using Suc.IH Suc.prems(2) by blast
  qed
qed simp

text \<open>
  The HTTP task never closes its readiness channel twice: once it listens, the function returns only
  after the context ended, and then the loop does.
\<close>

lemma http_loop_no_panic:
  assumes "\<forall>k. \<not> is_Panic (listen k) \<and> (\<exists>e. served k = Err e)"
    and "\<forall>k j. listen k = Ok () \<longrightarrow> k < j \<longrightarrow> se_Canceled (env j)"
    and "ss_State s \<longrightarrow> (\<exists>k < i. listen k = Ok ())"
  shows "\<not> is_Panic (fst (serve_loop env delay (http_fn listen served) n i s))"
  using assms(3)
proof (induction n arbitrary: i s)
  case (Suc n)
  show ?case
  proof (cases "se_Canceled (env i)")
    case False
    then have ready: "\<not> ss_State s" using Suc.prems assms(2) by blast
    obtain q s2 where c: "serve_call (http_fn listen served) i (serve_wait i delay s) = (q, s2)" by fastforce
    have h: "http_fn listen served i False = (q, ss_State s2)"
      using serve_call_fields(1)[OF c] ready by simp
    have "(\<exists>e. q = Err e) \<and> (ss_State s2 \<longrightarrow> listen i = Ok ())"
    proof (cases "listen i")
      case (Ok u)
      then show ?thesis using assms(1) h by (auto simp: http_fn_def)
    next
      case (Err e)
      then have "q = Err e \<and> \<not> ss_State s2" using h by (simp add: http_fn_def)
      then show ?thesis by simp
    next
      case (Panic p)
      then show ?thesis using assms(1) by (metis is_Panic.simps(1))
    qed
    then obtain e where e: "q = Err e" and r: "ss_State s2 \<longrightarrow> (\<exists>k < Suc i. listen k = Ok ())" by blast
    from Suc.IH[OF r] show ?thesis using c e by (cases "i = 0") simp_all
  qed simp
qed simp


section \<open>Link state changes\<close>

lemma link_bits: "LinkDown AND LinkUp = 0" "LinkDown AND LinkTesting = 0" "LinkDown AND LinkUnknown = 0"
  "LinkDown AND LinkDormant = 0" "LinkDown AND LinkNotPresent = 0" "LinkDown AND LinkLowerLayerDown = 0"
  "LinkDown AND LinkDown = LinkDown" "LinkDown \<noteq> 0"
  by (simp_all add: LinkDown_def LinkUp_def LinkTesting_def LinkUnknown_def LinkDormant_def
      LinkNotPresent_def LinkLowerLayerDown_def)

definition reports_down :: "string \<Rightarrow> link_message \<Rightarrow> bool" where
  "reports_down iface m \<longleftrightarrow> m = LinkMessage (Some (iface, OperStateDown))"

lemma down_changes:
  "filter (\<lambda>c. LinkDown AND c \<noteq> 0) (message_changes iface msgs) =
     replicate (length (filter (reports_down iface) msgs)) LinkDown"
proof (induction msgs)
  case (Cons m msgs)
  have "filter (\<lambda>c. LinkDown AND c \<noteq> 0) (message_changes iface [m]) =
      (if reports_down iface m then [LinkDown] else [])"
  proof (cases m)
    case (LinkMessage a)
    then show ?thesis
    proof (cases a)
      case (Some p)
      obtain i st where "p = (i, st)" by (cases p)
      then show ?thesis using LinkMessage Some
        by (cases st) (auto simp: message_changes_def reports_down_def link_bits)
    qed (simp add: message_changes_def reports_down_def)
  qed (simp add: message_changes_def reports_down_def)
  then show ?case using Cons by (simp add: message_changes_def)
qed (simp add: message_changes_def)

lemma link_down_delivered:
  assumes "watcher_wf w" and "subscription w iface LinkDown ch" and "notify w (process msgs) = Ok w'"
  shows "ch_Buffer (w_chans w' ch) =
    delivered (ch_Buffer (w_chans w ch)) (replicate (length (filter (reports_down iface) msgs)) LinkDown)"
  using notify_delivers[OF assms(1), of "process msgs"] assms(2,3)
  by (auto simp: process_changes(1) down_changes)

end
