(* ===== verification/Prepared.thy ===== *)
theory Prepared
  imports Config_Invariant Advertise_Facts
begin

text \<open>
  What \<open>Prepare\<close> gives the plugins of a parsed interface, and what goes wrong without it: a prepared
  interface generates its advertisement or an error, never a panic, as long as the kernel's messages are
  of the documented kind, and unless the wildcard route meets a default route of a loopback interface,
  whose message has no destination; an automatic prefix that was not prepared panics.
\<close>

section \<open>Messages of the kernel\<close>

fun address_message_ok :: "rtnl_message \<Rightarrow> bool" where
  "address_message_ok (AddressMsg am) \<longleftrightarrow>
     am_Family am = AF_INET6 \<and>
     (case am_Attributes am of
        None \<Rightarrow> False
      | Some aa \<Rightarrow> (case AddrFromSlice (aa_Address aa) of None \<Rightarrow> False | Some ip \<Rightarrow> plain_v6 ip))"
| "address_message_ok _ \<longleftrightarrow> False"

fun route_message_ok :: "rtnl_message \<Rightarrow> bool" where
  "route_message_ok (RouteMsg rm) \<longleftrightarrow>
     rm_Family rm = AF_INET6 \<and>
     (case AddrFromSlice (rm_Dst rm) of None \<Rightarrow> False | Some ip \<Rightarrow> plain_v6 ip)"
| "route_message_ok _ \<longleftrightarrow> False"

lemma address_ip_panics: "is_Panic (address_ip m) \<longleftrightarrow> \<not> address_message_ok m"
  by (cases m) (auto simp: address_ip_def plain_v6_def split: option.splits)

lemma message_route_panics: "is_Panic (message_route m) \<longleftrightarrow> \<not> route_message_ok m"
  by (cases m) (auto simp: message_route_def plain_v6_def split: option.splits)

text \<open>
  What rtnetlink documents: an answer is an error or a list of messages of the requested kind and
  family, an address message carries an address, and a route message carries its destination unless
  it is a default route.
\<close>

fun route_message_answered :: "rtnl_message \<Rightarrow> bool" where
  "route_message_answered (RouteMsg rm) \<longleftrightarrow>
     rm_Family rm = AF_INET6 \<and>
     (rm_Dst rm = [] \<or> (case AddrFromSlice (rm_Dst rm) of None \<Rightarrow> False | Some ip \<Rightarrow> plain_v6 ip))"
| "route_message_answered _ \<longleftrightarrow> False"

definition os_answers :: "os \<Rightarrow> bool" where
  "os_answers os \<longleftrightarrow>
     (\<forall>r. \<not> is_Panic (os_Execute os r)) \<and> \<not> is_Panic (os_Interfaces os) \<and>
     (\<forall>f i ms. os_Execute os (RTM_GETADDR f i) = Ok ms \<longrightarrow> list_all address_message_ok ms) \<and>
     (\<forall>f i t ms. os_Execute os (RTM_GETROUTE f i t) = Ok ms \<longrightarrow> list_all route_message_answered ms)"

text \<open>A loopback interface that is up has a default route.\<close>

definition loopback_default :: "os \<Rightarrow> bool" where
  "loopback_default os \<longleftrightarrow>
     (\<exists>ifs lo ms rm. os_Interfaces os = Ok ifs \<and> lo \<in> set ifs \<and> if_Loopback lo \<and> if_Up lo \<and>
        os_Execute os (RTM_GETROUTE AF_INET6 (of_int (if_Index lo)) RT_TABLE_MAIN) = Ok ms \<and>
        RouteMsg rm \<in> set ms \<and> rm_Dst rm = [])"

text \<open>Answers without any default route.\<close>

definition os_wellformed :: "os \<Rightarrow> bool" where
  "os_wellformed os \<longleftrightarrow>
     (\<forall>r. \<not> is_Panic (os_Execute os r)) \<and> \<not> is_Panic (os_Interfaces os) \<and>
     (\<forall>f i ms. os_Execute os (RTM_GETADDR f i) = Ok ms \<longrightarrow> list_all address_message_ok ms) \<and>
     (\<forall>f i t ms. os_Execute os (RTM_GETROUTE f i t) = Ok ms \<longrightarrow> list_all route_message_ok ms)"

lemma AddrFromSlice_Nil [simp]: "AddrFromSlice [] = None"
  by (simp add: AddrFromSlice_def)

lemma route_message_ok_iff:
  "route_message_ok m \<longleftrightarrow> route_message_answered m \<and> (\<forall>rm. m = RouteMsg rm \<longrightarrow> rm_Dst rm \<noteq> [])"
  by (cases m) auto

lemma os_wellformed_answers:
  assumes "os_wellformed os"
  shows "os_answers os" and "\<not> loopback_default os"
proof -
  show "os_answers os"
    using assms unfolding os_wellformed_def os_answers_def list_all_iff route_message_ok_iff by blast
  show "\<not> loopback_default os"
  proof
    assume "loopback_default os"
    then obtain lo :: net_interface and ms rm where
      "os_Execute os (RTM_GETROUTE AF_INET6 (of_int (if_Index lo)) RT_TABLE_MAIN) = Ok ms"
      "RouteMsg rm \<in> set ms" "rm_Dst rm = []"
      unfolding loopback_default_def by blast
    then show False
      using assms unfolding os_wellformed_def list_all_iff route_message_ok_iff by blast
  qed
qed

lemma AddressesByIndex_no_panic:
  assumes "os_answers os"
  shows "\<not> is_Panic (AddressesByIndex os i)"
  unfolding AddressesByIndex_def
proof (rule bindO_not_Panic)
  show "\<not> is_Panic (os_Execute os (RTM_GETADDR AF_INET6 (of_int i)))" using assms by (simp add: os_answers_def)
next
  fix ms
  assume "os_Execute os (RTM_GETADDR AF_INET6 (of_int i)) = Ok ms"
  then have "list_all address_message_ok ms" using assms unfolding os_answers_def by blast
  then show "\<not> is_Panic (mapO address_ip ms)"
    by (intro mapO_no_panic) (auto simp: address_ip_panics list_all_iff)
qed

lemma routesByIndex_no_panic:
  assumes "os_answers os" and "\<not> loopback_default os"
    and "os_Interfaces os = Ok ifs" and "lo \<in> set ifs" and "if_Loopback lo" and "if_Up lo"
  shows "\<not> is_Panic (routesByIndex os (if_Index lo))"
  unfolding routesByIndex_def
proof (rule bindO_not_Panic)
  let ?r = "RTM_GETROUTE AF_INET6 (of_int (if_Index lo)) RT_TABLE_MAIN"
  show "\<not> is_Panic (os_Execute os ?r)" using assms(1) by (simp add: os_answers_def)
  fix ms
  assume ms: "os_Execute os ?r = Ok ms"
  then have "list_all route_message_answered ms" using assms(1) unfolding os_answers_def by blast
  moreover have "rm_Dst rm \<noteq> []" if "RouteMsg rm \<in> set ms" for rm
    using ms that assms(2-6) unfolding loopback_default_def by blast
  ultimately show "\<not> is_Panic (mapO message_route ms)"
    by (intro mapO_no_panic) (auto simp: message_route_panics list_all_iff route_message_ok_iff)
qed

lemma LoopbackRoutes_no_panic:
  assumes "os_answers os" and "\<not> loopback_default os"
  shows "\<not> is_Panic (LoopbackRoutes os)"
  unfolding LoopbackRoutes_def
proof (rule bindO_not_Panic)
  show "\<not> is_Panic (os_Interfaces os)" using assms(1) by (simp add: os_answers_def)
  fix ifs
  assume "os_Interfaces os = Ok ifs"
  then show "\<not> is_Panic (foldO (loopback_iteration os) [] ifs)"
    using routesByIndex_no_panic[OF assms]
    by (intro foldO_no_panic) (auto simp: loopback_iteration_def bindO_Panic_iff)
qed


section \<open>Prepared plugins\<close>

fun ready :: "plugin \<Rightarrow> bool" where
  "ready (PrefixP p) \<longleftrightarrow> px_TimeNow p \<noteq> None \<and> px_Addrs p \<noteq> None \<and> (px_Deprecated p \<longrightarrow> px_Epoch p \<noteq> 0)"
| "ready (RouteP r) \<longleftrightarrow> ro_TimeNow r \<noteq> None \<and> ro_Routes r \<noteq> None \<and> ro_Addrs r \<noteq> None \<and>
     (ro_Deprecated r \<longrightarrow> ro_Epoch r \<noteq> 0)"
| "ready (RDNSSP r) \<longleftrightarrow> rs_Addrs r \<noteq> None"
| "ready _ \<longleftrightarrow> True"

text \<open>The wildcard route is the only plugin that asks for the loopback routes.\<close>

fun route_wildcard_plugin :: "plugin \<Rightarrow> bool" where
  "route_wildcard_plugin (RouteP r) \<longleftrightarrow> ro_Auto r"
| "route_wildcard_plugin _ \<longleftrightarrow> False"

lemma plugin_Prepare_Ok: "\<exists>q. plugin_Prepare p ifi = Ok q"
  by (cases p) (simp_all add: lla_Prepare_def prefix_Prepare_def route_Prepare_def rdnss_Prepare_def)

lemma plugin_Prepare_owned: "plugin_Prepare p ifi = Ok q \<Longrightarrow> plugin_owned q = plugin_owned p"
  by (cases p) (auto simp: lla_Prepare_def prefix_Prepare_def route_Prepare_def rdnss_Prepare_def)

lemma plugin_Prepare_ready:
  "plugin_Prepare p ifi = Ok q \<Longrightarrow> plugin_wf ndp epoch p \<Longrightarrow> epoch \<noteq> 0 \<Longrightarrow> ready q"
  by (cases p) (auto simp: lla_Prepare_def prefix_Prepare_def route_Prepare_def rdnss_Prepare_def
      prefix_wf_def route_wf_def)

lemma plugin_Prepare_wildcard:
  "plugin_Prepare p ifi = Ok q \<Longrightarrow> \<not> route_wildcard_plugin q \<or> (\<exists>r. p = RouteP r \<and> ro_Auto r)"
  by (cases p) (auto simp: lla_Prepare_def prefix_Prepare_def route_Prepare_def rdnss_Prepare_def)

lemma mapO_total: "(\<And>x. \<exists>y. f x = Ok y) \<Longrightarrow> \<exists>ys. mapO f xs = Ok ys"
proof (induction xs)
  case (Cons x xs)
  then obtain y ys where "f x = Ok y" "mapO f xs = Ok ys" by blast
  then show ?case by simp
qed simp

lemma prepare_plugins_Ok: "\<exists>ps. prepare_plugins ifi qs = Ok ps"
proof -
  have "\<exists>y. wrapErr w (plugin_Prepare p ifi) = Ok y" for w p using plugin_Prepare_Ok[of p ifi] by auto
  then show ?thesis unfolding prepare_plugins_def by (intro mapO_total)
qed

lemma prepare_plugins_mem:
  "prepare_plugins ifi ps = Ok qs \<Longrightarrow> q \<in> set qs \<Longrightarrow> \<exists>p \<in> set ps. plugin_Prepare p ifi = Ok q"
  unfolding prepare_plugins_def by (drule (1) mapO_Ok_set) auto

lemma prepare_plugins_image:
  assumes "prepare_plugins ifi ps = Ok qs" and "p \<in> set ps"
  shows "\<exists>q \<in> set qs. plugin_Prepare p ifi = Ok q"
  using assms unfolding prepare_plugins_def
  by (induction ps arbitrary: qs) (auto simp: bindO_Ok_iff)

lemma call_no_panic:
  "f \<noteq> None \<Longrightarrow> \<not> is_Panic (call_now os f)"
  "g \<noteq> None \<Longrightarrow> os_answers os \<Longrightarrow> \<not> is_Panic (call_addrs os g)"
  "k \<noteq> None \<Longrightarrow> os_answers os \<Longrightarrow> \<not> loopback_default os \<Longrightarrow> \<not> is_Panic (call_routes os k)"
  using AddressesByIndex_no_panic LoopbackRoutes_no_panic
  by (auto simp: call_now_def call_addrs_def call_routes_def split: option.split time_fn.split addrs_fn.split routes_fn.split)

lemma ready_no_panic:
  assumes "ready p" and "os_answers os" and "loopback_default os \<Longrightarrow> \<not> route_wildcard_plugin p"
  shows "\<not> is_Panic (plugin_options os p)"
proof (cases p)
  case (PrefixP q)
  have "\<not> is_Panic (prefix_current os q)" "\<not> is_Panic (prefix_lifetimes os q)"
    using assms PrefixP
    by (auto simp: prefix_current_def prefix_lifetimes_def bindO_Panic_iff call_no_panic time_IsZero_def)
  then show ?thesis using PrefixP by (auto simp: prefix_options_def bindO_Panic_iff split: prod.splits)
next
  case (RouteP r)
  have "\<not> is_Panic (route_current os r)" if "ro_Auto r"
  proof -
    have "\<not> loopback_default os" using assms(3) RouteP that by auto
    then show ?thesis using assms(1,2) RouteP by (auto simp: route_current_def bindO_Panic_iff call_no_panic)
  qed
  moreover have "\<not> is_Panic (route_lifetime os r)"
    using assms RouteP by (auto simp: route_lifetime_def bindO_Panic_iff call_no_panic time_IsZero_def)
  ultimately show ?thesis using RouteP by (auto simp: route_options_def bindO_Panic_iff split: if_splits)
next
  case (RDNSSP r)
  have "\<not> is_Panic (rdnss_current os r)"
    using assms RDNSSP by (auto simp: rdnss_current_def bindO_Panic_iff call_no_panic Let_def)
  then show ?thesis using RDNSSP by (auto simp: rdnss_options_def bindO_Panic_iff)
qed simp_all

lemma plugin_Apply_panics: "is_Panic (plugin_Apply os p s) \<longleftrightarrow> is_Panic (plugin_options os p)"
  using plugin_Apply_Ok[of os p _ s] plugin_Apply_Err[of os p _ s] plugin_Apply_Panic[of os p _ s]
  by (cases "plugin_options os p") fastforce+

lemma ready_generates:
  assumes "\<forall>p \<in> set (ci_Plugins c). ready p" and "os_answers os"
    and "loopback_default os \<Longrightarrow> \<forall>p \<in> set (ci_Plugins c). \<not> route_wildcard_plugin p"
  shows "\<not> is_Panic (RouterAdvertisement_of os c forwarding h)"
proof -
  have "\<not> is_Panic (apply_plugins os (ci_Plugins c) s)" for s
    unfolding apply_plugins_def using assms
    by (intro foldO_no_panic) (simp add: plugin_Apply_panics ready_no_panic)
  then show ?thesis
    by (auto simp: RouterAdvertisement_of_def bindO_Panic_iff split: prod.splits if_splits)
qed

text \<open>An automatic prefix that was not prepared.\<close>

lemma unprepared_prefix_panics:
  assumes "ci_Plugins c = PrefixP p # ps" and "px_Auto p" and "px_Addrs p = None"
  shows "is_Panic (RouterAdvertisement_of os c forwarding h)"
proof -
  have "is_Panic (plugin_options os (PrefixP p))"
    using assms(2,3) by (simp add: prefix_options_def prefix_current_def call_addrs_def)
  then have "is_Panic (plugin_Apply os (PrefixP p) s)" for s by (simp only: plugin_Apply_panics)
  then have "is_Panic (apply_plugins os (ci_Plugins c) s)" for s
    unfolding apply_plugins_def assms(1) foldO.simps(2) bindO_Panic_iff wrapErr_is_Panic by blast
  then show ?thesis by (simp add: RouterAdvertisement_of_def bindO_Panic_iff)
qed

text \<open>Plugins own no MTU option.\<close>

lemma owned_not_MTU: "plugin_wf ndp epoch p \<Longrightarrow> q \<in> set (plugin_owned p) \<Longrightarrow> as_MTU (snd q) = None"
  by (cases p) auto

end
