(* ===== verification/Advertiser_Properties.thy ===== *)
theory Advertiser_Properties
  imports Corerad_Properties Server_Facts Prepared
begin

text \<open>
  Properties of an advertiser together with the parts it works with: the listener that feeds it, the
  scheduler that answers for it, the signal that ends it, and the configuration it was built from.
\<close>

section \<open>Messages\<close>

text \<open>
  C17: a router solicitation is always answered: its handler asks for an advertisement to the sender, or
  to all nodes when the sender has no address yet, and the scheduler accepts the request, due within
  half a second when it is unicast.
\<close>

theorem solicitation_answered:
  assumes "rng_ok draw" and "addr_IsValid peer"
  shows "\<exists>ip s' sc' due.
    handle env a (RouterSolicitation opts) peer s = (Ok ip, s') \<and> addr_IsValid ip \<and>
    ip = (if IsUnspecified peer then IPv6LinkLocalAllNodes else peer) \<and>
    schedule_request minDelay ip now draw sc = Ok sc' \<and> sc_tasks sc' = sc_tasks sc @ [(due, ip)] \<and>
    (if IsMulticast ip then due = now \<or> due = now + minDelay else now \<le> due \<and> due < now + maxRADelay)"
proof -
  define ip where "ip = (if IsUnspecified peer then IPv6LinkLocalAllNodes else peer)"
  have "addr_IsValid ip" using assms(2) by (simp add: ip_def IPv6LinkLocalAllNodes_def)
  moreover obtain s' where "handle env a (RouterSolicitation opts) peer s = (Ok ip, s')"
    by (simp add: handle_def Let_def ip_def)
  moreover obtain sc' due where "schedule_request minDelay ip now draw sc = Ok sc'"
      "sc_tasks sc' = sc_tasks sc @ [(due, ip)]"
      "if IsMulticast ip then due = now \<or> due = now + minDelay else now \<le> due \<and> due < now + maxRADelay"
    using schedule_request_spec[OF assms(1), of minDelay ip now sc] by (auto split: if_splits)
  ultimately show ?thesis unfolding ip_def by blast
qed

theorem solicitation_answered_witness:
  "\<exists>ip s' sc' due.
    handle demo_env (NewAdvertiser demo_interface) (RouterSolicitation []) demo_client demo_state = (Ok ip, s') \<and>
    addr_IsValid ip \<and> ip = (if IsUnspecified demo_client then IPv6LinkLocalAllNodes else demo_client) \<and>
    schedule_request minDelayBetweenRAs ip 9 (half_draw 0) (schedule_start 0) = Ok sc' \<and>
    sc_tasks sc' = sc_tasks (schedule_start 0) @ [(due, ip)] \<and>
    (if IsMulticast ip then due = 9 \<or> due = 9 + minDelayBetweenRAs else 9 \<le> due \<and> due < 9 + maxRADelay)"
  by (rule solicitation_answered) (use half_draw_ok in \<open>auto simp: demo_client_def\<close>)

text \<open>
  C19: an advertisement from another router is compared with the own one, as it is generated now: nothing
  is answered, and the hook fires and the inconsistency counter moves exactly when the two differ in a
  value they must share, or when both carry an MTU or both carry a captive portal, equal or not.  The
  options of a received message are objects of their own.
\<close>

theorem inconsistency_reported:
  assumes "handle env a (RouterAdvertisement ra) peer s = (r, s')"
    and "buildRA env (adv_cfg a) s = (Ok want, t)"
    and "fst ` set (ra_Options want) \<inter> fst ` set (ra_Options ra) = {}"
  shows "r = Ok AddrZero \<and>
    advertised_header env (adv_cfg a) want \<and> advertised_options env (adv_cfg a) want \<and>
    (\<exists>agree. (agree \<longleftrightarrow> values_agree want ra \<and> at_most_one as_MTU want ra \<and> at_most_one as_CaptivePortal want ra) \<and>
      av_Hook s' = av_Hook s @ (if adv_OnInconsistentRA a \<and> \<not> agree then [(want, ra)] else []) \<and>
      (counts ''AdvRouterAdvertisementInconsistenciesTotal'' (av_Metrics s') =
        counts ''AdvRouterAdvertisementInconsistenciesTotal'' (av_Metrics s) \<longleftrightarrow> agree))"
proof -
  have "consistent want ra \<longleftrightarrow>
      values_agree want ra \<and> at_most_one as_MTU want ra \<and> at_most_one as_CaptivePortal want ra"
    by (simp add: consistent_def same_object_disjoint[OF assms(3)])
  then show ?thesis using handle_ra[OF assms(1,2)] buildRA_facts(1,2)[OF assms(2)] by blast
qed

definition demo_advertiser :: advertiser where
  "demo_advertiser = (NewAdvertiser demo_interface)\<lparr>adv_OnInconsistentRA := True\<rparr>"

lemma demo_advertiser_builds:
  "buildRA demo_env (adv_cfg demo_advertiser) demo_state =
     (Ok (demo_ra (1800 * Second) 7), demo_state\<lparr>av_Heap := 10\<rparr>)"
proof -
  have "buildRA demo_env demo_interface demo_state =
      (Ok (demo_ra (1800 * Second) (av_Heap demo_state)), demo_state\<lparr>av_Heap := av_Heap demo_state + 3\<rparr>)"
    by (rule demo_buildRA)
  then show ?thesis by (simp add: demo_advertiser_def NewAdvertiser_def) (simp add: demo_state_def)
qed

theorem inconsistency_reported_witness:
  "av_Hook (snd (handle demo_env demo_advertiser (RouterAdvertisement (demo_ra 0 1)) demo_client demo_state)) =
    [(demo_ra (1800 * Second) 7, demo_ra 0 1)]"
proof -
  have "fst ` set (ra_Options (demo_ra (1800 * Second) 7)) \<inter> fst ` set (ra_Options (demo_ra 0 1)) = {}"
    by (simp add: demo_ra_def)
  note rep = inconsistency_reported[OF prod.collapse[symmetric] demo_advertiser_builds this, of demo_client]
  have "\<not> at_most_one as_MTU (demo_ra (1800 * Second) 7) (demo_ra 0 1)"
    by (simp add: at_most_one_def values_of_def demo_ra_def map_filter_simps)
  then show ?thesis using rep by (auto simp: demo_advertiser_def demo_state_def)
qed


section \<open>The listener\<close>

text \<open>What a message asks of the scheduler.\<close>

definition answer :: "ndp_message \<times> addr \<Rightarrow> addr list" where
  "answer msg =
     (case fst msg of
        RouterSolicitation _ \<Rightarrow>
          (let ip = (if IsUnspecified (snd msg) then IPv6LinkLocalAllNodes else snd msg)
           in if addr_IsValid ip then [ip] else [])
      | _ \<Rightarrow> [])"

text \<open>The callback of the advertiser, with the messages it was called with.\<close>

definition recorded ::
  "(nat \<Rightarrow> adv_env) \<Rightarrow> advertiser \<Rightarrow> ndp_message \<times> addr \<Rightarrow> (adv_state \<times> addr list) \<times> (ndp_message \<times> addr) list \<Rightarrow>
     unit outcome \<times> (adv_state \<times> addr list) \<times> (ndp_message \<times> addr) list" where
  "recorded aenv a msg t =
     (case on_message (aenv (length (snd t))) a msg (fst t) of (r, st) \<Rightarrow> (r, st, snd t @ [msg]))"

lemma handle_requests:
  assumes "handle env a m src s = (r, s')"
  shows "(case r of Ok ip \<Rightarrow> if addr_IsValid ip then [ip] else [] | _ \<Rightarrow> []) = answer (m, src)"
  using assms
  by (auto simp: handle_def answer_def Let_def split: ndp_message.splits outcome.splits prod.splits if_splits)

lemma on_message_answer: "on_message env a msg st = (r, st') \<Longrightarrow> snd st' = snd st @ answer msg"
  using handle_requests[of env a "fst msg" "snd msg" "fst st"]
  by (auto simp: on_message_def split: outcome.splits prod.splits if_splits)

text \<open>
  C20: the scheduler is asked exactly what the messages that arrived ask for, in their order: a listener
  hands on only messages received with the hop limit of the protocol, without the zone of the sender,
  and of these a solicitation, and nothing else, makes one request.
\<close>

theorem listener_requests:
  assumes "Listen ndp tn iface env canceled interrupt (recorded aenv a) s ((st, []), []) = Some (r, s', ((st', reqs), seen))"
  shows "reqs = concat (map answer seen) \<and>
    (\<forall>msg \<in> set seen. \<exists>k src. re_Read (env k) = ReadMessage (fst msg) (ndp_HopLimit ndp) src \<and>
       snd msg = WithZone src '''')"
proof -
  let ?P = "\<lambda>t :: (adv_state \<times> addr list) \<times> (ndp_message \<times> addr) list.
    snd (fst t) = concat (map answer (snd t)) \<and> (\<forall>msg \<in> set (snd t). valid_message ndp env msg)"
  have "?P ((st', reqs), seen)"
  proof (rule Listen_invariant[OF assms, where P = ?P])
    fix msg t u t1
    assume "valid_message ndp env msg" "?P t" "recorded aenv a msg t = (u, t1)"
    then show "?P t1"
      by (auto simp: recorded_def split: prod.splits dest: on_message_answer)
  qed simp
  then show ?thesis by (simp add: valid_message_def)
qed

definition demo_reads :: "nat \<Rightarrow> recv_env" where
  "demo_reads k =
     \<lparr>re_Ctx = (if k < 3 then None else Some (Sentinel ContextCanceled)),
      re_Read = ReadMessage (RouterSolicitation []) (if k = 1 then 64 else 255) (Addr6 0xfe800000000000000000000000000009 ''eth0''),
      re_CtxAfter = None, re_CtxBackoff = None\<rparr>"

definition demo_recv :: recv_state where
  "demo_recv = \<lparr>rv_Reads = 0, rv_Metrics = [], rv_Waited = 0\<rparr>"

lemma demo_handled:
  "recorded (\<lambda>_. demo_env) demo_advertiser (RouterSolicitation [], demo_client) ((st, reqs), seen) =
     (Ok (), (metric_add ''AdvMessagesReceivedTotal'' f_one [''eth0'', ''router solicitation''] st, reqs @ [demo_client]),
      seen @ [(RouterSolicitation [], demo_client)])"
  by (simp add: recorded_def on_message_def handle_def Let_def demo_env_def demo_client_def demo_advertiser_def
      NewAdvertiser_def demo_interface_def IsUnspecified_def IPv4Unspecified_def IPv6Unspecified_def)

lemma demo_listen:
  "\<exists>s' st'. Listen demo_ndp (\<lambda>_. ''rs'') ''eth0'' demo_reads (\<lambda>k. 3 \<le> k) (Ok ()) (recorded (\<lambda>_. demo_env) demo_advertiser)
     demo_recv ((demo_state, []), []) =
     Some (Ended (Ok ()), s', ((st', [demo_client, demo_client]),
       [(RouterSolicitation [], demo_client), (RouterSolicitation [], demo_client)]))"
  by (subst Listen.simps, simp add: receiveRetry_def recv_retries_def demo_recv_def demo_reads_def demo_ndp_def
      eval_nat_numeral demo_client_def demo_handled[unfolded demo_client_def])+

theorem listener_requests_witness:
  "[demo_client, demo_client] =
      concat (map answer [(RouterSolicitation [], demo_client), (RouterSolicitation [], demo_client)]) \<and>
    (\<exists>k src. re_Read (demo_reads k) = ReadMessage (RouterSolicitation []) (ndp_HopLimit demo_ndp) src \<and>
      demo_client = WithZone src '''')"
proof -
  obtain s' st' where "Listen demo_ndp (\<lambda>_. ''rs'') ''eth0'' demo_reads (\<lambda>k. 3 \<le> k) (Ok ())
      (recorded (\<lambda>_. demo_env) demo_advertiser) demo_recv ((demo_state, []), []) =
      Some (Ended (Ok ()), s', ((st', [demo_client, demo_client]),
        [(RouterSolicitation [], demo_client), (RouterSolicitation [], demo_client)]))"
    using demo_listen by blast
  from listener_requests[OF this] show ?thesis by auto
qed

text \<open>
  The listener returns only because its caller's context has ended, and then with what interrupting
  the reads gave: no error of its own, of the connection or of the caller's function, is ever returned
  while the context is alive.
\<close>

theorem listener_errors_lost:
  assumes "Listen ndp tn iface env canceled interrupt onMessage s t = Some (Ended r, s', t')"
  shows "canceled (rv_Reads s') \<and> r = wrapErr (FmtW ''failed to interrupt listener: %w'') interrupt"
  by (rule Listen_returns[OF assms])

theorem listener_errors_lost_witness:
  "\<exists>s' t'. Listen demo_ndp (\<lambda>_. ''rs'') ''eth0'' demo_reads (\<lambda>k. 3 \<le> k) (Ok ()) (recorded (\<lambda>_. demo_env) demo_advertiser)
     demo_recv ((demo_state, []), []) = Some (Ended (Ok ()), s', t') \<and> 3 \<le> rv_Reads s' \<and>
    Ok () = wrapErr (FmtW ''failed to interrupt listener: %w'') (Ok ())"
proof -
  obtain s' t' where "Listen demo_ndp (\<lambda>_. ''rs'') ''eth0'' demo_reads (\<lambda>k. 3 \<le> k) (Ok ()) (recorded (\<lambda>_. demo_env) demo_advertiser)
      demo_recv ((demo_state, []), []) = Some (Ended (Ok ()), s', t')"
    using demo_listen by blast
  from listener_errors_lost[OF this] this show ?thesis by blast
qed

text \<open>
  C40: five messages in a row with another hop limit end the loop of the listener, although it means to
  ignore them: they use up the retries meant for timeouts.  It then handles nothing any more, and waits
  for its caller's context without reporting the error.
\<close>

theorem invalid_messages_end_listener:
  assumes "\<forall>k. rv_Reads s \<le> k \<and> k < rv_Reads s + 5 \<longrightarrow>
      re_Ctx (env k) = None \<and> (\<exists>m h src. re_Read (env k) = ReadMessage m h src \<and> h \<noteq> ndp_HopLimit ndp)"
    and "\<forall>k. \<not> canceled k"
  shows "\<exists>e s'. Listen ndp tn iface env canceled interrupt onMessage s t = Some (Waiting (Err e), s', t) \<and>
    errors_is e ErrRetriesExhausted"
proof -
  obtain q s' where q: "receiveRetry ndp tn iface env s = (q, s')" by fastforce
  have "q = Err (Sentinel ErrRetriesExhausted)"
    using receive_loop_invalid[OF assms(1), of tn iface 0] q by (simp add: receiveRetry_def recv_retries_def)
  then show ?thesis by (subst Listen.simps) (simp add: q assms(2))
qed

definition spoofed_reads :: "nat \<Rightarrow> recv_env" where
  "spoofed_reads k =
     \<lparr>re_Ctx = None, re_Read = ReadMessage (RouterSolicitation []) 64 (Addr6 0x20010db8000000000000000000000009 []),
      re_CtxAfter = None, re_CtxBackoff = None\<rparr>"

theorem invalid_messages_end_listener_witness:
  "\<exists>e s'. Listen demo_ndp (\<lambda>_. ''rs'') ''eth0'' spoofed_reads (\<lambda>_. False) (Ok ())
      (\<lambda>msg seen. (Ok (), seen @ [msg])) demo_recv [] = Some (Waiting (Err e), s', []) \<and>
    errors_is e ErrRetriesExhausted"
  by (rule invalid_messages_end_listener) (simp_all add: spoofed_reads_def demo_ndp_def)

end
