(* ===== verification/Advertise_System.thy ===== *)
theory Advertise_System
  imports Advertise_Facts Listener Server
begin

text \<open>
  \<open>Advertiser.advertise\<close> as a system: its goroutines run side by side and meet in the channel \<open>ipC\<close>, in
  the channel on which the workers report their errors, and in the context of their group.  A step of
  the system is a step of one of them, up to the next operation that another one can see; what is
  between is a definition of \<open>Advertise\<close>, \<open>Listener\<close> or \<open>Server\<close>.  A step ends in the next state or in a
  panic, which ends the process.

  The world is the set of the answers that are possible at any time, with package \<open>ndp\<close> and the
  channel of link state changes.
\<close>

record adv_world =
  aw_Env :: "adv_env \<Rightarrow> bool"
  aw_ndp :: ndp_pkg
  aw_watchC :: "nat option"

section \<open>State\<close>

text \<open>
  The generator is before its \<open>i\<close>-th check of the context, about to send its \<open>i\<close>-th request, about to
  compute the delay after it, or waits until a time.
\<close>

datatype generator = Checking nat | Requesting nat | Delaying nat | Pausing nat instant | GeneratorDone

text \<open>
  The listener reads, has a message for the callback, is in the callback's send, waits in a deferred
  function with what it will return (\<open>listen_end\<close>), or has returned.
\<close>

datatype listening =
    Reading | Received "ndp_message \<times> addr" | Answering addr | Stuck "unit outcome" | ListenerDone

text \<open>
  \<open>sy_Canceled\<close> is whether the group's context is done, \<open>sy_Parent\<close> the error of the caller's.
  \<open>sy_Errors\<close> are the errors of workers that wait to be received.  \<open>sy_Results\<close> are the results of the
  goroutines of the group, in the order of their returns.  Two components only record what has happened:
  the requests that were put into the channel, and those a worker has dealt with.
\<close>

record adv_system =
  sy_Now :: instant
  sy_Parent :: "go_error option"
  sy_Canceled :: bool
  sy_State :: adv_state
  sy_ipC :: "addr list"
  sy_Generator :: generator
  sy_Listener :: listening
  sy_Scheduling :: bool
  sy_Schedule :: schedule_state
  sy_Errors :: "go_error list"
  sy_Watching :: bool
  sy_Results :: "go_error option list"
  sy_Asked :: "addr list"
  sy_Handled :: "addr list"

definition ipC_capacity :: nat where "ipC_capacity = 16"

text \<open>The goroutines have been started; there is no generator in unicast-only mode.\<close>

definition advertise_start :: "advertiser \<Rightarrow> instant \<Rightarrow> adv_state \<Rightarrow> adv_system" where
  "advertise_start a now st =
     \<lparr>sy_Now = now, sy_Parent = None, sy_Canceled = False, sy_State = st, sy_ipC = [],
      sy_Generator = (if ci_UnicastOnly (adv_cfg a) then GeneratorDone else Checking 0),
      sy_Listener = Reading, sy_Scheduling = True, sy_Schedule = schedule_start now, sy_Errors = [],
      sy_Watching = True, sy_Results = [], sy_Asked = [], sy_Handled = []\<rparr>"

text \<open>A goroutine of the group returns: the first error cancels the context.\<close>

definition goroutine_returns :: "go_error option \<Rightarrow> adv_system \<Rightarrow> adv_system" where
  "goroutine_returns r s =
     s\<lparr>sy_Results := sy_Results s @ [r], sy_Canceled := sy_Canceled s \<or> r \<noteq> None\<rparr>"

text \<open>A send on \<open>ipC\<close> that has room.\<close>

definition ipC_send :: "addr \<Rightarrow> adv_system \<Rightarrow> adv_system" where
  "ipC_send ip s = s\<lparr>sy_ipC := sy_ipC s @ [ip], sy_Asked := sy_Asked s @ [ip]\<rparr>"


section \<open>The parts of a step\<close>

fun error_of :: "unit outcome \<Rightarrow> go_error option" where
  "error_of (Err e) = Some e"
| "error_of _ = None"

text \<open>The listener starts a read with the advertiser's metrics.\<close>

definition recv_of :: "adv_system \<Rightarrow> recv_state" where
  "recv_of s = \<lparr>rv_Reads = 0, rv_Metrics = av_Metrics (sy_State s), rv_Waited = 0\<rparr>"

definition listener_received ::
  "unit outcome \<Rightarrow> (ndp_message \<times> addr) outcome \<Rightarrow> recv_state \<Rightarrow> adv_system \<Rightarrow> adv_system" where
  "listener_received interrupt q rs s0 =
     (let s = s0\<lparr>sy_State := (sy_State s0)\<lparr>av_Metrics := rv_Metrics rs\<rparr>\<rparr>
      in case q of
           Ok (m, host) \<Rightarrow> s\<lparr>sy_Listener := Received (m, WithZone host '''')\<rparr>
         | Err e \<Rightarrow>
             if sy_Canceled s then
               goroutine_returns (error_of (wrapErr (FmtW ''failed to interrupt listener: %w'') interrupt))
                 (s\<lparr>sy_Listener := ListenerDone\<rparr>)
             else s\<lparr>sy_Listener := Stuck (Err (FmtW ''failed to read NDP messages: %w'' e))\<rparr>
         | Panic p \<Rightarrow> s\<lparr>sy_Listener := Stuck (Panic p)\<rparr>)"

definition listener_handled :: "unit outcome \<Rightarrow> adv_state \<Rightarrow> addr list \<Rightarrow> adv_system \<Rightarrow> adv_system" where
  "listener_handled r st reqs s =
     s\<lparr>sy_State := st,
       sy_Listener := (case r of
           Ok _ \<Rightarrow> (case reqs of [] \<Rightarrow> Reading | ip # _ \<Rightarrow> Answering ip)
         | _ \<Rightarrow> Stuck r)\<rparr>"

definition listener_returns :: "unit outcome \<Rightarrow> adv_system \<Rightarrow> adv_system outcome" where
  "listener_returns r s =
     (case r of
        Panic p \<Rightarrow> Panic p
      | _ \<Rightarrow> Ok (goroutine_returns (error_of r) (s\<lparr>sy_Listener := ListenerDone\<rparr>)))"

definition scheduler_returns :: "unit outcome \<Rightarrow> schedule_state \<Rightarrow> adv_system \<Rightarrow> adv_system outcome" where
  "scheduler_returns r sc s =
     (case wrapErr (FmtW ''failed to schedule router advertisements: %w'') r of
        Panic p \<Rightarrow> Panic p
      | q \<Rightarrow> Ok (goroutine_returns (error_of q) (s\<lparr>sy_Scheduling := False, sy_Schedule := sc\<rparr>)))"

definition worker_done ::
  "unit outcome \<Rightarrow> adv_state \<Rightarrow> (instant \<times> addr) list \<Rightarrow> addr \<Rightarrow> adv_system \<Rightarrow> adv_system outcome" where
  "worker_done r st rest ip s =
     (case r of
        Panic p \<Rightarrow> Panic p
      | _ \<Rightarrow> Ok (s\<lparr>sy_State := st, sy_Schedule := (sy_Schedule s)\<lparr>sc_tasks := rest\<rparr>,
               sy_Handled := sy_Handled s @ [ip],
               sy_Errors := sy_Errors s @ (case error_of r of Some e \<Rightarrow> [e] | None \<Rightarrow> [])\<rparr>))"


section \<open>Steps\<close>

text \<open>
  Sends and receives happen when they can; where a \<open>select\<close> has several cases that are ready, each has a
  rule.  A send on \<open>ipC\<close> outside of a \<open>select\<close> has no other rule than the one that needs room.  A worker
  starts when its task is due, and one whose message was not sent waits until the scheduler receives
  its error.
\<close>

inductive advertise_step ::
  "adv_world \<Rightarrow> advertiser \<Rightarrow> adv_system \<Rightarrow> adv_system outcome \<Rightarrow> bool" for W a where
  tick: "0 \<le> d \<Longrightarrow> advertise_step W a s (Ok (s\<lparr>sy_Now := sy_Now s + d\<rparr>))"
| cancel: "sy_Parent s = None \<Longrightarrow>
    advertise_step W a s (Ok (s\<lparr>sy_Parent := Some (Sentinel ContextCanceled), sy_Canceled := True\<rparr>))"
| generator_check: "sy_Generator s = Checking i \<Longrightarrow> \<not> sy_Canceled s \<Longrightarrow>
    advertise_step W a s (Ok (s\<lparr>sy_Generator := Requesting i\<rparr>))"
| generator_exit: "sy_Generator s = Checking i \<Longrightarrow> sy_Canceled s \<Longrightarrow>
    advertise_step W a s (Ok (goroutine_returns None (s\<lparr>sy_Generator := GeneratorDone\<rparr>)))"
| generator_send: "sy_Generator s = Requesting i \<Longrightarrow> length (sy_ipC s) < ipC_capacity \<Longrightarrow>
    advertise_step W a s (Ok (ipC_send IPv6LinkLocalAllNodes (s\<lparr>sy_Generator := Delaying i\<rparr>)))"
| generator_delay: "sy_Generator s = Delaying i \<Longrightarrow> rng_ok draw \<Longrightarrow>
    advertise_step W a s
      (bindO (multicastDelay draw i (ci_MinInterval (adv_cfg a)) (ci_MaxInterval (adv_cfg a)))
        (\<lambda>d. Ok (s\<lparr>sy_Generator := Pausing i (time_Add (sy_Now s) d)\<rparr>)))"
| generator_wake: "sy_Generator s = Pausing i t \<Longrightarrow> t \<le> sy_Now s \<Longrightarrow>
    advertise_step W a s (Ok (s\<lparr>sy_Generator := Checking (Suc i)\<rparr>))"
| generator_stop: "sy_Generator s = Pausing i t \<Longrightarrow> sy_Canceled s \<Longrightarrow>
    advertise_step W a s (Ok (goroutine_returns None (s\<lparr>sy_Generator := GeneratorDone\<rparr>)))"
| listener_read: "sy_Listener s = Reading \<Longrightarrow> aw_Env W env \<Longrightarrow>
    receiveRetry (aw_ndp W) (ae_TypeString env) (ci_Name (adv_cfg a)) renv (recv_of s) = (q, rs) \<Longrightarrow>
    \<not> is_Panic interrupt \<Longrightarrow>
    advertise_step W a s (Ok (listener_received interrupt q rs s))"
| listener_handle: "sy_Listener s = Received msg \<Longrightarrow> aw_Env W env \<Longrightarrow>
    on_message env a msg (sy_State s, []) = (r, st, reqs) \<Longrightarrow>
    advertise_step W a s (Ok (listener_handled r st reqs s))"
| listener_send: "sy_Listener s = Answering ip \<Longrightarrow> length (sy_ipC s) < ipC_capacity \<Longrightarrow>
    advertise_step W a s (Ok (ipC_send ip (s\<lparr>sy_Listener := Reading\<rparr>)))"
| listener_return: "sy_Listener s = Stuck r \<Longrightarrow> sy_Canceled s \<Longrightarrow>
    advertise_step W a s (listener_returns r s)"
| schedule_receive: "sy_Scheduling s \<Longrightarrow> sy_ipC s = ip # ips \<Longrightarrow> rng_ok draw \<Longrightarrow>
    advertise_step W a s
      (bindO (schedule_request (adv_minDelayBetweenRAs a) ip (sy_Now s) draw (sy_Schedule s))
        (\<lambda>sc. Ok (s\<lparr>sy_ipC := ips, sy_Schedule := sc\<rparr>)))"
| schedule_error: "sy_Scheduling s \<Longrightarrow> sy_Errors s = es @ e # es' \<Longrightarrow>
    schedule_loop (adv_minDelayBetweenRAs a) [WorkerError e] (sy_Schedule s) = (Some r, sc) \<Longrightarrow>
    advertise_step W a s (scheduler_returns r sc (s\<lparr>sy_Errors := es @ es'\<rparr>))"
| schedule_done: "sy_Scheduling s \<Longrightarrow> sy_Canceled s \<Longrightarrow>
    schedule_loop (adv_minDelayBetweenRAs a) [ContextDone w] (sy_Schedule s) = (Some r, sc) \<Longrightarrow>
    advertise_step W a s (scheduler_returns r sc s)"
| worker: "sc_tasks (sy_Schedule s) = ts @ (t, ip) # ts' \<Longrightarrow> t \<le> sy_Now s \<Longrightarrow> aw_Env W env \<Longrightarrow>
    sendWorker env (adv_cfg a) ip (sy_State s) = (r, st) \<Longrightarrow>
    advertise_step W a s (worker_done r st (ts @ ts') ip s)"
| watcher_return: "sy_Watching s \<Longrightarrow> linkStateWatcher (sy_Canceled s) (aw_watchC W) w r w' \<Longrightarrow>
    advertise_step W a s (Ok (goroutine_returns (error_of r) (s\<lparr>sy_Watching := False\<rparr>)))"

inductive advertise_reaches :: "adv_world \<Rightarrow> advertiser \<Rightarrow> adv_system \<Rightarrow> adv_system \<Rightarrow> bool" for W a s0 where
  start: "advertise_reaches W a s0 s0"
| step: "advertise_reaches W a s0 s \<Longrightarrow> advertise_step W a s (Ok s') \<Longrightarrow> advertise_reaches W a s0 s'"

inductive_cases advertise_stepE: "advertise_step W a s q"

text \<open>Every goroutine has returned, and with them \<open>advertise\<close>.\<close>

definition all_returned :: "adv_system \<Rightarrow> bool" where
  "all_returned s \<longleftrightarrow>
     sy_Generator s = GeneratorDone \<and> sy_Listener s = ListenerDone \<and> \<not> sy_Scheduling s \<and> \<not> sy_Watching s"

end
