(* ===== verification/System_Facts.thy ===== *)
theory System_Facts
  imports Advertise_System
begin

text \<open>
  Facts about the system of \<open>Advertise_System\<close>.  What it promises about requests is stated on an abstract
  broker, which knows neither the channel nor the tasks of the scheduler but only the requests that wait,
  and the system is shown to simulate it; the other facts are invariants of the steps.
\<close>

section \<open>Simulation\<close>

locale simulation =
  fixes step :: "'s \<Rightarrow> 's \<Rightarrow> bool" and astep :: "'a \<Rightarrow> 'a \<Rightarrow> bool" and abs :: "'s \<Rightarrow> 'a"
  assumes simulates: "step s s' \<Longrightarrow> astep (abs s) (abs s')"
begin

lemma reaches: "step\<^sup>*\<^sup>* s s' \<Longrightarrow> astep\<^sup>*\<^sup>* (abs s) (abs s')"
  by (induction rule: rtranclp_induct) (auto intro: rtranclp.rtrancl_into_rtrancl simulates)

lemma invariant:
  assumes "step\<^sup>*\<^sup>* s s'" and "I (abs s)" and "\<And>a a'. I a \<Longrightarrow> astep a a' \<Longrightarrow> I a'"
  shows "I (abs s')"
  using assms(1,2) by (induction rule: rtranclp_induct) (auto intro: assms(3) simulates)

end

text \<open>
  The broker: requests are asked for, wait, and are handled in any order.  Once it is closed, requests
  may be lost.
\<close>

record broker =
  bk_Open :: bool
  bk_Asked :: "addr multiset"
  bk_Waiting :: "addr multiset"
  bk_Handled :: "addr multiset"

inductive broker_step :: "broker \<Rightarrow> broker \<Rightarrow> bool" where
  idle: "broker_step b b"
| ask: "broker_step b (b\<lparr>bk_Asked := add_mset ip (bk_Asked b), bk_Waiting := add_mset ip (bk_Waiting b)\<rparr>)"
| handle: "bk_Waiting b = add_mset ip w \<Longrightarrow>
    broker_step b (b\<lparr>bk_Waiting := w, bk_Handled := add_mset ip (bk_Handled b)\<rparr>)"
| close: "w \<subseteq># bk_Waiting b \<Longrightarrow> broker_step b (b\<lparr>bk_Open := False, bk_Waiting := w\<rparr>)"

definition broker_ok :: "broker \<Rightarrow> bool" where
  "broker_ok b \<longleftrightarrow>
     bk_Waiting b + bk_Handled b \<subseteq># bk_Asked b \<and>
     (bk_Open b \<longrightarrow> bk_Waiting b + bk_Handled b = bk_Asked b)"

lemma broker_step_ok:
  assumes "broker_ok b" and "broker_step b b'"
  shows "broker_ok b'"
  using assms(2,1)
proof cases
  case (close w)
  then have "w + bk_Handled b \<subseteq># bk_Waiting b + bk_Handled b" by simp
  also have "\<dots> \<subseteq># bk_Asked b" using assms(1) by (simp add: broker_ok_def)
  finally show ?thesis using close by (simp add: broker_ok_def)
qed (auto simp: broker_ok_def)


section \<open>Frames\<close>

lemma goroutine_returns_fields [simp]:
  "sy_ipC (goroutine_returns r s) = sy_ipC s" "sy_Schedule (goroutine_returns r s) = sy_Schedule s"
  "sy_Scheduling (goroutine_returns r s) = sy_Scheduling s" "sy_Asked (goroutine_returns r s) = sy_Asked s"
  "sy_Handled (goroutine_returns r s) = sy_Handled s" "sy_State (goroutine_returns r s) = sy_State s"
  "sy_Generator (goroutine_returns r s) = sy_Generator s" "sy_Listener (goroutine_returns r s) = sy_Listener s"
  "sy_Watching (goroutine_returns r s) = sy_Watching s" "sy_Parent (goroutine_returns r s) = sy_Parent s"
  "sy_Errors (goroutine_returns r s) = sy_Errors s" "sy_Now (goroutine_returns r s) = sy_Now s"
  "sy_Results (goroutine_returns r s) = sy_Results s @ [r]"
  "sy_Canceled (goroutine_returns r s) \<longleftrightarrow> sy_Canceled s \<or> r \<noteq> None"
  by (simp_all add: goroutine_returns_def)

lemma ipC_send_fields [simp]:
  "sy_ipC (ipC_send ip s) = sy_ipC s @ [ip]" "sy_Asked (ipC_send ip s) = sy_Asked s @ [ip]"
  "sy_Schedule (ipC_send ip s) = sy_Schedule s" "sy_Scheduling (ipC_send ip s) = sy_Scheduling s"
  "sy_Handled (ipC_send ip s) = sy_Handled s" "sy_State (ipC_send ip s) = sy_State s"
  "sy_Generator (ipC_send ip s) = sy_Generator s" "sy_Listener (ipC_send ip s) = sy_Listener s"
  "sy_Watching (ipC_send ip s) = sy_Watching s" "sy_Parent (ipC_send ip s) = sy_Parent s"
  "sy_Results (ipC_send ip s) = sy_Results s" "sy_Canceled (ipC_send ip s) = sy_Canceled s"
  "sy_Errors (ipC_send ip s) = sy_Errors s" "sy_Now (ipC_send ip s) = sy_Now s"
  by (simp_all add: ipC_send_def)

lemma listener_received_fields [simp]:
  "sy_ipC (listener_received i q rs s) = sy_ipC s" "sy_Schedule (listener_received i q rs s) = sy_Schedule s"
  "sy_Scheduling (listener_received i q rs s) = sy_Scheduling s" "sy_Asked (listener_received i q rs s) = sy_Asked s"
  "sy_Handled (listener_received i q rs s) = sy_Handled s"
  "sy_State (listener_received i q rs s) = (sy_State s)\<lparr>av_Metrics := rv_Metrics rs\<rparr>"
  "sy_Generator (listener_received i q rs s) = sy_Generator s"
  "sy_Watching (listener_received i q rs s) = sy_Watching s" "sy_Parent (listener_received i q rs s) = sy_Parent s"
  by (simp_all add: listener_received_def Let_def split: outcome.split prod.split)

lemma listener_handled_fields [simp]:
  "sy_ipC (listener_handled r st reqs s) = sy_ipC s" "sy_Schedule (listener_handled r st reqs s) = sy_Schedule s"
  "sy_Scheduling (listener_handled r st reqs s) = sy_Scheduling s" "sy_Asked (listener_handled r st reqs s) = sy_Asked s"
  "sy_Handled (listener_handled r st reqs s) = sy_Handled s" "sy_State (listener_handled r st reqs s) = st"
  "sy_Generator (listener_handled r st reqs s) = sy_Generator s"
  "sy_Watching (listener_handled r st reqs s) = sy_Watching s" "sy_Parent (listener_handled r st reqs s) = sy_Parent s"
  "sy_Results (listener_handled r st reqs s) = sy_Results s" "sy_Canceled (listener_handled r st reqs s) = sy_Canceled s"
  by (simp_all add: listener_handled_def)

lemma scheduler_ends:
  "schedule_loop m [WorkerError e] sc = (Some r, sc') \<longleftrightarrow> r = Err e \<and> sc' = sc\<lparr>sc_tasks := []\<rparr>"
  "schedule_loop m [ContextDone w] sc = (Some r, sc') \<Longrightarrow> sc' = sc \<and> \<not> is_Panic r"
  by (auto split: option.splits if_splits)

lemma listener_returns_Ok:
  "Ok s' = listener_returns r s \<longleftrightarrow>
     \<not> is_Panic r \<and> s' = goroutine_returns (error_of r) (s\<lparr>sy_Listener := ListenerDone\<rparr>)"
  by (cases r) (auto simp: listener_returns_def)

lemma scheduler_returns_Ok:
  "Ok s' = scheduler_returns r sc s \<longleftrightarrow>
     \<not> is_Panic r \<and>
     s' = goroutine_returns (error_of (wrapErr (FmtW ''failed to schedule router advertisements: %w'') r))
            (s\<lparr>sy_Scheduling := False, sy_Schedule := sc\<rparr>)"
  by (cases r) (auto simp: scheduler_returns_def)

lemma worker_done_Ok:
  "Ok s' = worker_done r st rest ip s \<longleftrightarrow>
     \<not> is_Panic r \<and>
     s' = s\<lparr>sy_State := st, sy_Schedule := (sy_Schedule s)\<lparr>sc_tasks := rest\<rparr>, sy_Handled := sy_Handled s @ [ip],
            sy_Errors := sy_Errors s @ (case error_of r of Some e \<Rightarrow> [e] | None \<Rightarrow> [])\<rparr>"
  by (cases r) (auto simp: worker_done_def)

lemma schedule_request_adds:
  assumes "schedule_request m ip now draw sc = Ok sc'"
  shows "image_mset snd (mset (sc_tasks sc')) = add_mset ip (image_mset snd (mset (sc_tasks sc)))"
  using assms by (auto simp: schedule_request_def Let_def bindO_Ok_iff split: if_splits)

lemma Ok_bindO: "Ok y = bindO m f \<longleftrightarrow> (\<exists>x. m = Ok x \<and> f x = Ok y)"
  by (cases m) auto

lemmas step_Ok = Ok_bindO listener_returns_Ok scheduler_returns_Ok worker_done_Ok scheduler_ends(1)


section \<open>Requests\<close>

definition broker_of :: "adv_system \<Rightarrow> broker" where
  "broker_of s =
     \<lparr>bk_Open = sy_Scheduling s, bk_Asked = mset (sy_Asked s),
      bk_Waiting = mset (sy_ipC s) + mset (map snd (sc_tasks (sy_Schedule s))),
      bk_Handled = mset (sy_Handled s)\<rparr>"

lemma broker_idle: "broker_of s' = broker_of s \<Longrightarrow> broker_step (broker_of s) (broker_of s')"
  by (simp add: broker_step.idle)

lemma broker_ask:
  assumes "broker_of s' = (broker_of s)\<lparr>bk_Asked := add_mset ip (bk_Asked (broker_of s)),
      bk_Waiting := add_mset ip (bk_Waiting (broker_of s))\<rparr>"
  shows "broker_step (broker_of s) (broker_of s')"
  unfolding assms by (rule broker_step.ask)

lemma broker_handle:
  assumes "broker_of s' = (broker_of s)\<lparr>bk_Waiting := w, bk_Handled := add_mset ip (bk_Handled (broker_of s))\<rparr>"
    and "bk_Waiting (broker_of s) = add_mset ip w"
  shows "broker_step (broker_of s) (broker_of s')"
  unfolding assms(1) by (rule broker_step.handle[OF assms(2)])

lemma broker_close:
  assumes "broker_of s' = (broker_of s)\<lparr>bk_Open := False, bk_Waiting := w\<rparr>"
    and "w \<subseteq># bk_Waiting (broker_of s)"
  shows "broker_step (broker_of s) (broker_of s')"
  unfolding assms(1) by (rule broker_step.close[OF assms(2)])

lemma advertise_simulates:
  assumes "advertise_step W a s (Ok s')"
  shows "broker_step (broker_of s) (broker_of s')"
  using assms
proof cases
  case (generator_send i)
  then show ?thesis by (intro broker_ask) (simp add: broker_of_def)
next
  case (listener_send ip)
  then show ?thesis by (intro broker_ask) (simp add: broker_of_def)
next
  case (schedule_receive ip ips draw)
  then show ?thesis
    by (intro broker_idle) (auto simp: broker_of_def step_Ok dest!: schedule_request_adds)
next
  case (schedule_error es e es' r sc)
  then show ?thesis
    by (intro broker_close[where w = "mset (sy_ipC s)"]) (auto simp: broker_of_def step_Ok)
next
  case (schedule_done w r sc)
  then show ?thesis
    by (intro broker_close[where w = "bk_Waiting (broker_of s)"])
      (auto simp: broker_of_def step_Ok dest!: scheduler_ends(2))
next
  case (worker ts t ip ts' env r st)
  then show ?thesis
    by (intro broker_handle[where ip = ip and w = "mset (sy_ipC s) + mset (map snd (ts @ ts'))"])
      (auto simp: broker_of_def step_Ok)
qed (rule broker_idle; auto simp: broker_of_def step_Ok)+

interpretation broker: simulation "\<lambda>s s'. advertise_step W a s (Ok s')" broker_step broker_of for W a
  by unfold_locales (rule advertise_simulates)

lemma reaches_rtranclp:
  "advertise_reaches W a s0 s \<Longrightarrow> (\<lambda>s s'. advertise_step W a s (Ok s'))\<^sup>*\<^sup>* s0 s"
  by (induction rule: advertise_reaches.induct) (auto intro: rtranclp.rtrancl_into_rtrancl)

lemma start_broker_ok: "broker_ok (broker_of (advertise_start a now st))"
  by (simp add: broker_ok_def broker_of_def advertise_start_def schedule_start_def)

text \<open>No request is invented or lost as long as the scheduler runs.\<close>

lemma requests_balance:
  assumes "advertise_reaches W a (advertise_start a now st) s"
  shows "broker_ok (broker_of s)"
  using broker.invariant[where I = broker_ok, OF reaches_rtranclp[OF assms] start_broker_ok] broker_step_ok by blast

text \<open>The channel never holds more than its capacity.\<close>

lemma ipC_bounded:
  assumes "advertise_reaches W a (advertise_start a now st) s"
  shows "length (sy_ipC s) \<le> ipC_capacity"
  using assms
proof (induction rule: advertise_reaches.induct)
  case start
  then show ?case by (simp add: advertise_start_def)
next
  case (step s s')
  from step.hyps(2) step.IH show ?case by cases (auto simp: step_Ok)
qed

section \<open>The advertiser's own state\<close>

text \<open>The state of the advertiser changes only where the listener reads or handles and where a worker sends.\<close>

lemma state_invariant [consumes 1, case_names start read handle send]:
  assumes "advertise_reaches W a s0 s" and "P (sy_State s0)"
    and "\<And>env renv s q rs. aw_Env W env \<Longrightarrow> P (sy_State s) \<Longrightarrow>
      receiveRetry (aw_ndp W) (ae_TypeString env) (ci_Name (adv_cfg a)) renv (recv_of s) = (q, rs) \<Longrightarrow>
      P ((sy_State s)\<lparr>av_Metrics := rv_Metrics rs\<rparr>)"
    and "\<And>env msg st r st' reqs. aw_Env W env \<Longrightarrow> P st \<Longrightarrow> on_message env a msg (st, []) = (r, st', reqs) \<Longrightarrow> P st'"
    and "\<And>env ip st r st'. aw_Env W env \<Longrightarrow> P st \<Longrightarrow> sendWorker env (adv_cfg a) ip st = (r, st') \<Longrightarrow>
      \<not> is_Panic r \<Longrightarrow> P st'"
  shows "P (sy_State s)"
  using assms(1)
proof (induction rule: advertise_reaches.induct)
  case start
  then show ?case by (rule assms(2))
next
  case (step s s')
  from step.hyps(2) show ?case
  proof cases
    case listener_read
    then show ?thesis using assms(3) step.IH by simp
  next
    case listener_handle
    then show ?thesis using assms(4) step.IH by simp
  next
    case worker
    then show ?thesis using assms(5) step.IH by (auto simp: step_Ok)
  qed (use step.IH in \<open>auto simp: step_Ok\<close>)
qed

lemma on_message_frame:
  assumes "on_message env a msg (st, reqs0) = (r, st', reqs)"
  shows "av_Sent st' = av_Sent st" and "reqs = reqs0 \<or> (\<exists>ip. r = Ok () \<and> reqs = reqs0 @ [ip])"
proof -
  obtain q t where h: "handle env a (fst msg) (snd msg) st = (q, t)" by fastforce
  then have "av_Sent t = av_Sent st"
    by (auto simp: handle_def Let_def report_problems_frame
        split: ndp_message.splits outcome.splits prod.splits if_splits dest: buildRA_frame)
  then show "av_Sent st' = av_Sent st" "reqs = reqs0 \<or> (\<exists>ip. r = Ok () \<and> reqs = reqs0 @ [ip])"
    using assms h by (auto simp: on_message_def split: outcome.splits if_splits)
qed

definition configured_message :: "adv_world \<Rightarrow> interface_config \<Rightarrow> router_advertisement \<times> addr \<Rightarrow> bool" where
  "configured_message W cfg m \<longleftrightarrow>
     (\<exists>env. aw_Env W env \<and> advertised_header env cfg (fst m) \<and> advertised_options env cfg (fst m)) \<and>
     \<not> (ci_UnicastOnly cfg \<and> IsMulticast (snd m))"

lemma sendWorker_sent:
  assumes "sendWorker env cfg ip st = (r, st')" and "\<not> is_Panic r" and "aw_Env W env"
  shows "av_Sent st' = av_Sent st \<or> (\<exists>m. av_Sent st' = av_Sent st @ [m] \<and> configured_message W cfg m)"
proof -
  obtain q t where q: "send env ip cfg st = (q, t)" by fastforce
  then have "av_Sent st' = av_Sent t" using sendWorker_spec[OF assms(1,2)] by simp
  then show ?thesis using send_spec(3)[OF q] assms(3) by (auto simp: configured_message_def)
qed

text \<open>What was sent grows at its end, by messages of a kind.\<close>

definition appends :: "('m \<Rightarrow> bool) \<Rightarrow> 'm list \<Rightarrow> 'm list \<Rightarrow> bool" where
  "appends P xs ys \<longleftrightarrow> (\<exists>ms. ys = xs @ ms \<and> (\<forall>m \<in> set ms. P m))"

lemma appends_refl [simp, intro]: "appends P xs xs"
  by (simp add: appends_def)

lemma appends_one: "P m \<Longrightarrow> appends P xs (xs @ [m])"
  by (simp add: appends_def)

lemma appends_trans: "appends P xs ys \<Longrightarrow> appends P ys zs \<Longrightarrow> appends P xs zs"
  unfolding appends_def by (metis append.assoc Un_iff set_append)

lemma appends_mono: "appends P xs ys \<Longrightarrow> (\<And>m. P m \<Longrightarrow> Q m) \<Longrightarrow> appends Q xs ys"
  unfolding appends_def by blast

lemma appends_new: "appends P xs ys \<Longrightarrow> m \<in> set ys - set xs \<Longrightarrow> P m"
  by (auto simp: appends_def)

lemma sendWorker_appends:
  assumes "sendWorker env cfg ip st = (r, st')" and "\<not> is_Panic r" and "aw_Env W env"
  shows "appends (configured_message W cfg) (av_Sent st) (av_Sent st')"
  using sendWorker_sent[OF assms] by (auto simp: appends_def)

lemma sent_appends:
  assumes "advertise_reaches W a s0 s"
  shows "appends (configured_message W (adv_cfg a)) (av_Sent (sy_State s0)) (av_Sent (sy_State s))"
  using assms
proof (induction rule: state_invariant)
  case (send env ip st r st')
  show ?case by (rule appends_trans[OF send(4) sendWorker_appends[OF send(2,3,1)]])
qed (auto dest: on_message_frame)

lemma sent_configured:
  assumes "advertise_reaches W a s0 s"
  shows "\<forall>m \<in> set (av_Sent (sy_State s)) - set (av_Sent (sy_State s0)). configured_message W (adv_cfg a) m"
  using appends_new[OF sent_appends[OF assms]] by blast

text \<open>Every request that was handled is counted, as an advertisement or as an error.\<close>

definition sends_counted :: "adv_state \<Rightarrow> nat" where
  "sends_counted st =
     counts ''AdvRouterAdvertisementsTotal'' (av_Metrics st) + counts ''AdvErrorsTotal'' (av_Metrics st)"

lemma receive_loop_counted:
  "n \<noteq> ''MessagesReceivedInvalidTotal'' \<Longrightarrow>
     counts n (rv_Metrics (snd (receive_loop ndp tn iface env k i s))) = counts n (rv_Metrics s)"
  by (induction k arbitrary: i s) (auto simp: Let_def split: option.splits read_result.splits)

lemma report_problems_counted:
  "n \<noteq> ''AdvRouterAdvertisementInconsistenciesTotal'' \<Longrightarrow>
     counts n (av_Metrics (fold (report_problem i) ps s)) = counts n (av_Metrics s)"
  by (induction ps arbitrary: s) (auto simp: report_problem_def)

lemma handle_counted:
  assumes "handle env a m host s = (r, s')"
  shows "sends_counted s' = sends_counted s"
  using assms
  by (auto simp: handle_def Let_def sends_counted_def report_problems_counted
      split: ndp_message.splits outcome.splits prod.splits if_splits dest!: buildRA_frame(2))

lemma on_message_counted: "on_message env a msg st = (r, st', reqs) \<Longrightarrow> sends_counted st' = sends_counted (fst st)"
  by (auto simp: on_message_def split: outcome.splits prod.splits if_splits dest!: handle_counted)

lemma handled_counted:
  assumes "advertise_reaches W a s0 s"
  shows "sends_counted (sy_State s) + length (sy_Handled s0) = sends_counted (sy_State s0) + length (sy_Handled s)"
  using assms
proof (induction rule: advertise_reaches.induct)
  case (step s s')
  from step.hyps(2) show ?case
  proof cases
    case (listener_read env renv q rs interrupt)
    then have "counts n (rv_Metrics rs) = counts n (av_Metrics (sy_State s))"
      if "n \<noteq> ''MessagesReceivedInvalidTotal''" for n
      using receive_loop_counted[OF that] by (fastforce simp: receiveRetry_def recv_of_def dest: arg_cong[where f = snd])
    then show ?thesis using listener_read(1) step.IH by (simp add: sends_counted_def)
  next
    case listener_handle
    then show ?thesis using step.IH on_message_counted by fastforce
  next
    case (worker ts t ip ts' env r st)
    then have "sends_counted st = Suc (sends_counted (sy_State s))"
      using sendWorker_spec[OF worker(5)] by (auto simp: sends_counted_def step_Ok)
    then show ?thesis using worker step.IH by (auto simp: step_Ok)
  qed (use step.IH in \<open>auto simp: step_Ok\<close>)
qed simp


section \<open>How the group ends\<close>

definition ends_group :: "go_error \<Rightarrow> bool" where
  "ends_group e \<longleftrightarrow>
     e = Sentinel ErrLinkChange \<or> (\<exists>e'. e = FmtW ''failed to schedule router advertisements: %w'' e')"

definition group_ok :: "adv_system \<Rightarrow> bool" where
  "group_ok s \<longleftrightarrow>
     (sy_Canceled s \<longleftrightarrow> sy_Parent s \<noteq> None \<or> group_Wait (sy_Results s) \<noteq> None) \<and>
     (sy_Parent s = None \<or> sy_Parent s = Some (Sentinel ContextCanceled)) \<and>
     (sy_Scheduling s \<or> sy_Canceled s) \<and>
     (sy_Parent s = None \<longrightarrow> (\<forall>e. group_Wait (sy_Results s) = Some e \<longrightarrow> ends_group e))"

lemma watcher_error: "linkStateWatcher c ch w r w' \<Longrightarrow> error_of r = None \<or> error_of r = Some (Sentinel ErrLinkChange)"
  by (auto elim: linkStateWatcherE)

lemma group_ok_frame:
  assumes "group_ok s" and "sy_Scheduling s' = sy_Scheduling s" and "sy_Canceled s' = sy_Canceled s"
    and "sy_Parent s' = sy_Parent s" and "sy_Results s' = sy_Results s"
  shows "group_ok s'"
  using assms unfolding group_ok_def by metis

lemma group_ok_returns:
  assumes "group_ok s" and "case r of None \<Rightarrow> True | Some e \<Rightarrow> ends_group e \<or> sy_Canceled s"
    and "sy_Scheduling s' \<or> r \<noteq> None \<or> sy_Canceled s" and "sy_Canceled s' = sy_Canceled s"
    and "sy_Parent s' = sy_Parent s" and "sy_Results s' = sy_Results s"
  shows "group_ok (goroutine_returns r s')"
  using assms by (auto simp: group_ok_def group_Wait_snoc split: option.splits)

lemma error_of_wrapErr [simp]: "error_of (wrapErr w r) = map_option w (error_of r)"
  by (cases r) auto

lemma advertise_step_group_ok:
  assumes "group_ok s" and "advertise_step W a s (Ok s')"
  shows "group_ok s'"
  using assms(2)
proof cases
  case (generator_exit i)
  then show ?thesis using assms(1) by (auto intro!: group_ok_returns[OF assms(1)])
next
  case (generator_stop i t)
  then show ?thesis using assms(1) by (auto intro!: group_ok_returns[OF assms(1)])
next
  case (listener_read env renv q rs interrupt)
  let ?s = "s\<lparr>sy_State := (sy_State s)\<lparr>av_Metrics := rv_Metrics rs\<rparr>, sy_Listener := ListenerDone\<rparr>"
  have "sy_Canceled s \<Longrightarrow> group_ok (goroutine_returns r ?s)" for r
    using assms(1) by (intro group_ok_returns[OF assms(1)]) (auto split: option.split)
  moreover have "group_ok (s\<lparr>sy_State := st, sy_Listener := l\<rparr>)" for st l
    by (rule group_ok_frame[OF assms(1)]) simp_all
  ultimately show ?thesis
    unfolding listener_read(1)[simplified] listener_received_def by (auto simp: Let_def split: outcome.split)
next
  case (listener_return r)
  then show ?thesis
    by (auto simp: step_Ok intro!: group_ok_returns[OF assms(1)] split: option.split)
next
  case (schedule_error es e es' r sc)
  then show ?thesis
    by (auto simp: step_Ok ends_group_def intro!: group_ok_returns[OF assms(1)])
next
  case (schedule_done w r sc)
  then show ?thesis
    by (auto simp: step_Ok intro!: group_ok_returns[OF assms(1)] split: option.split)
next
  case (watcher_return w r w')
  have "sy_Scheduling s \<or> sy_Canceled s" using assms(1) unfolding group_ok_def by blast
  then show ?thesis using watcher_error[OF watcher_return(3)] watcher_return(1)
    by (auto simp: ends_group_def intro!: group_ok_returns[OF assms(1)])
next
  case cancel
  then show ?thesis using assms(1) by (auto simp: group_ok_def)
qed (rule group_ok_frame[OF assms(1)]; auto simp: step_Ok)+

lemma start_group_ok: "group_ok (advertise_start a now st)"
  by (simp add: group_ok_def advertise_start_def)

lemma reaches_group_ok: "advertise_reaches W a s0 s \<Longrightarrow> group_ok s0 \<Longrightarrow> group_ok s"
  by (induction rule: advertise_reaches.induct) (auto intro: advertise_step_group_ok)

end
