(* ===== verification/System_Runs.thy ===== *)
theory System_Runs
  imports System_Facts Prepared
begin

text \<open>
  Runs of the system of \<open>Advertise_System\<close>: no step of a prepared advertiser panics; a group whose context
  is done can always finish when its channel has room or its scheduler is still there to make it; and
  without either it never finishes.
\<close>

section \<open>No step panics\<close>

definition world_sound :: "adv_world \<Rightarrow> bool" where
  "world_sound W \<longleftrightarrow>
     (\<forall>env. aw_Env W env \<longrightarrow> os_wellformed (ae_os env) \<and> (\<forall>n. \<not> is_Panic (ae_Forwarding env n)) \<and>
        (\<forall>ra dst. \<not> is_Panic (ae_WriteTo env ra dst)))"

text \<open>
  What the answers must be for the plugins of \<open>a\<close>: as documented, and no default route on a loopback
  interface when \<open>a\<close> uses the wildcard route.
\<close>

definition world_answers :: "adv_world \<Rightarrow> bool" where
  "world_answers W \<longleftrightarrow>
     (\<forall>env. aw_Env W env \<longrightarrow> os_answers (ae_os env) \<and> (\<forall>n. \<not> is_Panic (ae_Forwarding env n)) \<and>
        (\<forall>ra dst. \<not> is_Panic (ae_WriteTo env ra dst)))"

definition sound_for :: "adv_world \<Rightarrow> advertiser \<Rightarrow> bool" where
  "sound_for W a \<longleftrightarrow> world_answers W \<and>
     (\<forall>env. aw_Env W env \<longrightarrow> loopback_default (ae_os env) \<longrightarrow>
        (\<forall>p \<in> set (ci_Plugins (adv_cfg a)). \<not> route_wildcard_plugin p))"

lemma world_sound_for: "world_sound W \<Longrightarrow> sound_for W a"
  by (auto simp: world_sound_def sound_for_def world_answers_def dest: os_wellformed_answers)

definition advertiser_sound :: "advertiser \<Rightarrow> bool" where
  "advertiser_sound a \<longleftrightarrow>
     (\<forall>p \<in> set (ci_Plugins (adv_cfg a)). ready p) \<and> 2 * Second \<le> ci_MinInterval (adv_cfg a) \<and>
     ci_MinInterval (adv_cfg a) \<le> ci_MaxInterval (adv_cfg a) \<and> ci_MaxInterval (adv_cfg a) \<le> 1800 * Second"

lemma buildRA_no_panic:
  assumes world: "sound_for W a" and adv: "advertiser_sound a" and env: "aw_Env W env"
  shows "\<not> is_Panic (fst (buildRA env (adv_cfg a) s))"
proof -
  have "\<not> is_Panic (RouterAdvertisement_of (ae_os env) (adv_cfg a) fw h)" for fw h
    using adv world env by (intro ready_generates) (auto simp: advertiser_sound_def sound_for_def world_answers_def)
  moreover have "\<not> is_Panic (ae_Forwarding env n)" for n using world env by (auto simp: sound_for_def world_answers_def)
  ultimately have "\<not> is_Panic (bindO (wrapErr (FmtW ''failed to get IPv6 forwarding state: %w'')
        (ae_Forwarding env (ci_Name (adv_cfg a))))
      (\<lambda>fw. wrapErr (FmtV ''failed to generate router advertisement: %v'')
        (RouterAdvertisement_of (ae_os env) (adv_cfg a) fw (av_Heap s))))"
    by (auto simp: bindO_Panic_iff)
  then show ?thesis by (auto simp: buildRA_def split: outcome.split prod.split)
qed

lemma sendWorker_no_panic:
  assumes world: "sound_for W a" and adv: "advertiser_sound a" and env: "aw_Env W env"
  shows "\<not> is_Panic (fst (sendWorker env (adv_cfg a) ip s))"
proof -
  have w: "ae_WriteTo env ra dst \<noteq> Panic p" for ra dst p
    using world env unfolding sound_for_def world_answers_def by (metis is_Panic.simps(1))
  have b: "buildRA env (adv_cfg a) s \<noteq> (Panic p, s1)" for p s1
    using buildRA_no_panic[OF assms, of s] by auto
  have "\<not> is_Panic (fst (send env ip (adv_cfg a) s))"
    using w b by (auto simp: send_def split: outcome.split prod.split)
  then show ?thesis by (auto simp: sendWorker_def Let_def split: outcome.split prod.split)
qed

lemma on_message_no_panic:
  assumes world: "sound_for W a" and adv: "advertiser_sound a" and env: "aw_Env W env"
  shows "\<not> is_Panic (fst (on_message env a msg st))"
proof -
  have "\<not> is_Panic (fst (handle env a m host s))" for m host s
  proof -
    have b: "buildRA env (adv_cfg a) s \<noteq> (Panic p, s1)" for s p s1
      using buildRA_no_panic[OF assms, of s] by auto
    have v: "verifyRAs x y \<noteq> Panic p" for x y p
      using verifyRAs_decides[of x y] by (auto simp: decides_def)
    show ?thesis
      using b v by (auto simp: handle_def Let_def split: ndp_message.split outcome.split prod.split)
  qed
  then show ?thesis
    by (auto simp: on_message_def split: outcome.split prod.split) (metis fst_conv is_Panic.simps(1))
qed

lemma delay_Ok:
  assumes "advertiser_sound a" and "rng_ok draw"
  shows "\<exists>d. multicastDelay draw i (ci_MinInterval (adv_cfg a)) (ci_MaxInterval (adv_cfg a)) = Ok d"
  using assms multicastDelay_bounds[of draw 2 "ci_MinInterval (adv_cfg a)" "ci_MaxInterval (adv_cfg a)" 1800 i]
  by (auto simp: advertiser_sound_def)

lemma receive_loop_no_panic: "\<not> is_Panic (fst (receive_loop ndp tn iface env n i s))"
  by (induction n arbitrary: i s) (auto simp: Let_def split: option.split read_result.split)

definition listener_ok :: "adv_system \<Rightarrow> bool" where
  "listener_ok s \<longleftrightarrow> (case sy_Listener s of Stuck r \<Rightarrow> \<not> is_Panic r | _ \<Rightarrow> True)"

lemma listener_ok_frame: "listener_ok s \<Longrightarrow> sy_Listener s' = sy_Listener s \<Longrightarrow> listener_ok s'"
  by (simp add: listener_ok_def)

lemma advertise_step_listener_ok:
  assumes "sound_for W a" and "advertiser_sound a" and "listener_ok s" and "advertise_step W a s (Ok s')"
  shows "listener_ok s'"
  using assms(4)
proof cases
  case (listener_read env renv q rs interrupt)
  then have "\<not> is_Panic q" using receive_loop_no_panic unfolding receiveRetry_def by (metis fst_conv)
  then show ?thesis
    using listener_read(1) by (auto simp: listener_received_def listener_ok_def Let_def split: outcome.split prod.split)
next
  case (listener_handle msg env r st reqs)
  then have "\<not> is_Panic r" using on_message_no_panic[OF assms(1,2) listener_handle(3), of msg "(sy_State s, [])"] by simp
  then show ?thesis
    using listener_handle(1) by (auto simp: listener_handled_def listener_ok_def split: outcome.split list.split)
next
  case (listener_send ip)
  then show ?thesis by (simp add: listener_ok_def)
next
  case (listener_return r)
  then show ?thesis by (simp add: step_Ok listener_ok_def)
qed (rule listener_ok_frame[OF assms(3)]; auto simp: step_Ok)+

lemma advertise_step_no_panic:
  assumes "sound_for W a" and "advertiser_sound a" and "listener_ok s" and "advertise_step W a s q"
  shows "\<not> is_Panic q"
  using assms(4)
proof cases
  case (generator_delay i draw)
  then show ?thesis using delay_Ok[OF assms(2), of draw i] by auto
next
  case (listener_return r)
  then show ?thesis using assms(3) by (cases r) (auto simp: listener_returns_def listener_ok_def)
next
  case (schedule_receive ip ips draw)
  then show ?thesis
    using schedule_request_spec[OF schedule_receive(4), of "adv_minDelayBetweenRAs a" ip "sy_Now s" "sy_Schedule s"]
    by auto
next
  case (schedule_error es e es' r sc)
  then show ?thesis by (auto simp: scheduler_ends scheduler_returns_def)
next
  case (schedule_done w r sc)
  then show ?thesis using scheduler_ends(2)[OF schedule_done(4)] by (cases r) (auto simp: scheduler_returns_def)
next
  case (worker ts t ip ts' env r st)
  then have "\<not> is_Panic r"
    using sendWorker_no_panic[OF assms(1,2) worker(4), of ip "sy_State s"] by simp
  then show ?thesis using worker(1) by (cases r) (auto simp: worker_done_def)
qed auto

lemma reaches_listener_ok:
  assumes "sound_for W a" and "advertiser_sound a" and "advertise_reaches W a s0 s" and "listener_ok s0"
  shows "listener_ok s"
  using assms(3,4)
  by (induction rule: advertise_reaches.induct) (auto intro: advertise_step_listener_ok[OF assms(1,2)])

section \<open>A group that cannot end\<close>

lemma reaches_trans: "advertise_reaches W a s t \<Longrightarrow> advertise_reaches W a r s \<Longrightarrow> advertise_reaches W a r t"
  by (induction rule: advertise_reaches.induct) (auto intro: advertise_reaches.step)

lemma reaches_step: "advertise_step W a s (Ok t) \<Longrightarrow> advertise_reaches W a s t"
  by (rule advertise_reaches.step[OF advertise_reaches.start])

text \<open>
  The scheduler has returned and the channel is full, with the listener in a send on it: the send is
  not in a \<open>select\<close> with the context, so it waits for a receiver that is gone.
\<close>

definition blocked :: "adv_system \<Rightarrow> bool" where
  "blocked s \<longleftrightarrow>
     \<not> sy_Scheduling s \<and> length (sy_ipC s) = ipC_capacity \<and> (\<exists>ip. sy_Listener s = Answering ip)"

lemma blocked_step: "blocked s \<Longrightarrow> advertise_step W a s (Ok s') \<Longrightarrow> blocked s'"
  by (erule advertise_step.cases) (auto simp: blocked_def step_Ok)

lemma blocked_forever:
  assumes "advertise_reaches W a s s'" and "blocked s"
  shows "\<not> all_returned s'"
proof -
  from assms have "blocked s'" by (induction rule: advertise_reaches.induct) (auto intro: blocked_step)
  then show ?thesis by (auto simp: blocked_def all_returned_def)
qed

text \<open>A solicitation is read and handled.\<close>

definition solicit :: "ndp_pkg \<Rightarrow> nat \<Rightarrow> recv_env" where
  "solicit ndp k =
     \<lparr>re_Ctx = None, re_Read = ReadMessage (RouterSolicitation []) (ndp_HopLimit ndp) (Addr6 0xfe800000000000000000000000000009 ''''),
      re_CtxAfter = None, re_CtxBackoff = None\<rparr>"

lemma receive_solicit:
  "receiveRetry ndp tn iface (solicit ndp) s =
     (Ok (RouterSolicitation [], Addr6 0xfe800000000000000000000000000009 ''''), s\<lparr>rv_Reads := Suc (rv_Reads s)\<rparr>)"
  by (simp add: receiveRetry_def recv_retries_def solicit_def eval_nat_numeral Let_def)

lemma solicited:
  assumes "aw_Env W env" and "sy_Listener s = Reading"
  shows "\<exists>s' ip. advertise_reaches W a s s' \<and> sy_Listener s' = Answering ip \<and> sy_ipC s' = sy_ipC s \<and>
    sy_Scheduling s' = sy_Scheduling s \<and> sy_Parent s' = sy_Parent s"
proof -
  let ?ip = "Addr6 0xfe800000000000000000000000000009 ''''" and ?m = "RouterSolicitation []"
  have rcv: "receiveRetry (aw_ndp W) (ae_TypeString env) (ci_Name (adv_cfg a)) (solicit (aw_ndp W)) (recv_of s) =
      (Ok (?m, ?ip), (recv_of s)\<lparr>rv_Reads := 1\<rparr>)"
    by (simp add: receive_solicit recv_of_def)
  define s1 where "s1 = listener_received (Ok ()) (Ok (?m, ?ip)) ((recv_of s)\<lparr>rv_Reads := 1\<rparr>) s"
  have 1: "advertise_step W a s (Ok s1)"
    unfolding s1_def using listener_read[OF assms(2,1) rcv] by simp
  have l1: "sy_Listener s1 = Received (?m, ?ip)" by (simp add: s1_def listener_received_def Let_def)
  obtain st where h: "on_message env a (?m, ?ip) (sy_State s1, []) = (Ok (), st, [?ip])"
    by (simp add: on_message_def handle_def Let_def IsUnspecified_def IPv4Unspecified_def IPv6Unspecified_def)
  have 2: "advertise_step W a s1 (Ok (listener_handled (Ok ()) st [?ip] s1))"
    by (rule listener_handle[OF l1 assms(1) h])
  have "sy_Listener (listener_handled (Ok ()) st [?ip] s1) = Answering ?ip" by (simp add: listener_handled_def)
  then show ?thesis
    using reaches_trans[OF reaches_step[OF 2] reaches_step[OF 1]] by (fastforce simp: s1_def)
qed

text \<open>The first request of the generator is sent.\<close>

lemma first_multicast:
  assumes "\<not> ci_UnicastOnly (adv_cfg a)" and "aw_Env W env"
    and "sendWorker env (adv_cfg a) IPv6LinkLocalAllNodes st = (r, st')" and "\<not> is_Panic r"
  shows "\<exists>s. advertise_reaches W a (advertise_start a now st) s \<and> sy_State s = st'"
proof -
  let ?ip = IPv6LinkLocalAllNodes
  define s0 where "s0 = advertise_start a now st"
  define s1 where "s1 = s0\<lparr>sy_Generator := Requesting 0\<rparr>"
  define s2 where "s2 = ipC_send ?ip (s1\<lparr>sy_Generator := Delaying 0\<rparr>)"
  have rng: "rng_ok (\<lambda>_. 0)" by (simp add: rng_ok_def)
  obtain sc where sc: "schedule_request (adv_minDelayBetweenRAs a) ?ip now (\<lambda>_. 0) (schedule_start now) = Ok sc"
    using schedule_request_spec[OF rng] by blast
  define s3 where "s3 = s2\<lparr>sy_ipC := [], sy_Schedule := sc\<rparr>"
  obtain due where due: "sc_tasks sc = [(due, ?ip)]"
    using sc by (auto simp: schedule_request_def schedule_start_def sg_Delay_def Let_def IPv6LinkLocalAllNodes_def)
  define s4 where "s4 = s3\<lparr>sy_Now := sy_Now s3 + (if due \<le> now then 0 else due - now)\<rparr>"
  have f: "sy_ipC s0 = []" "sy_Now s0 = now" "sy_Scheduling s0" "sy_Schedule s0 = schedule_start now"
    "sy_State s0 = st" "\<not> sy_Canceled s0" "sy_Generator s0 = Checking 0"
    using assms(1) by (simp_all add: s0_def advertise_start_def)
  have 1: "advertise_step W a s0 (Ok s1)" unfolding s1_def by (rule generator_check) (simp_all add: f)
  have 2: "advertise_step W a s1 (Ok s2)"
    unfolding s2_def by (rule generator_send) (simp_all add: s1_def f ipC_capacity_def)
  have "advertise_step W a s2 (bindO (schedule_request (adv_minDelayBetweenRAs a) ?ip (sy_Now s2) (\<lambda>_. 0) (sy_Schedule s2))
      (\<lambda>sc. Ok (s2\<lparr>sy_ipC := [], sy_Schedule := sc\<rparr>)))"
    by (rule schedule_receive[OF _ _ rng]) (simp_all add: s2_def s1_def f)
  moreover have "sy_Now s2 = now" "sy_Schedule s2 = schedule_start now" by (simp_all add: s2_def s1_def f)
  ultimately have 3: "advertise_step W a s2 (Ok s3)" by (simp only: sc bindO.simps s3_def)
  have 4: "advertise_step W a s3 (Ok s4)" unfolding s4_def by (rule tick) simp
  have s4: "sc_tasks (sy_Schedule s4) = [] @ (due, ?ip) # []" "due \<le> sy_Now s4" "sy_State s4 = st"
    by (simp_all add: s4_def s3_def s2_def s1_def f due)
  define s5 where "s5 = s4\<lparr>sy_State := st', sy_Schedule := (sy_Schedule s4)\<lparr>sc_tasks := []\<rparr>,
      sy_Handled := sy_Handled s4 @ [?ip],
      sy_Errors := sy_Errors s4 @ (case error_of r of Some e \<Rightarrow> [e] | None \<Rightarrow> [])\<rparr>"
  have "worker_done r st' ([] @ []) ?ip s4 = Ok s5"
    using assms(4) by (cases r) (simp_all add: worker_done_def s5_def)
  moreover have "advertise_step W a s4 (worker_done r st' ([] @ []) ?ip s4)"
    by (rule worker[OF s4(1,2) assms(2)]) (simp add: s4(3) assms(3))
  ultimately have 5: "advertise_step W a s4 (Ok s5)" by simp
  have "advertise_reaches W a s0 s5"
    by (rule advertise_reaches.step[OF advertise_reaches.step[OF advertise_reaches.step[OF
          advertise_reaches.step[OF reaches_step[OF 1] 2] 3] 4] 5])
  then show ?thesis unfolding s0_def by (intro exI[of _ s5]) (simp add: s5_def)
qed

lemma channel_fills:
  assumes "aw_Env W env" and "sy_Listener s = Reading" and "sy_Scheduling s" and "sy_Parent s = None"
    and "sy_ipC s = []" and "n \<le> ipC_capacity"
  shows "\<exists>s'. advertise_reaches W a s s' \<and> sy_Listener s' = Reading \<and> sy_Scheduling s' \<and> sy_Parent s' = None \<and>
    length (sy_ipC s') = n"
  using assms(6)
proof (induction n)
  case 0
  then show ?case using assms(2-5) by (auto intro: advertise_reaches.start)
next
  case (Suc n)
  then obtain s1 where s1: "advertise_reaches W a s s1" "sy_Listener s1 = Reading" "sy_Scheduling s1"
      "sy_Parent s1 = None" "length (sy_ipC s1) = n" by auto
  from solicited[OF assms(1) s1(2), where a = a] obtain s2 ip where s2: "advertise_reaches W a s1 s2"
      "sy_Listener s2 = Answering ip" "sy_ipC s2 = sy_ipC s1" "sy_Scheduling s2" "sy_Parent s2 = None"
    using s1(3,4) by auto
  have "advertise_step W a s2 (Ok (ipC_send ip (s2\<lparr>sy_Listener := Reading\<rparr>)))"
    using s1(5) s2(3) Suc.prems by (intro listener_send[OF s2(2)]) simp
  from advertise_reaches.step[OF reaches_trans[OF s2(1) s1(1)] this] show ?case
    using s1(5) s2(3-5) by (intro exI conjI) (assumption, simp_all)
qed

lemma reaches_blocked:
  assumes "aw_Env W env"
  shows "\<exists>s. advertise_reaches W a (advertise_start a now st) s \<and>
    sy_Parent s = Some (Sentinel ContextCanceled) \<and> blocked s"
proof -
  let ?s = "advertise_start a now st"
  have st: "sy_Listener ?s = Reading" "sy_Scheduling ?s" "sy_Parent ?s = None" "sy_ipC ?s = []"
    by (simp_all add: advertise_start_def)
  obtain s1 where s1: "advertise_reaches W a ?s s1" "sy_Listener s1 = Reading" "sy_Scheduling s1"
      "sy_Parent s1 = None" "length (sy_ipC s1) = ipC_capacity"
    using channel_fills[OF assms st, of ipC_capacity] by auto
  from solicited[OF assms s1(2), where a = a] obtain s2 ip where s2: "advertise_reaches W a s1 s2"
      "sy_Listener s2 = Answering ip" "sy_ipC s2 = sy_ipC s1" "sy_Scheduling s2" "sy_Parent s2 = None"
    using s1(3,4) by auto
  define s3 where "s3 = s2\<lparr>sy_Parent := Some (Sentinel ContextCanceled), sy_Canceled := True\<rparr>"
  define s4 where "s4 = goroutine_returns None (s3\<lparr>sy_Scheduling := False\<rparr>)"
  have 3: "advertise_step W a s2 (Ok s3)" unfolding s3_def by (rule cancel[OF s2(5)])
  have "advertise_step W a s3 (scheduler_returns (Ok ()) (sy_Schedule s3) s3)"
    by (rule schedule_done[where w = None]) (simp_all add: s3_def s2(4))
  then have 4: "advertise_step W a s3 (Ok s4)" by (simp add: scheduler_returns_def s4_def)
  have "advertise_reaches W a ?s s4"
    by (rule reaches_trans[OF reaches_step[OF 4] reaches_trans[OF reaches_step[OF 3] reaches_trans[OF s2(1) s1(1)]]])
  moreover have "blocked s4" using s1(5) s2(2,3) by (simp add: blocked_def s4_def s3_def)
  moreover have "sy_Parent s4 = Some (Sentinel ContextCanceled)" by (simp add: s4_def s3_def)
  ultimately show ?thesis by blast
qed


section \<open>A group that can end\<close>

text \<open>The context is done, the caller's has the error \<open>p\<close>, and the channel has room for \<open>k\<close> sends.\<close>

definition ending :: "go_error option \<Rightarrow> nat \<Rightarrow> adv_system \<Rightarrow> bool" where
  "ending p k s \<longleftrightarrow> sy_Canceled s \<and> sy_Parent s = p \<and> length (sy_ipC s) + k \<le> ipC_capacity \<and> listener_ok s"

lemma scheduler_drains:
  assumes "sy_Scheduling s" and "sy_Canceled s" and "listener_ok s"
  shows "\<exists>s'. advertise_reaches W a s s' \<and> ending (sy_Parent s) ipC_capacity s'"
  using assms
proof (induction "sy_ipC s" arbitrary: s)
  case Nil
  then show ?case by (intro exI[of _ s]) (simp add: ending_def advertise_reaches.start)
next
  case (Cons ip ips)
  have rng: "rng_ok (\<lambda>_. 0)" by (simp add: rng_ok_def)
  obtain sc where sc: "schedule_request (adv_minDelayBetweenRAs a) ip (sy_Now s) (\<lambda>_. 0) (sy_Schedule s) = Ok sc"
    using schedule_request_spec[OF rng] by blast
  let ?s = "s\<lparr>sy_ipC := ips, sy_Schedule := sc\<rparr>"
  have "advertise_step W a s (Ok ?s)"
    using schedule_receive[OF Cons.prems(1) Cons.hyps(2)[symmetric] rng, of W a] by (simp add: sc)
  moreover obtain s' where "advertise_reaches W a ?s s'" "ending (sy_Parent s) ipC_capacity s'"
    using Cons.hyps(1)[of ?s] Cons.prems listener_ok_frame[of s ?s] by auto
  ultimately show ?case using reaches_trans reaches_step by blast
qed

lemma generator_ends:
  assumes "advertiser_sound a" and "ending p (Suc k) s"
  shows "\<exists>s'. advertise_reaches W a s s' \<and> sy_Generator s' = GeneratorDone \<and> ending p k s'"
proof -
  have fin: "\<exists>s'. advertise_reaches W a s s' \<and> sy_Generator s' = GeneratorDone \<and> ending p k s'"
    if "advertise_step W a s (Ok (goroutine_returns None (s\<lparr>sy_Generator := GeneratorDone\<rparr>)))" "ending p k s" for s
    using that(2) by (intro exI[of _ "goroutine_returns None (s\<lparr>sy_Generator := GeneratorDone\<rparr>)"] conjI reaches_step[OF that(1)])
      (auto simp: ending_def listener_ok_def)
  have pausing: "\<exists>s'. advertise_reaches W a s s' \<and> sy_Generator s' = GeneratorDone \<and> ending p k s'"
    if "sy_Generator s = Pausing i t" "ending p k s" for s i t
    using that by (intro fin generator_stop) (auto simp: ending_def)
  have delaying: "\<exists>s'. advertise_reaches W a s s' \<and> sy_Generator s' = GeneratorDone \<and> ending p k s'"
    if g: "sy_Generator s = Delaying i" and e: "ending p k s" for s i
  proof -
    have rng: "rng_ok (\<lambda>_. 0)" by (simp add: rng_ok_def)
    obtain d where d: "multicastDelay (\<lambda>_. 0) i (ci_MinInterval (adv_cfg a)) (ci_MaxInterval (adv_cfg a)) = Ok d"
      using delay_Ok[OF assms(1) rng] by blast
    let ?s = "s\<lparr>sy_Generator := Pausing i (time_Add (sy_Now s) d)\<rparr>"
    have "advertise_step W a s (Ok ?s)" using generator_delay[OF g rng, of W a] by (simp add: d)
    moreover obtain s' where "advertise_reaches W a ?s s'" "sy_Generator s' = GeneratorDone" "ending p k s'"
      using pausing[of ?s] e by (auto simp: ending_def listener_ok_def)
    ultimately show ?thesis using reaches_trans reaches_step by blast
  qed
  have k: "ending p k s" using assms(2) by (simp add: ending_def)
  show ?thesis
  proof (cases "sy_Generator s")
    case (Checking i)
    then show ?thesis using k by (intro fin generator_exit) (auto simp: ending_def)
  next
    case (Requesting i)
    let ?s = "ipC_send IPv6LinkLocalAllNodes (s\<lparr>sy_Generator := Delaying i\<rparr>)"
    have "advertise_step W a s (Ok ?s)" using assms(2) by (intro generator_send[OF Requesting]) (simp add: ending_def)
    moreover obtain s' where "advertise_reaches W a ?s s'" "sy_Generator s' = GeneratorDone" "ending p k s'"
      using delaying[of ?s] assms(2) by (auto simp: ending_def listener_ok_def)
    ultimately show ?thesis using reaches_trans reaches_step by blast
  next
    case (Delaying i)
    then show ?thesis using k delaying by blast
  next
    case (Pausing i t)
    then show ?thesis using k pausing by blast
  qed (use k in \<open>auto intro: advertise_reaches.start\<close>)
qed

text \<open>What the end of the listener leaves alone.\<close>

definition generator_ended :: "go_error option \<Rightarrow> nat \<Rightarrow> adv_system \<Rightarrow> bool" where
  "generator_ended p k s \<longleftrightarrow> ending p k s \<and> sy_Generator s = GeneratorDone"

lemma listener_ends_reading:
  assumes "aw_Env W env" and "generator_ended p k s" and "sy_Listener s = Reading"
  shows "\<exists>s'. advertise_reaches W a s s' \<and> sy_Listener s' = ListenerDone \<and> generator_ended p k s'"
proof -
  define renv :: "nat \<Rightarrow> recv_env" where
    "renv = (\<lambda>_. (solicit (aw_ndp W) 0)\<lparr>re_Ctx := Some (Sentinel ContextCanceled)\<rparr>)"
  have rcv: "receiveRetry (aw_ndp W) (ae_TypeString env) (ci_Name (adv_cfg a)) renv (recv_of s) =
      (Err (Sentinel ContextCanceled), recv_of s)"
    by (simp add: receiveRetry_def recv_retries_def renv_def recv_of_def eval_nat_numeral)
  let ?s = "listener_received (Ok ()) (Err (Sentinel ContextCanceled)) (recv_of s) s"
  have "advertise_step W a s (Ok ?s)" by (rule listener_read[OF assms(3,1) rcv]) simp
  moreover have "sy_Listener ?s = ListenerDone \<and> generator_ended p k ?s"
    using assms(2) by (simp add: generator_ended_def ending_def listener_received_def Let_def listener_ok_def)
  ultimately show ?thesis using reaches_step by blast
qed

lemma listener_ends_stuck:
  assumes "generator_ended p k s" and "sy_Listener s = Stuck r"
  shows "\<exists>s'. advertise_reaches W a s s' \<and> sy_Listener s' = ListenerDone \<and> generator_ended p k s'"
proof -
  let ?s = "goroutine_returns (error_of r) (s\<lparr>sy_Listener := ListenerDone\<rparr>)"
  have "listener_returns r s = Ok ?s"
    using assms by (cases r) (auto simp: listener_returns_def generator_ended_def ending_def listener_ok_def)
  then have "advertise_step W a s (Ok ?s)"
    using listener_return[OF assms(2), of W a] assms(1) by (simp add: generator_ended_def ending_def)
  moreover have "sy_Listener ?s = ListenerDone \<and> generator_ended p k ?s"
    using assms(1) by (simp add: generator_ended_def ending_def listener_ok_def)
  ultimately show ?thesis using reaches_step by blast
qed

lemma listener_ends_answering:
  assumes "aw_Env W env" and "generator_ended p (Suc k) s" and "sy_Listener s = Answering ip"
  shows "\<exists>s'. advertise_reaches W a s s' \<and> sy_Listener s' = ListenerDone \<and> generator_ended p k s'"
proof -
  let ?s = "ipC_send ip (s\<lparr>sy_Listener := Reading\<rparr>)"
  have "advertise_step W a s (Ok ?s)"
    using assms(2) by (intro listener_send[OF assms(3)]) (simp add: generator_ended_def ending_def)
  moreover obtain s' where "advertise_reaches W a ?s s'" "sy_Listener s' = ListenerDone" "generator_ended p k s'"
    using listener_ends_reading[OF assms(1), of p k ?s a] assms(2)
    by (auto simp: generator_ended_def ending_def listener_ok_def)
  ultimately show ?thesis using reaches_trans reaches_step by blast
qed

lemma listener_ends:
  assumes sound: "sound_for W a" "advertiser_sound a" and env: "aw_Env W env" and s: "generator_ended p (Suc k) s"
  shows "\<exists>s'. advertise_reaches W a s s' \<and> sy_Listener s' = ListenerDone \<and> generator_ended p k s'"
proof -
  have k: "generator_ended p k s" using s by (simp add: generator_ended_def ending_def)
  show ?thesis
  proof (cases "sy_Listener s")
    case Reading
    then show ?thesis by (rule listener_ends_reading[OF env k])
  next
    case (Received msg)
    obtain r st reqs where h: "on_message env a msg (sy_State s, []) = (r, st, reqs)" by (metis prod.exhaust)
    let ?s = "listener_handled r st reqs s"
    have step: "advertise_step W a s (Ok ?s)" by (rule listener_handle[OF Received env h])
    have lok: "listener_ok ?s"
      by (rule advertise_step_listener_ok[OF sound _ step]) (use k in \<open>simp add: generator_ended_def ending_def\<close>)
    have g: "generator_ended p (Suc k) ?s" "generator_ended p k ?s"
      using s lok by (simp_all add: generator_ended_def ending_def)
    consider "sy_Listener ?s = Reading" | ip where "sy_Listener ?s = Answering ip" | "sy_Listener ?s = Stuck r"
      by (cases r; cases reqs) (auto simp: listener_handled_def)
    then have "\<exists>s'. advertise_reaches W a ?s s' \<and> sy_Listener s' = ListenerDone \<and> generator_ended p k s'"
      using listener_ends_reading[OF env g(2)] listener_ends_answering[OF env g(1)] listener_ends_stuck[OF g(2)]
      by cases blast+
    then show ?thesis using reaches_trans reaches_step[OF step] by blast
  next
    case (Answering ip)
    then show ?thesis by (rule listener_ends_answering[OF env s])
  next
    case (Stuck r)
    then show ?thesis by (rule listener_ends_stuck[OF k])
  next
    case ListenerDone
    then show ?thesis using k advertise_reaches.start by blast
  qed
qed

lemma scheduler_and_watcher_end:
  assumes "sy_Canceled s" and "sy_Generator s = GeneratorDone" and "sy_Listener s = ListenerDone"
  shows "\<exists>s'. advertise_reaches W a s s' \<and> all_returned s' \<and> sy_Parent s' = sy_Parent s"
proof -
  have fin: "\<exists>s'. advertise_reaches W a s s' \<and> all_returned s' \<and> sy_Parent s' = sy_Parent s"
    if "sy_Canceled s" "sy_Generator s = GeneratorDone" "sy_Listener s = ListenerDone" "\<not> sy_Scheduling s" for s
  proof (cases "sy_Watching s")
    case True
    have w: "linkStateWatcher (sy_Canceled s) (aw_watchC W) w (Ok ()) w" for w
      using that(1) linkStateWatcher.no_watcher linkStateWatcher.canceled by (cases "aw_watchC W") simp_all
    have "advertise_step W a s (Ok (goroutine_returns (error_of (Ok ())) (s\<lparr>sy_Watching := False\<rparr>)))"
      by (rule watcher_return[OF True w])
    then show ?thesis using that reaches_step by (fastforce simp: all_returned_def)
  next
    case False
    then show ?thesis using that advertise_reaches.start by (auto simp: all_returned_def)
  qed
  show ?thesis
  proof (cases "sy_Scheduling s")
    case True
    let ?s = "goroutine_returns None (s\<lparr>sy_Scheduling := False\<rparr>)"
    have "advertise_step W a s (scheduler_returns (Ok ()) (sy_Schedule s) s)"
      by (rule schedule_done[OF True assms(1), where w = None]) simp
    then have "advertise_step W a s (Ok ?s)" by (simp add: scheduler_returns_def)
    moreover obtain s' where "advertise_reaches W a ?s s'" "all_returned s'" "sy_Parent s' = sy_Parent s"
      using fin[of ?s] assms by auto
    ultimately show ?thesis using reaches_trans reaches_step by blast
  qed (use fin assms in blast)
qed

lemma group_can_end:
  assumes "sound_for W a" and "advertiser_sound a" and "aw_Env W env" and "ending p 2 s"
  shows "\<exists>s'. advertise_reaches W a s s' \<and> all_returned s' \<and> sy_Parent s' = p"
proof -
  obtain s1 where s1: "advertise_reaches W a s s1" "generator_ended p 1 s1"
    using generator_ends[OF assms(2), of p 1 s W] assms(4) by (auto simp: generator_ended_def numeral_2_eq_2)
  obtain s2 where s2: "advertise_reaches W a s1 s2" "sy_Listener s2 = ListenerDone" "generator_ended p 0 s2"
    using listener_ends[OF assms(1-3), of p 0 s1] s1(2) by auto
  obtain s3 where "advertise_reaches W a s2 s3" "all_returned s3" "sy_Parent s3 = p"
    using scheduler_and_watcher_end[of s2 W a] s2(2,3) by (auto simp: generator_ended_def ending_def)
  then show ?thesis using reaches_trans s1(1) s2(1) by blast
qed

end
