(* ===== verification/Advertiser_Run.thy ===== *)
theory Advertiser_Run
  imports Advertiser_Properties System_Runs
begin

text \<open>
  \<open>Advertiser.Run\<close> as a whole: the dialer calls the advertiser's function again after every error it
  recovers from, and each time the plugins are prepared for the interface that was found, and the
  goroutines are started anew.  The state that the rounds share is the advertiser, whose plugins change,
  and what it has done; \<open>k\<close> counts the rounds.  What happens in the \<open>k\<close>-th round is given by two
  environments, of its beginning and of its end, by the terminator's answer \<open>quits k\<close>, and by \<open>work k\<close>, a run of
  the goroutines.
\<close>

section \<open>The rounds\<close>

type_synonym round_state = "advertiser \<times> adv_state \<times> nat"

type_synonym group_run = "advertiser \<Rightarrow> adv_state \<Rightarrow> go_error option list \<times> go_error option \<times> adv_state"

definition advertiser_fn ::
  "(nat \<Rightarrow> adv_env) \<Rightarrow> (nat \<Rightarrow> adv_env) \<Rightarrow> (nat \<Rightarrow> bool) \<Rightarrow> (nat \<Rightarrow> group_run) \<Rightarrow> dial_context \<Rightarrow> round_state \<Rightarrow>
     unit outcome \<times> round_state" where
  "advertiser_fn envs envs' quits work dctx t =
     (case t of (a, st, k) \<Rightarrow>
        (case Run_fn (envs k) (envs' k) a (quits k) (dc_Interface dctx) (work k) st of
           (r, a', st') \<Rightarrow> (r, a', st', Suc k)))"

definition advertiser_Run ::
  "'w state_ops \<Rightarrow> (nat \<Rightarrow> dial_env) \<Rightarrow> dialer \<Rightarrow> (nat \<Rightarrow> adv_env) \<Rightarrow> (nat \<Rightarrow> adv_env) \<Rightarrow> (nat \<Rightarrow> bool) \<Rightarrow>
     (nat \<Rightarrow> group_run) \<Rightarrow> advertiser \<Rightarrow> adv_state \<Rightarrow> 'w dialer_state \<Rightarrow>
     (unit outcome \<times> 'w dialer_state \<times> round_state) option" where
  "advertiser_Run ops denv d envs envs' quits work a st ds =
     Dial ops denv d (advertiser_fn envs envs' quits work) ds (a, st, 0)"

text \<open>\<open>work\<close> is a run of the goroutines of \<open>Advertise_System\<close>, in the world \<open>W\<close>, to its end.\<close>

definition group_runs :: "adv_world \<Rightarrow> (nat \<Rightarrow> group_run) \<Rightarrow> bool" where
  "group_runs W work \<longleftrightarrow>
     (\<forall>k a st. \<exists>now s. advertise_reaches W a (advertise_start a now st) s \<and> all_returned s \<and>
        work k a st = (sy_Results s, sy_Parent s, sy_State s))"


section \<open>Preparing again\<close>

text \<open>A plugin that is prepared again is as if it had only been prepared for the last interface.\<close>

lemma plugin_Prepare_again: "plugin_Prepare p i = Ok q \<Longrightarrow> plugin_Prepare q j = plugin_Prepare p j"
  by (cases p) (auto simp: lla_Prepare_def prefix_Prepare_def route_Prepare_def rdnss_Prepare_def)

lemma prepare_plugins_again:
  "prepare_plugins i ps = Ok qs \<Longrightarrow> prepare_plugins j qs = prepare_plugins j ps"
  unfolding prepare_plugins_def
proof (induction ps arbitrary: qs)
  case (Cons p ps)
  then obtain q qs' where q: "plugin_Prepare p i = Ok q" "qs = q # qs'"
      "mapO (\<lambda>p. wrapErr (FmtV ''failed to prepare plugin %q: %v'') (plugin_Prepare p i)) ps = Ok qs'"
    by (auto simp: bindO_Ok_iff)
  show ?case using Cons.IH[OF q(3)] plugin_Prepare_again[OF q(1), of j] q(2) by simp
qed simp

text \<open>The configuration of an advertiser that was prepared any number of times.\<close>

definition prepared_from :: "interface_config \<Rightarrow> interface_config \<Rightarrow> bool" where
  "prepared_from cfg c \<longleftrightarrow> (\<exists>ifi ps. prepare_plugins ifi (ci_Plugins cfg) = Ok ps \<and> c = cfg\<lparr>ci_Plugins := ps\<rparr>)"

lemma prepare_from:
  assumes "c = cfg \<or> prepared_from cfg c" and "prepare_plugins ifi (ci_Plugins c) = Ok ps"
  shows "prepared_from cfg (c\<lparr>ci_Plugins := ps\<rparr>)"
  using assms prepare_plugins_again by (fastforce simp: prepared_from_def)


lemma prepare_again:
  assumes "c = cfg \<or> prepared_from cfg c" and "prepare_plugins ifi (ci_Plugins c) = Ok ps"
  shows "prepare_plugins ifi (ci_Plugins cfg) = Ok ps \<and> c\<lparr>ci_Plugins := ps\<rparr> = cfg\<lparr>ci_Plugins := ps\<rparr>"
  using assms prepare_plugins_again by (auto simp: prepared_from_def)


section \<open>What a round sends\<close>

text \<open>
  A message of a round with the interface \<open>ifi\<close>: as configured when the plugins are prepared for it, with the
  configured router lifetime or with none.
\<close>

definition round_message :: "adv_world \<Rightarrow> interface_config \<Rightarrow> net_interface \<Rightarrow> router_advertisement \<times> addr \<Rightarrow> bool" where
  "round_message W cfg ifi m \<longleftrightarrow>
     (\<exists>ps lifetime. prepare_plugins ifi (ci_Plugins cfg) = Ok ps \<and>
        (lifetime = ci_DefaultLifetime cfg \<or> lifetime = 0) \<and>
        configured_message W (cfg\<lparr>ci_Plugins := ps, ci_DefaultLifetime := lifetime\<rparr>) m)"

lemma round_messageI:
  assumes "prepare_plugins ifi (ci_Plugins cfg) = Ok ps"
  shows "configured_message W (cfg\<lparr>ci_Plugins := ps\<rparr>) m \<Longrightarrow> round_message W cfg ifi m"
    and "configured_message W ((cfg\<lparr>ci_Plugins := ps\<rparr>)\<lparr>ci_DefaultLifetime := 0\<rparr>) m \<Longrightarrow> round_message W cfg ifi m"
proof -
  have "cfg\<lparr>ci_Plugins := ps\<rparr> = cfg\<lparr>ci_Plugins := ps, ci_DefaultLifetime := ci_DefaultLifetime cfg\<rparr>"
    "(cfg\<lparr>ci_Plugins := ps\<rparr>)\<lparr>ci_DefaultLifetime := 0\<rparr> = cfg\<lparr>ci_Plugins := ps, ci_DefaultLifetime := 0\<rparr>"
    by simp_all
  then show "configured_message W (cfg\<lparr>ci_Plugins := ps\<rparr>) m \<Longrightarrow> round_message W cfg ifi m"
    and "configured_message W ((cfg\<lparr>ci_Plugins := ps\<rparr>)\<lparr>ci_DefaultLifetime := 0\<rparr>) m \<Longrightarrow> round_message W cfg ifi m"
    using assms unfolding round_message_def by metis+
qed

lemma send_appends:
  assumes "send env dst c st = (r, st')" and "aw_Env W env"
  shows "appends (configured_message W c) (av_Sent st) (av_Sent st')"
  using send_spec(3)[OF assms(1)] assms(2) by (auto simp: appends_def configured_message_def)

lemma shutdown_appends:
  assumes "shutdown env a b st = (r, st')" and "aw_Env W env"
  shows "appends (configured_message W ((adv_cfg a)\<lparr>ci_DefaultLifetime := 0\<rparr>)) (av_Sent st) (av_Sent st')"
proof -
  obtain q s1 where q: "send env IPv6LinkLocalAllNodes ((adv_cfg a)\<lparr>ci_DefaultLifetime := 0\<rparr>) st = (q, s1)"
    by fastforce
  have "st' = st \<or> st' = s1" using assms(1) q by (auto simp: shutdown_def split: if_splits outcome.splits)
  then show ?thesis using send_appends[OF q assms(2)] by auto
qed

lemma group_appends:
  assumes "group_runs W work" and "work k a st = (rs, p, st')"
  shows "appends (configured_message W (adv_cfg a)) (av_Sent st) (av_Sent st')"
proof -
  obtain now s where s: "advertise_reaches W a (advertise_start a now st) s" "work k a st = (sy_Results s, sy_Parent s, sy_State s)"
    using assms(1) unfolding group_runs_def by blast
  have "sy_State (advertise_start a now st) = st" by (simp add: advertise_start_def)
  then show ?thesis using sent_appends[OF s(1)] s(2) assms(2) by simp
qed

lemma round_keeps:
  assumes runs: "group_runs W work" and env: "aw_Env W env" "aw_Env W env'"
    and run: "Run_fn env env' a b ifi (work k) st = (r, a', st')"
    and cfg: "adv_cfg a = cfg \<or> prepared_from cfg (adv_cfg a)"
  shows "prepared_from cfg (adv_cfg a') \<and> appends (round_message W cfg ifi) (av_Sent st) (av_Sent st')"
proof -
  obtain ps where ps: "prepare_plugins ifi (ci_Plugins (adv_cfg a)) = Ok ps" using prepare_plugins_Ok by blast
  note again = prepare_again[OF cfg ps]
  define a1 where "a1 = a\<lparr>adv_cfg := (adv_cfg a)\<lparr>ci_Plugins := ps\<rparr>\<rparr>"
  have a1: "adv_cfg a1 = cfg\<lparr>ci_Plugins := ps\<rparr>" using again by (simp add: a1_def)
  obtain q s1 where q: "send env IPv6LinkLocalAllNodes (adv_cfg a1) st = (q, s1)" by fastforce
  obtain rs p s2 where w: "work k a1 (s1\<lparr>av_Ready := True\<rparr>) = (rs, p, s2)" by (metis prod.exhaust)
  obtain u s3 where u: "shutdown env' a1 b s2 = (u, s3)" by fastforce
  let ?app = "appends (round_message W cfg ifi)"
  have eq: "a' = a1 \<and> (st' = s1 \<or> st' = s2 \<or> st' = s3)"
    using run ps q w u by (auto simp: Run_fn_def Let_def a1_def split: outcome.splits option.splits if_splits)
  have 1: "?app (av_Sent st) (av_Sent s1)"
    using send_appends[OF q env(1)] round_messageI(1)[OF again[THEN conjunct1]] unfolding a1 by (rule appends_mono)
  have "appends (configured_message W (adv_cfg a1)) (av_Sent s1) (av_Sent s2)" using group_appends[OF runs w] by simp
  then have 2: "?app (av_Sent s1) (av_Sent s2)"
    using round_messageI(1)[OF again[THEN conjunct1]] unfolding a1 by (rule appends_mono)
  have 3: "?app (av_Sent s2) (av_Sent s3)"
    using shutdown_appends[OF u env(2)] round_messageI(2)[OF again[THEN conjunct1]] unfolding a1 by (rule appends_mono)
  have "?app (av_Sent st) (av_Sent st')" using eq 1 2 3 appends_trans by metis
  moreover have "prepared_from cfg (adv_cfg a')" using eq a1 again by (auto simp: prepared_from_def)
  ultimately show ?thesis by blast
qed


section \<open>All rounds\<close>

definition round_sent :: "round_state \<Rightarrow> (router_advertisement \<times> addr) list" where
  "round_sent t = av_Sent (fst (snd t))"

text \<open>
  What holds of the record of the rounds: each has an interface of its own, found by the dial of the round,
  for which everything sent in it was prepared; together they are all that was sent.
\<close>

definition rounds_ok ::
  "(nat \<Rightarrow> dial_env) \<Rightarrow> adv_world \<Rightarrow> interface_config \<Rightarrow> (router_advertisement \<times> addr) list \<Rightarrow>
     round_state \<times> (dial_context \<times> (router_advertisement \<times> addr) list) list \<Rightarrow> bool" where
  "rounds_ok denv W cfg sent0 t \<longleftrightarrow>
     round_sent (fst t) = sent0 @ concat (map snd (snd t)) \<and>
     (\<forall>x \<in> set (snd t). found_by_dial denv (fst x) \<and> (\<forall>m \<in> set (snd x). round_message W cfg (dc_Interface (fst x)) m))"

lemma advertiser_Run_rounds:
  assumes run: "advertiser_Run ops denv d envs envs' quits work a st ds = Some (r, ds', t')"
    and np: "\<not> is_Panic r" and runs: "group_runs W work" and env: "\<forall>k. aw_Env W (envs k) \<and> aw_Env W (envs' k)"
  shows "\<exists>rounds. Dial ops denv d (logged round_sent (advertiser_fn envs envs' quits work)) ds ((a, st, 0), []) =
      Some (r, ds', t', rounds) \<and> rounds_ok denv W (adv_cfg a) (av_Sent st) (t', rounds)"
proof -
  let ?fn = "logged round_sent (advertiser_fn envs envs' quits work)"
  obtain rounds where l: "Dial_loop ops denv d ?fn None ds ((a, st, 0), []) = Some (r, ds', t', rounds)"
    using Dial_loop_logged[OF run[unfolded advertiser_Run_def Dial_def]] by blast
  define P where "P = (\<lambda>(ds :: 'a dialer_state) t. rounds_ok denv W (adv_cfg a) (av_Sent st) t \<and>
    (adv_cfg (fst (fst t)) = adv_cfg a \<or> prepared_from (adv_cfg a) (adv_cfg (fst (fst t)))))"
  have keeps: "P ds2 t1"
    if fn: "?fn dctx t = (q, t1)" and t: "P ds1 t" and found: "found_by_dial denv dctx" for ds1 ds2 dctx t q t1
  proof -
    obtain a1 st1 k rs where e: "t = ((a1, st1, k), rs)" by (metis prod.exhaust)
    obtain u a2 st2 where r: "Run_fn (envs k) (envs' k) a1 (quits k) (dc_Interface dctx) (work k) st1 = (u, a2, st2)"
      by (metis prod.exhaust)
    have t1: "t1 = ((a2, st2, Suc k), rs @ [(dctx, drop (length (av_Sent st1)) (av_Sent st2))])"
      using fn by (auto simp: logged_def advertiser_fn_def e r round_sent_def)
    have "prepared_from (adv_cfg a) (adv_cfg a2) \<and>
        appends (round_message W (adv_cfg a) (dc_Interface dctx)) (av_Sent st1) (av_Sent st2)"
      using round_keeps[OF runs _ _ r] env t by (auto simp: P_def e)
    then show ?thesis using t found by (auto simp: P_def t1 e rounds_ok_def round_sent_def appends_def)
  qed
  have "P ds ((a, st, 0), [])" by (simp add: P_def rounds_ok_def round_sent_def)
  from l np this have "rounds_ok denv W (adv_cfg a) (av_Sent st) (t', rounds)"
  proof (rule Dial_loop_rule[where P = P and Q = "\<lambda>_ _. rounds_ok denv W (adv_cfg a) (av_Sent st)"])
    fix err ds x dctx ds1 e x1 ds2
    assume "P ds x" "dialer_init ops denv d err ds = (Ok dctx, ds1)" "?fn dctx x = (Err e, x1)"
    then show "P ds2 x1" using keeps dialer_init_found by blast
  next
    fix err ds x e ds1
    assume "P ds x"
    then show "rounds_ok denv W (adv_cfg a) (av_Sent st) x" by (simp add: P_def)
  next
    fix err ds x dctx ds1 q x1 e ds2
    assume "P ds x" "dialer_init ops denv d err ds = (Ok dctx, ds1)" "?fn dctx x = (q, x1)"
    then show "rounds_ok denv W (adv_cfg a) (av_Sent st) x1" using keeps dialer_init_found by (meson P_def)
  next
    fix err ds x dctx ds1 u x1 ds2
    assume "P ds x" "dialer_init ops denv d err ds = (Ok dctx, ds1)" "?fn dctx x = (Ok u, x1)"
    then show "rounds_ok denv W (adv_cfg a) (av_Sent st) x1" using keeps dialer_init_found by (meson P_def)
  qed
  then show ?thesis using l by (auto simp: Dial_def)
qed

end
