(* ===== verification/System_Properties.thy ===== *)
theory System_Properties
  imports Advertiser_Run
begin

text \<open>
  Properties of the goroutines of an advertiser together: whatever the order in which they are run, and
  whatever messages arrive.
\<close>

section \<open>A system to instantiate them on\<close>

definition demo_world :: adv_world where
  "demo_world = \<lparr>aw_Env = (\<lambda>env. env = demo_env), aw_ndp = demo_ndp, aw_watchC = Some 0\<rparr>"

lemma host_wellformed: "os_wellformed (host host_addrs now)"
proof -
  have "list_all address_message_ok host_addrs" "list_all route_message_ok host_routes" by code_simp+
  then show ?thesis by (auto simp: os_wellformed_def host_def split: rtnl_request.split)
qed

lemma demo_world_sound: "world_sound demo_world"
  using host_wellformed[of 5] by (auto simp: world_sound_def demo_world_def demo_env_def)

lemma demo_world_answers: "world_answers demo_world"
  using world_sound_for[OF demo_world_sound] by (simp add: sound_for_def)

lemma demo_world_no_default: "aw_Env demo_world env \<Longrightarrow> \<not> loopback_default (ae_os env)"
  using os_wellformed_answers[OF host_wellformed[of 5]] by (simp add: demo_world_def demo_env_def)

lemma demo_advertiser_sound: "advertiser_sound demo_advertiser"
  by (simp add: advertiser_sound_def demo_advertiser_def NewAdvertiser_def demo_interface_def auto64_def)

text \<open>One request of the generator, from the channel to the connection.\<close>

definition demo_s0 :: adv_system where "demo_s0 = advertise_start demo_advertiser 0 demo_state"
definition demo_s1 :: adv_system where "demo_s1 = demo_s0\<lparr>sy_Generator := Requesting 0\<rparr>"
definition demo_s2 :: adv_system where
  "demo_s2 = ipC_send IPv6LinkLocalAllNodes (demo_s1\<lparr>sy_Generator := Delaying 0\<rparr>)"
definition demo_s3 :: adv_system where
  "demo_s3 = demo_s2\<lparr>sy_ipC := [],
     sy_Schedule := \<lparr>sc_tasks = [(3 * Second, IPv6LinkLocalAllNodes)], sc_last = 0\<rparr>\<rparr>"
definition demo_s4 :: adv_system where "demo_s4 = demo_s3\<lparr>sy_Now := sy_Now demo_s3 + 3 * Second\<rparr>"
definition demo_s5 :: adv_system where
  "demo_s5 = demo_s4\<lparr>sy_State := snd (sendWorker demo_env demo_interface IPv6LinkLocalAllNodes demo_state),
     sy_Schedule := \<lparr>sc_tasks = [], sc_last = 0\<rparr>, sy_Handled := [IPv6LinkLocalAllNodes]\<rparr>"

lemmas demo_system_defs = demo_s0_def demo_s1_def demo_s2_def demo_s3_def demo_s4_def demo_s5_def

lemma demo_multicast_send:
  "sendWorker demo_env demo_interface IPv6LinkLocalAllNodes demo_state =
     (Ok (), snd (sendWorker demo_env demo_interface IPv6LinkLocalAllNodes demo_state))"
  "av_Sent (snd (sendWorker demo_env demo_interface IPv6LinkLocalAllNodes demo_state)) =
     [(demo_ra (1800 * Second) 7, IPv6LinkLocalAllNodes)]"
proof -
  have "\<not> ci_UnicastOnly demo_interface" by (simp add: demo_interface_def)
  then show "sendWorker demo_env demo_interface IPv6LinkLocalAllNodes demo_state =
     (Ok (), snd (sendWorker demo_env demo_interface IPv6LinkLocalAllNodes demo_state))"
    and "av_Sent (snd (sendWorker demo_env demo_interface IPv6LinkLocalAllNodes demo_state)) =
     [(demo_ra (1800 * Second) 7, IPv6LinkLocalAllNodes)]"
    by (simp_all add: sendWorker_def send_def demo_buildRA Let_def) (simp_all add: demo_state_def demo_env_def)
qed

lemma demo_reaches: "advertise_reaches demo_world demo_advertiser demo_s0 demo_s5"
proof -
  have cfg: "adv_cfg demo_advertiser = demo_interface" "adv_minDelayBetweenRAs demo_advertiser = 3 * Second"
    by (simp_all add: demo_advertiser_def NewAdvertiser_def minDelayBetweenRAs_def)
  have 1: "advertise_step demo_world demo_advertiser demo_s0 (Ok demo_s1)"
    unfolding demo_s1_def by (rule generator_check)
      (simp_all add: demo_s0_def advertise_start_def cfg demo_interface_def)
  have 2: "advertise_step demo_world demo_advertiser demo_s1 (Ok demo_s2)"
    unfolding demo_s2_def by (rule generator_send)
      (simp_all add: demo_s1_def demo_s0_def advertise_start_def ipC_capacity_def)
  have req: "schedule_request (3 * Second) IPv6LinkLocalAllNodes 0 (\<lambda>_. 0) (schedule_start 0) =
      Ok \<lparr>sc_tasks = [(3 * Second, IPv6LinkLocalAllNodes)], sc_last = 0\<rparr>"
    by code_simp
  have "advertise_step demo_world demo_advertiser demo_s2
      (bindO (schedule_request (adv_minDelayBetweenRAs demo_advertiser) IPv6LinkLocalAllNodes (sy_Now demo_s2) (\<lambda>_. 0)
         (sy_Schedule demo_s2)) (\<lambda>sc. Ok (demo_s2\<lparr>sy_ipC := [], sy_Schedule := sc\<rparr>)))"
    by (rule schedule_receive) (simp_all add: demo_s2_def demo_s1_def demo_s0_def advertise_start_def rng_ok_def)
  moreover have "sy_Now demo_s2 = 0" "sy_Schedule demo_s2 = schedule_start 0"
    by (simp_all add: demo_s2_def demo_s1_def demo_s0_def advertise_start_def)
  ultimately have 3: "advertise_step demo_world demo_advertiser demo_s2 (Ok demo_s3)"
    by (simp only: cfg req bindO.simps demo_s3_def)
  have 4: "advertise_step demo_world demo_advertiser demo_s3 (Ok demo_s4)"
    unfolding demo_s4_def by (rule tick) simp
  have "advertise_step demo_world demo_advertiser demo_s4
      (worker_done (Ok ()) (snd (sendWorker demo_env demo_interface IPv6LinkLocalAllNodes demo_state)) ([] @ [])
        IPv6LinkLocalAllNodes demo_s4)"
    by (rule worker[where env = demo_env and t = "3 * Second"])
      (simp_all add: demo_s4_def demo_s3_def demo_s2_def demo_s1_def demo_s0_def advertise_start_def demo_world_def
        cfg demo_multicast_send(1)[symmetric])
  then have 5: "advertise_step demo_world demo_advertiser demo_s4 (Ok demo_s5)"
    by (simp add: worker_done_def demo_system_defs advertise_start_def ipC_send_def)
  show ?thesis
    by (rule reaches_trans[OF reaches_step[OF 5] reaches_trans[OF reaches_step[OF 4] reaches_trans[OF reaches_step[OF 3]
          reaches_trans[OF reaches_step[OF 2] reaches_step[OF 1]]]]])
qed


section \<open>Safety\<close>


definition demo_first :: interface_config where
  "demo_first = hd (cfg_Interfaces (fst demo_config))"

lemma demo_first_mem: "demo_first \<in> set (cfg_Interfaces (fst demo_config))"
  using demo_config_interfaces by (cases "cfg_Interfaces (fst demo_config)") (auto simp: demo_first_def)

lemma demo_first_advertises: "\<not> ci_Monitor demo_first"
  by code_simp

lemma demo_first_multicasts: "\<not> ci_UnicastOnly demo_first"
  by code_simp

lemma start_delays:
  assumes "\<not> ci_UnicastOnly (adv_cfg a)"
  shows "\<exists>s. advertise_reaches W a (advertise_start a now st) s \<and> sy_Generator s = Delaying 0"
proof -
  let ?s = "advertise_start a now st"
  let ?t = "?s\<lparr>sy_Generator := Requesting 0\<rparr>"
  have 1: "advertise_step W a ?s (Ok ?t)"
    by (rule generator_check) (use assms in \<open>simp_all add: advertise_start_def\<close>)
  have 2: "advertise_step W a ?t (Ok (ipC_send IPv6LinkLocalAllNodes (?t\<lparr>sy_Generator := Delaying 0\<rparr>)))"
    by (rule generator_send) (simp_all add: advertise_start_def ipC_capacity_def)
  from reaches_trans[OF reaches_step[OF 2] reaches_step[OF 1]] show ?thesis by fastforce
qed


text \<open>
  C3: no request is lost, invented or answered twice: while the scheduler runs, the requests made are those
  in the channel, those that are scheduled and those handled, each once; later some may be dropped.
  Each request that was handled is counted, as an advertisement or as an error, and the channel
  holds at most its capacity.
\<close>

theorem requests_conserved:
  assumes "advertise_reaches W a (advertise_start a now st) s"
  shows "(sy_Scheduling s \<longrightarrow> mset (sy_Asked s) =
      mset (sy_ipC s) + mset (map snd (sc_tasks (sy_Schedule s))) + mset (sy_Handled s)) \<and>
    mset (sy_ipC s) + mset (map snd (sc_tasks (sy_Schedule s))) + mset (sy_Handled s) \<subseteq># mset (sy_Asked s) \<and>
    counts ''AdvRouterAdvertisementsTotal'' (av_Metrics (sy_State s)) + counts ''AdvErrorsTotal'' (av_Metrics (sy_State s)) =
      counts ''AdvRouterAdvertisementsTotal'' (av_Metrics st) + counts ''AdvErrorsTotal'' (av_Metrics st) +
      length (sy_Handled s) \<and>
    length (sy_ipC s) \<le> 16"
proof -
  have "sy_Handled (advertise_start a now st) = []" "sy_State (advertise_start a now st) = st"
    by (simp_all add: advertise_start_def)
  then show ?thesis
    using requests_balance[OF assms] handled_counted[OF assms] ipC_bounded[OF assms]
    by (auto simp: broker_ok_def broker_of_def sends_counted_def ipC_capacity_def)
qed

theorem requests_conserved_witness:
  "mset (sy_Asked demo_s5) =
      mset (sy_ipC demo_s5) + mset (map snd (sc_tasks (sy_Schedule demo_s5))) + mset (sy_Handled demo_s5) \<and>
    counts ''AdvRouterAdvertisementsTotal'' (av_Metrics (sy_State demo_s5)) +
      counts ''AdvErrorsTotal'' (av_Metrics (sy_State demo_s5)) = 1"
proof -
  have "sy_Scheduling demo_s5" "length (sy_Handled demo_s5) = 1" "av_Metrics demo_state = []"
    by (simp_all add: demo_system_defs advertise_start_def demo_state_def)
  then show ?thesis using requests_conserved[OF demo_reaches[unfolded demo_s0_def]] by simp
qed

text \<open>
  Everything the group sends is an advertisement of the configuration, as generated at some moment, and
  an interface in unicast-only mode never sends to a multicast address.
\<close>

theorem everything_sent_is_configured:
  assumes "advertise_reaches W a (advertise_start a now st) s"
    and "(ra, dst) \<in> set (av_Sent (sy_State s))" and "(ra, dst) \<notin> set (av_Sent st)"
  shows "(\<exists>env. aw_Env W env \<and> advertised_header env (adv_cfg a) ra \<and> advertised_options env (adv_cfg a) ra) \<and>
    \<not> (ci_UnicastOnly (adv_cfg a) \<and> IsMulticast dst)"
proof -
  have "sy_State (advertise_start a now st) = st" by (simp add: advertise_start_def)
  then show ?thesis using sent_configured[OF assms(1)] assms(2,3) by (force simp: configured_message_def)
qed

theorem everything_sent_is_configured_witness:
  "av_Sent (sy_State demo_s5) = [(demo_ra (1800 * Second) 7, IPv6LinkLocalAllNodes)] \<and>
    (\<exists>env. aw_Env demo_world env \<and> advertised_header env (adv_cfg demo_advertiser) (demo_ra (1800 * Second) 7) \<and>
      advertised_options env (adv_cfg demo_advertiser) (demo_ra (1800 * Second) 7))"
proof -
  have sent: "av_Sent (sy_State demo_s5) = [(demo_ra (1800 * Second) 7, IPv6LinkLocalAllNodes)]"
    using demo_multicast_send(2) by (simp add: demo_s5_def)
  have "av_Sent demo_state = []" by (simp add: demo_state_def)
  then show ?thesis
    using everything_sent_is_configured[OF demo_reaches[unfolded demo_s0_def], of "demo_ra (1800 * Second) 7"] sent
    by simp
qed

section \<open>How the group ends\<close>

text \<open>
  C16: as long as the caller's context is alive, the group of goroutines ends only because a worker could not
  send or because the link changed, and then with that error; it never ends because the listener failed.
\<close>

theorem advertise_ends_with_reason:
  assumes "advertise_reaches W a (advertise_start a now st) s" and "all_returned s" and "sy_Parent s = None"
  shows "\<exists>e. advertise (sy_Results s) (sy_Parent s) = Some (FmtW ''failed to run advertiser: %w'' e) \<and>
    (e = Sentinel ErrLinkChange \<or> (\<exists>e'. e = FmtW ''failed to schedule router advertisements: %w'' e'))"
proof -
  have g: "group_ok s" by (rule reaches_group_ok[OF assms(1) start_group_ok])
  then obtain e where "group_Wait (sy_Results s) = Some e" "ends_group e"
    using assms(2,3) unfolding group_ok_def all_returned_def by (metis not_None_eq)
  then show ?thesis by (auto simp: advertise_def ends_group_def)
qed

lemma link_change_ends: "\<exists>s. advertise_reaches demo_world demo_advertiser demo_s0 s \<and> all_returned s \<and> sy_Parent s = None"
proof -
  define w where "w = \<lparr>w_watching = True, w_m = [], w_chans = (\<lambda>_. \<lparr>ch_Buffer = [LinkDown], ch_Closed = False\<rparr>), w_next = 1\<rparr>"
  have "linkStateWatcher (sy_Canceled demo_s0) (aw_watchC demo_world) w (Err (Sentinel ErrLinkChange))
      (w\<lparr>w_chans := (w_chans w)(0 := (w_chans w 0)\<lparr>ch_Buffer := []\<rparr>)\<rparr>)"
    unfolding demo_world_def by (simp, rule linkStateWatcher.changed) (simp add: w_def)
  from watcher_return[OF _ this, of demo_advertiser]
  have 1: "advertise_step demo_world demo_advertiser demo_s0
      (Ok (goroutine_returns (Some (Sentinel ErrLinkChange)) (demo_s0\<lparr>sy_Watching := False\<rparr>)))"
    by (simp add: demo_s0_def advertise_start_def)
  let ?s = "goroutine_returns (Some (Sentinel ErrLinkChange)) (demo_s0\<lparr>sy_Watching := False\<rparr>)"
  have "ending None 2 ?s"
    by (simp add: ending_def demo_s0_def advertise_start_def ipC_capacity_def listener_ok_def)
  from group_can_end[OF world_sound_for[OF demo_world_sound] demo_advertiser_sound _ this, of demo_env]
  show ?thesis using reaches_trans reaches_step[OF 1] by (fastforce simp: demo_world_def)
qed

theorem advertise_ends_with_reason_witness:
  "\<exists>s e. advertise_reaches demo_world demo_advertiser demo_s0 s \<and>
    advertise (sy_Results s) (sy_Parent s) = Some (FmtW ''failed to run advertiser: %w'' e)"
proof -
  obtain s where s: "advertise_reaches demo_world demo_advertiser demo_s0 s" "all_returned s" "sy_Parent s = None"
    using link_change_ends by blast
  from advertise_ends_with_reason[OF s(1)[unfolded demo_s0_def] s(2,3)] s(1) show ?thesis by blast
qed



text \<open>
  C39: but it may also never end: the sends on the channel do not watch the context, so that a listener that
  answers a solicitation when the scheduler has returned and the channel is full waits for ever, and
  the advertiser with it.  Every advertiser can get there.
\<close>

theorem shutdown_can_block:
  assumes "aw_Env W env"
  shows "\<exists>s. advertise_reaches W a (advertise_start a now st) s \<and> sy_Parent s = Some (Sentinel ContextCanceled) \<and>
    (\<forall>s'. advertise_reaches W a s s' \<longrightarrow> \<not> all_returned s')"
  using reaches_blocked[OF assms, of a now st] blocked_forever by blast

theorem shutdown_can_block_witness:
  "\<exists>s. advertise_reaches demo_world demo_advertiser demo_s0 s \<and> sy_Parent s = Some (Sentinel ContextCanceled) \<and>
    \<not> (\<exists>s'. advertise_reaches demo_world demo_advertiser s s' \<and> all_returned s')"
  using shutdown_can_block[of demo_world demo_env demo_advertiser 0 demo_state]
  by (auto simp: demo_world_def demo_s0_def)

section \<open>Restarts\<close>

text \<open>
  C6: however often the dialer restarts an advertiser, everything it sends falls into the rounds of the
  dialer; what it sends in a round is an advertisement of the configuration it was created with, its
  plugins prepared for the very interface that the dial of this round found and checked, with the
  configured router lifetime or with none; in unicast-only mode nothing goes to a multicast address.  When
  it returns, the autoconfiguration of every interface is what it was, as long as the setting of its own
  interface can be read and written.
\<close>

theorem restarts_keep_configuration:
  assumes "advertiser_Run systemState denv d envs envs' quits work a st ds = Some (r, ds', t')"
    and "\<not> is_Panic r" and "system_writable (ds_Sys ds) (d_iface d)"
    and "group_runs W work" and "\<forall>k. aw_Env W (envs k) \<and> aw_Env W (envs' k)"
  shows "(\<exists>rounds.
      Dial systemState denv d (logged round_sent (advertiser_fn envs envs' quits work)) ds ((a, st, 0), []) =
        Some (r, ds', t', rounds) \<and>
      round_sent t' = av_Sent st @ concat (map snd rounds) \<and>
      (\<forall>(dctx, sent) \<in> set rounds. found_by_dial denv dctx \<and>
        (\<forall>(ra, dst) \<in> set sent.
          (\<exists>ps lifetime env. prepare_plugins (dc_Interface dctx) (ci_Plugins (adv_cfg a)) = Ok ps \<and>
            (lifetime = ci_DefaultLifetime (adv_cfg a) \<or> lifetime = 0) \<and> aw_Env W env \<and>
            advertised_header env ((adv_cfg a)\<lparr>ci_Plugins := ps, ci_DefaultLifetime := lifetime\<rparr>) ra \<and>
            advertised_options env ((adv_cfg a)\<lparr>ci_Plugins := ps, ci_DefaultLifetime := lifetime\<rparr>) ra) \<and>
          \<not> (ci_UnicastOnly (adv_cfg a) \<and> IsMulticast dst)))) \<and>
    (\<forall>j. getIPv6Autoconf (ds_Sys ds') j = getIPv6Autoconf (ds_Sys ds) j)"
proof
  obtain rounds where rounds:
    "Dial systemState denv d (logged round_sent (advertiser_fn envs envs' quits work)) ds ((a, st, 0), []) =
      Some (r, ds', t', rounds)" "rounds_ok denv W (adv_cfg a) (av_Sent st) (t', rounds)"
    using advertiser_Run_rounds[OF assms(1,2,4,5)] by blast
  have message: "(\<exists>ps lifetime env. prepare_plugins ifi (ci_Plugins cfg) = Ok ps \<and>
        (lifetime = ci_DefaultLifetime cfg \<or> lifetime = 0) \<and> aw_Env W env \<and>
        advertised_header env (cfg\<lparr>ci_Plugins := ps, ci_DefaultLifetime := lifetime\<rparr>) ra \<and>
        advertised_options env (cfg\<lparr>ci_Plugins := ps, ci_DefaultLifetime := lifetime\<rparr>) ra) \<and>
      \<not> (ci_UnicastOnly cfg \<and> IsMulticast dst)" if "round_message W cfg ifi (ra, dst)" for cfg ifi ra dst
    using that by (auto simp: round_message_def configured_message_def)
  show "\<exists>rounds.
      Dial systemState denv d (logged round_sent (advertiser_fn envs envs' quits work)) ds ((a, st, 0), []) =
        Some (r, ds', t', rounds) \<and>
      round_sent t' = av_Sent st @ concat (map snd rounds) \<and>
      (\<forall>(dctx, sent) \<in> set rounds. found_by_dial denv dctx \<and>
        (\<forall>(ra, dst) \<in> set sent.
          (\<exists>ps lifetime env. prepare_plugins (dc_Interface dctx) (ci_Plugins (adv_cfg a)) = Ok ps \<and>
            (lifetime = ci_DefaultLifetime (adv_cfg a) \<or> lifetime = 0) \<and> aw_Env W env \<and>
            advertised_header env ((adv_cfg a)\<lparr>ci_Plugins := ps, ci_DefaultLifetime := lifetime\<rparr>) ra \<and>
            advertised_options env ((adv_cfg a)\<lparr>ci_Plugins := ps, ci_DefaultLifetime := lifetime\<rparr>) ra) \<and>
          \<not> (ci_UnicastOnly (adv_cfg a) \<and> IsMulticast dst)))"
    using rounds message unfolding rounds_ok_def fst_conv snd_conv by fastforce
  show "\<forall>j. getIPv6Autoconf (ds_Sys ds') j = getIPv6Autoconf (ds_Sys ds) j"
    using system.Dial_loop_restores[OF assms(1)[unfolded advertiser_Run_def Dial_def] assms(3,2)]
    by (simp add: same_autoconf_def systemState_def)
qed

text \<open>A group that is canceled before any of its goroutines has done anything.\<close>

definition canceled_work :: "nat \<Rightarrow> group_run" where
  "canceled_work k a st =
     (replicate (if ci_UnicastOnly (adv_cfg a) then 3 else 4) None, Some (Sentinel ContextCanceled), st)"

lemma canceled_run:
  "\<exists>s. advertise_reaches demo_world a (advertise_start a 0 st) s \<and> all_returned s \<and>
     canceled_work k a st = (sy_Results s, sy_Parent s, sy_State s)"
proof -
  let ?c = "Sentinel ContextCanceled" and ?s0 = "advertise_start a 0 st"
  define s1 where "s1 = ?s0\<lparr>sy_Parent := Some ?c, sy_Canceled := True\<rparr>"
  define s2 where "s2 = (if ci_UnicastOnly (adv_cfg a) then s1
    else goroutine_returns None (s1\<lparr>sy_Generator := GeneratorDone\<rparr>))"
  define renv :: "nat \<Rightarrow> recv_env" where "renv = (\<lambda>_. (solicit demo_ndp 0)\<lparr>re_Ctx := Some ?c\<rparr>)"
  define s3 where "s3 = listener_received (Ok ()) (Err ?c) (recv_of s2) s2"
  define s4 where "s4 = goroutine_returns None (s3\<lparr>sy_Scheduling := False\<rparr>)"
  define s5 where "s5 = goroutine_returns None (s4\<lparr>sy_Watching := False\<rparr>)"
  note defs = s5_def s4_def s3_def s2_def s1_def advertise_start_def goroutine_returns_def listener_received_def Let_def
  have 1: "advertise_reaches demo_world a ?s0 s1"
    unfolding s1_def by (intro reaches_step cancel) (simp add: advertise_start_def)
  have 2: "advertise_reaches demo_world a s1 s2"
  proof (cases "ci_UnicastOnly (adv_cfg a)")
    case False
    then have "advertise_step demo_world a s1 (Ok s2)"
      unfolding s2_def by (simp, intro generator_exit[where i = 0]) (simp_all add: s1_def advertise_start_def)
    then show ?thesis by (rule reaches_step)
  qed (simp add: s2_def advertise_reaches.start)
  have rcv: "receiveRetry demo_ndp (ae_TypeString demo_env) (ci_Name (adv_cfg a)) renv x = (Err ?c, x)" for x
    by (simp add: receiveRetry_def recv_retries_def renv_def eval_nat_numeral)
  have 3: "advertise_step demo_world a s2 (Ok s3)"
    unfolding s3_def by (rule listener_read[where renv = renv and env = demo_env])
      (simp_all add: demo_world_def rcv defs)
  have "advertise_step demo_world a s3 (scheduler_returns (Ok ()) (sy_Schedule s3) s3)"
    by (rule schedule_done[where w = None]) (simp_all add: defs)
  then have 4: "advertise_step demo_world a s3 (Ok s4)" by (simp add: scheduler_returns_def s4_def)
  have "linkStateWatcher True (Some 0) w (Ok ()) w" for w by (rule linkStateWatcher.canceled)
  then have "advertise_step demo_world a s4 (Ok (goroutine_returns (error_of (Ok ())) (s4\<lparr>sy_Watching := False\<rparr>)))"
    by (intro watcher_return) (simp_all add: demo_world_def defs)
  then have 5: "advertise_step demo_world a s4 (Ok s5)" by (simp add: s5_def)
  have "advertise_reaches demo_world a ?s0 s5"
    by (rule advertise_reaches.step[OF advertise_reaches.step[OF advertise_reaches.step[OF reaches_trans[OF 2 1] 3] 4] 5])
  moreover have "all_returned s5" by (simp add: all_returned_def defs)
  moreover have "canceled_work k a st = (sy_Results s5, sy_Parent s5, sy_State s5)"
    by (simp add: canceled_work_def defs recv_of_def eval_nat_numeral)
  ultimately show ?thesis by blast
qed

lemma canceled_group_runs: "group_runs demo_world canceled_work"
  unfolding group_runs_def using canceled_run by blast

lemma demo_round:
  "Run_fn demo_env demo_env demo_advertiser False eth0 (canceled_work 0) demo_state =
     (Ok (), demo_advertiser,
      demo_state\<lparr>av_Heap := 10, av_Ready := True,
        av_Sent := [(demo_ra (1800 * Second) 7, IPv6LinkLocalAllNodes)]\<rparr>)"
proof -
  have prep: "prepare_plugins eth0 (ci_Plugins demo_interface) = Ok (ci_Plugins demo_interface)"
    by (simp add: prepare_plugins_def demo_interface_def prefix_Prepare_def auto64_def eth0_def)
  have cfg: "adv_cfg demo_advertiser = demo_interface" "\<not> ci_UnicastOnly demo_interface"
    "demo_advertiser\<lparr>adv_cfg := demo_interface\<rparr> = demo_advertiser"
    "demo_interface\<lparr>ci_Plugins := ci_Plugins demo_interface\<rparr> = demo_interface"
    by (simp_all add: demo_advertiser_def NewAdvertiser_def demo_interface_def)
  have wto: "ae_WriteTo demo_env ra dst = Ok ()" for ra dst by (simp add: demo_env_def)
  have "advertise (replicate 4 None) (Some (Sentinel ContextCanceled)) = Some (Sentinel ContextCanceled)"
    by (simp add: advertise_def derived_Err_def eval_nat_numeral)
  then have work: "canceled_work 0 demo_advertiser s = (replicate 4 None, Some (Sentinel ContextCanceled), s)"
      "advertise (replicate 4 None) (Some (Sentinel ContextCanceled)) = Some (Sentinel ContextCanceled)" for s
    by (simp_all add: canceled_work_def cfg)
  show ?thesis
    by (simp add: Run_fn_def cfg prep Let_def send_def demo_buildRA wto work shutdown_def del: replicate.simps)
      (simp add: demo_state_def)
qed

definition demo_rounds :: "(unit outcome \<times> procfs dialer_state \<times> round_state) option" where
  "demo_rounds = advertiser_Run systemState (\<lambda>_. demo_dial_env) demo_dialer (\<lambda>_. demo_env) (\<lambda>_. demo_env) (\<lambda>_. False)
     canceled_work demo_advertiser demo_state demo_dialer_state"

lemma demo_rounds_end:
  "\<exists>ds'. demo_rounds = Some (Ok (), ds', demo_advertiser,
     demo_state\<lparr>av_Heap := 10, av_Ready := True,
       av_Sent := [(demo_ra (1800 * Second) 7, IPv6LinkLocalAllNodes)]\<rparr>, 1)"
proof -
  note defs = demo_dialer_def demo_dialer_state_def demo_procfs_def systemState_def
  let ?fn = "advertiser_fn (\<lambda>_. demo_env) (\<lambda>_. demo_env) (\<lambda>_. False) canceled_work"
  obtain dctx ds1 where init: "dialer_init systemState (\<lambda>_. demo_dial_env) demo_dialer None demo_dialer_state = (Ok dctx, ds1)"
      "dc_Interface dctx = eth0" "dc_Restore dctx = Some True" "system_writable (ds_Sys ds1) ''eth0''"
    by (simp add: dialer_init_def demo_dial)
      (simp add: setAutoconf_def defs getIPv6Autoconf_def sysctlBool_def ReadFile_def setIPv6Autoconf_def
        sysctlEnable_def WriteFile_def system_writable_def)
  obtain w where w: "setIPv6Autoconf (ds_Sys ds1) ''eth0'' True = (Ok (), w)"
    using system.writable_set[OF init(4), of True] by (cases "setIPv6Autoconf (ds_Sys ds1) ''eth0'' True")
      (auto simp: systemState_def)
  have cleanup: "\<exists>ds2. dial_done systemState demo_dialer dctx ds1 = (Ok (), ds2)"
    using w by (simp add: dial_done_def init(3) restore_def Let_def demo_dialer_def systemState_def)
  have fn: "?fn dctx (demo_advertiser, demo_state, 0) = (Ok (), demo_advertiser,
     demo_state\<lparr>av_Heap := 10, av_Ready := True,
       av_Sent := [(demo_ra (1800 * Second) 7, IPv6LinkLocalAllNodes)]\<rparr>, 1)"
    by (simp only: advertiser_fn_def prod.case init(2) demo_round One_nat_def)
  show ?thesis
    unfolding demo_rounds_def advertiser_Run_def Dial_def
      Dial_loop.simps[of systemState _ demo_dialer ?fn None] init(1) prod.case outcome.case fn
    using cleanup by auto
qed

theorem restarts_keep_configuration_witness:
  "\<exists>r ds' t' rounds. demo_rounds = Some (r, ds', t') \<and>
    round_sent t' = [(demo_ra (1800 * Second) 7, IPv6LinkLocalAllNodes)] \<and> concat (map snd rounds) = round_sent t' \<and>
    (\<forall>(dctx, sent) \<in> set rounds. found_by_dial (\<lambda>_. demo_dial_env) dctx) \<and>
    getIPv6Autoconf (ds_Sys ds') ''eth0'' = getIPv6Autoconf (ds_Sys demo_dialer_state) ''eth0''"
proof -
  obtain ds' where run: "demo_rounds = Some (Ok (), ds', demo_advertiser,
     demo_state\<lparr>av_Heap := 10, av_Ready := True,
       av_Sent := [(demo_ra (1800 * Second) 7, IPv6LinkLocalAllNodes)]\<rparr>, 1)" (is "_ = Some (_, _, ?t)")
    using demo_rounds_end by blast
  have sent: "round_sent ?t = [(demo_ra (1800 * Second) 7, IPv6LinkLocalAllNodes)]" "av_Sent demo_state = []"
    by (simp_all add: round_sent_def demo_state_def)
  from restarts_keep_configuration[OF run[unfolded demo_rounds_def] _ demo_writable canceled_group_runs]
  have "(\<exists>rounds. round_sent ?t = av_Sent demo_state @ concat (map snd rounds) \<and>
      (\<forall>(dctx, sent) \<in> set rounds. found_by_dial (\<lambda>_. demo_dial_env) dctx)) \<and>
    (\<forall>j. getIPv6Autoconf (ds_Sys ds') j = getIPv6Autoconf (ds_Sys demo_dialer_state) j)"
    by (simp add: demo_world_def) fast
  then show ?thesis using run sent by (metis append_Nil)
qed

end
