(* ===== verification/Metrics.thy ===== *)
theory Metrics
  imports Config Verify Metric SysState
begin

text \<open>
  \<open>internal/corerad/metrics.go\<close>: the metrics that are computed when they are scraped.  The metrics
  library holds the registered names; \<open>constScrape\<close> is given a map from these names to functions, which
  is given by the lists of its keys in the orders of iteration, and what it reports is the list of its calls.
\<close>

definition ifiAdvertising :: string where "ifiAdvertising = ''corerad_interface_advertising''"
definition ifiAutoconfiguration :: string where "ifiAutoconfiguration = ''corerad_interface_autoconfiguration''"
definition ifiForwarding :: string where "ifiForwarding = ''corerad_interface_forwarding''"
definition ifiMonitoring :: string where "ifiMonitoring = ''corerad_interface_monitoring''"
definition advDNSSLLifetime :: string where "advDNSSLLifetime = ''corerad_advertiser_dnssl_lifetime_seconds''"
definition advMisconfiguration :: string where "advMisconfiguration = ''corerad_advertiser_misconfiguration''"
definition advPrefixAutonomous :: string where "advPrefixAutonomous = ''corerad_advertiser_prefix_autonomous''"
definition advPrefixOnLink :: string where "advPrefixOnLink = ''corerad_advertiser_prefix_on_link''"
definition advPrefixValid :: string where "advPrefixValid = ''corerad_advertiser_prefix_valid_seconds''"
definition advPrefixPreferred :: string where "advPrefixPreferred = ''corerad_advertiser_prefix_preferred_seconds''"
definition advRDNSSLifetime :: string where "advRDNSSLifetime = ''corerad_advertiser_rdnss_lifetime_seconds''"
definition advRouteLifetime :: string where "advRouteLifetime = ''corerad_advertiser_route_lifetime_seconds''"

lemmas metric_names = ifiAdvertising_def ifiAutoconfiguration_def ifiForwarding_def ifiMonitoring_def
  advDNSSLLifetime_def advMisconfiguration_def advPrefixAutonomous_def advPrefixOnLink_def
  advPrefixValid_def advPrefixPreferred_def advRDNSSLifetime_def advRouteLifetime_def

definition msgInvalid :: string where "msgInvalid = ''corerad_messages_received_invalid_total''"
definition advInconsistencies :: string where "advInconsistencies = ''corerad_advertiser_inconsistencies_total''"
definition monReceived :: string where "monReceived = ''corerad_monitor_messages_received_total''"
definition monFlagManaged :: string where "monFlagManaged = ''corerad_monitor_flag_managed''"
definition monFlagOther :: string where "monFlagOther = ''corerad_monitor_flag_other''"
definition monDefaultRoute :: string where
  "monDefaultRoute = ''corerad_monitor_default_route_expiration_timestamp_seconds''"
definition monPrefixAutonomous :: string where "monPrefixAutonomous = ''corerad_monitor_prefix_autonomous''"
definition monPrefixOnLink :: string where "monPrefixOnLink = ''corerad_monitor_prefix_on_link''"
definition monPrefixPreferred :: string where
  "monPrefixPreferred = ''corerad_monitor_prefix_preferred_expiration_timestamp_seconds''"
definition monPrefixValid :: string where
  "monPrefixValid = ''corerad_monitor_prefix_valid_expiration_timestamp_seconds''"

text \<open>
  The counters and gauges \<open>NewMetrics\<close> registers: the field that holds the function, the name and the
  labels.  The other theories name a metric by its field.
\<close>

definition registered :: "(string \<times> string \<times> string list) list" where
  "registered =
     [(''Info'', ''corerad_build_info'', [''version'']),
      (''Time'', ''corerad_build_timestamp_seconds'', []),
      (''MessagesReceivedInvalidTotal'', msgInvalid, [''interface'', ''message'']),
      (''AdvLastMulticastTime'', ''corerad_advertiser_last_multicast_timestamp_seconds'', [''interface'']),
      (''AdvMessagesReceivedTotal'', ''corerad_advertiser_messages_received_total'', [''interface'', ''message'']),
      (''AdvRouterAdvertisementInconsistenciesTotal'', advInconsistencies, [''interface'', ''details'', ''field'']),
      (''AdvRouterAdvertisementsTotal'', ''corerad_advertiser_router_advertisements_total'', [''interface'', ''type'']),
      (''AdvErrorsTotal'', ''corerad_advertiser_errors_total'', [''interface'', ''error'']),
      (''MonMessagesReceivedTotal'', monReceived, [''interface'', ''host'', ''message'']),
      (''MonFlagManaged'', monFlagManaged, [''interface'', ''router'']),
      (''MonFlagOther'', monFlagOther, [''interface'', ''router'']),
      (''MonDefaultRouteExpirationTime'', monDefaultRoute, [''interface'', ''router'']),
      (''MonPrefixAutonomous'', monPrefixAutonomous, [''interface'', ''prefix'', ''router'']),
      (''MonPrefixOnLink'', monPrefixOnLink, [''interface'', ''prefix'', ''router'']),
      (''MonPrefixPreferredLifetimeExpirationTime'', monPrefixPreferred, [''interface'', ''prefix'', ''router'']),
      (''MonPrefixValidLifetimeExpirationTime'', monPrefixValid, [''interface'', ''prefix'', ''router''])]"

text \<open>The gauges it registers for scraping, with their labels, and the static metrics it sets.\<close>

definition const_labels :: "(string \<times> string list) list" where
  "const_labels =
     [(ifiAdvertising, [''interface'']), (ifiMonitoring, [''interface'']), (ifiAutoconfiguration, [''interface'']),
      (ifiForwarding, [''interface'']), (advMisconfiguration, [''interface'', ''details'']),
      (advDNSSLLifetime, [''interface'', ''domains'']), (advPrefixAutonomous, [''interface'', ''prefix'']),
      (advPrefixOnLink, [''interface'', ''prefix'']), (advPrefixValid, [''interface'', ''prefix'']),
      (advPrefixPreferred, [''interface'', ''prefix'']), (advRDNSSLifetime, [''interface'', ''servers'']),
      (advRouteLifetime, [''interface'', ''route''])]"

definition const_gauges :: "string list" where
  "const_gauges = map fst const_labels"

definition NewMetrics :: "string \<Rightarrow> instant \<Rightarrow> metric list" where
  "NewMetrics version buildTime =
     [Metric ''Info'' f_one [version],
      Metric ''Time'' (if time_IsZero buildTime then f_of_int 0 else unix_float buildTime) []]"

record metrics_context =
  mc_Interface :: string
  mc_Advertising :: bool
  mc_Autoconfiguration :: bool
  mc_Forwarding :: bool
  mc_Monitoring :: bool
  mc_Advertisement :: "router_advertisement option"
  mc_Misconfigurations :: "misconfiguration list"

definition mc_options :: "metrics_context \<Rightarrow> opt_ptr list" where
  "mc_options x = (case mc_Advertisement x of None \<Rightarrow> [] | Some ra \<Rightarrow> ra_Options ra)"

fun misconfiguration_label :: "misconfiguration \<Rightarrow> string" where
  "misconfiguration_label InterfaceNotForwarding = ''interface_not_forwarding''"

text \<open>The calls for one metric name.\<close>

definition collect_metric :: "metrics_context \<Rightarrow> string \<Rightarrow> metric list outcome" where
  "collect_metric x m =
     (let iface = mc_Interface x;
          dnssl = map snd (pick as_DNSSearchList (mc_options x));
          prefixes = map snd (pick as_PrefixInformation (mc_options x));
          rdnss = map snd (pick as_RecursiveDNSServer (mc_options x));
          routes = map snd (pick as_RouteInformation (mc_options x))
      in if m = ifiAdvertising then Ok [Metric m (boolFloat (mc_Advertising x)) [iface]]
         else if m = ifiAutoconfiguration then Ok [Metric m (boolFloat (mc_Autoconfiguration x)) [iface]]
         else if m = ifiForwarding then Ok [Metric m (boolFloat (mc_Forwarding x)) [iface]]
         else if m = ifiMonitoring then Ok [Metric m (boolFloat (mc_Monitoring x)) [iface]]
         else if m = advMisconfiguration then
           Ok (map (\<lambda>c. Metric m f_one [iface, misconfiguration_label c]) (mc_Misconfigurations x))
         else if m = advDNSSLLifetime then
           Ok (map (\<lambda>d. Metric m (dur_Seconds (sl_Lifetime d)) [iface, str_join '', '' (sl_DomainNames d)]) dnssl)
         else if m = advPrefixAutonomous then
           Ok (map (\<lambda>p. Metric m (boolFloat (pi_Autonomous p)) [iface, prefixStr p]) prefixes)
         else if m = advPrefixOnLink then
           Ok (map (\<lambda>p. Metric m (boolFloat (pi_OnLink p)) [iface, prefixStr p]) prefixes)
         else if m = advPrefixValid then
           Ok (map (\<lambda>p. Metric m (dur_Seconds (pi_ValidLifetime p)) [iface, prefixStr p]) prefixes)
         else if m = advPrefixPreferred then
           Ok (map (\<lambda>p. Metric m (dur_Seconds (pi_PreferredLifetime p)) [iface, prefixStr p]) prefixes)
         else if m = advRDNSSLifetime then
           Ok (map (\<lambda>r. Metric m (dur_Seconds (rd_Lifetime r)) [iface, ipsStr (rd_Servers r)]) rdnss)
         else if m = advRouteLifetime then
           Ok (map (\<lambda>r. Metric m (dur_Seconds (ri_RouteLifetime r)) [iface, routeStr r]) routes)
         else Panic ''corerad: metrics collection for %q is not handled'')"

definition collectMetrics :: "string list \<Rightarrow> metrics_context \<Rightarrow> metric list outcome" where
  "collectMetrics metrics x = bindO (mapO (collect_metric x) metrics) (\<lambda>mss. Ok (concat mss))"

text \<open>
  What is reported on an interface: its name, with the advertisement when it advertises.  \<open>h\<close> is the
  allocator.
\<close>

definition scrape_context ::
  "os \<Rightarrow> 'w state_ops \<Rightarrow> 'w \<Rightarrow> interface_config \<Rightarrow> ptr \<Rightarrow> (metrics_context \<times> ptr) outcome" where
  "scrape_context os st w ifi h =
     bindO (wrapErr (FmtV ''failed to check IPv6 autoconfiguration for %q: %v'')
             (st_IPv6Autoconf st w (ci_Name ifi))) (\<lambda>auto.
     bindO (wrapErr (FmtV ''failed to check IPv6 forwarding for %q: %v'')
             (st_IPv6Forwarding st w (ci_Name ifi))) (\<lambda>fwd.
     bindO (if ci_Advertise ifi then
              bindO (wrapErr (FmtV ''failed to generate router advertisement for metrics for %q: %v'')
                      (RouterAdvertisement_of os ifi fwd h)) (\<lambda>(ra, ms, h'). Ok (Some ra, ms, h'))
            else Ok (None, [], h)) (\<lambda>(ra, ms, h').
     Ok (\<lparr>mc_Interface = ci_Name ifi, mc_Advertising = ci_Advertise ifi, mc_Autoconfiguration = auto,
          mc_Forwarding = fwd, mc_Monitoring = ci_Monitor ifi, mc_Advertisement = ra,
          mc_Misconfigurations = ms\<rparr>, h'))))"

text \<open>
  The calls made so far stay when a later interface fails.  The map is ranged over anew for every
  interface: \<open>metrics k\<close> is the order of its keys when \<open>k\<close> interfaces are left.
\<close>

fun constScrape ::
  "os \<Rightarrow> 'w state_ops \<Rightarrow> 'w \<Rightarrow> (nat \<Rightarrow> string list) \<Rightarrow> interface_config list \<Rightarrow> ptr \<Rightarrow>
     unit outcome \<times> metric list" where
  "constScrape os st w metrics [] h = (Ok (), [])"
| "constScrape os st w metrics (ifi # ifis) h =
     (case bindO (scrape_context os st w ifi h)
             (\<lambda>(x, h'). bindO (collectMetrics (metrics (length ifis)) x) (\<lambda>ms. Ok (ms, h'))) of
        Err e \<Rightarrow> (Err e, [])
      | Panic p \<Rightarrow> (Panic p, [])
      | Ok (ms, h') \<Rightarrow> (case constScrape os st w metrics ifis h' of (r, ms') \<Rightarrow> (r, ms @ ms')))"


section \<open>Facts\<close>

lemma collect_metric_names:
  assumes "collect_metric x m = Ok ms" and "y \<in> set ms"
  shows "metric_name y = m"
  using assms by (auto simp: collect_metric_def Let_def split: if_splits)

lemma collect_metric_handled: "m \<in> set const_gauges \<Longrightarrow> is_Ok (collect_metric x m)"
  by (auto simp: collect_metric_def const_gauges_def const_labels_def Let_def)

lemma collect_metric_unhandled: "m \<notin> set const_gauges \<Longrightarrow> is_Panic (collect_metric x m)"
  by (auto simp: collect_metric_def const_gauges_def const_labels_def Let_def)

lemma mapO_is_Ok: "(\<forall>x \<in> set xs. is_Ok (f x)) \<Longrightarrow> is_Ok (mapO f xs)"
  by (induction xs) (auto simp: is_Ok_iff)

text \<open>Registered names never reach the panic of the default case.\<close>

lemma collectMetrics_Ok:
  assumes "set metrics \<subseteq> set const_gauges"
  shows "\<exists>ms. collectMetrics metrics x = Ok ms"
proof -
  have "is_Ok (mapO (collect_metric x) metrics)"
    using assms by (intro mapO_is_Ok ballI collect_metric_handled) blast
  then show ?thesis by (auto simp: collectMetrics_def is_Ok_iff)
qed

lemma mapO_mem: "mapO f xs = Ok ys \<Longrightarrow> x \<in> set xs \<Longrightarrow> f x = Ok y \<Longrightarrow> y \<in> set ys"
  by (induction xs arbitrary: ys) (auto simp: bindO_Ok_iff)

text \<open>The calls under one name are those of its case, whatever the order of the names.\<close>

lemma collectMetrics_under:
  assumes "collectMetrics metrics x = Ok ms" and "distinct metrics" and "m \<in> set metrics"
    and "collect_metric x m = Ok ms1"
  shows "filter (\<lambda>y. metric_name y = m) ms = ms1"
proof -
  have none: "filter (\<lambda>y. metric_name y = m) (concat mss) = []"
    if "mapO (collect_metric x) ns = Ok mss" "m \<notin> set ns" for ns mss
    using that
  proof (induction ns arbitrary: mss)
    case (Cons n ns)
    then obtain a b where ab: "collect_metric x n = Ok a" "mapO (collect_metric x) ns = Ok b" "mss = a # b"
      by (auto simp: bindO_Ok_iff)
    have "\<forall>y \<in> set a. metric_name y = n" using collect_metric_names[OF ab(1)] by blast
    then have "filter (\<lambda>y. metric_name y = m) a = []" using Cons.prems(2) by (auto simp: filter_empty_conv)
    then show ?case using Cons.IH[OF ab(2)] Cons.prems(2) ab(3) by simp
  qed simp
  have "filter (\<lambda>y. metric_name y = m) (concat mss) = ms1"
    if "mapO (collect_metric x) metrics = Ok mss" for mss
    using that assms(2,3)
  proof (induction metrics arbitrary: mss)
    case (Cons n ns)
    then obtain a b where ab: "collect_metric x n = Ok a" "mapO (collect_metric x) ns = Ok b" "mss = a # b"
      by (auto simp: bindO_Ok_iff)
    have a: "\<forall>y \<in> set a. metric_name y = n" using collect_metric_names[OF ab(1)] by blast
    show ?case
    proof (cases "n = m")
      case True
      have "filter (\<lambda>y. metric_name y = m) a = a" using a True by (simp add: filter_id_conv)
      then show ?thesis using none[OF ab(2)] Cons.prems(2) True ab assms(4) by simp
    next
      case False
      then have "filter (\<lambda>y. metric_name y = m) a = []" using a by (auto simp: filter_empty_conv)
      then show ?thesis using Cons.IH[OF ab(2)] Cons.prems(2,3) False ab(3) by simp
    qed
  qed simp
  then show ?thesis using assms(1) by (auto simp: collectMetrics_def bindO_Ok_iff)
qed

end
