(* ===== verification/Metric_Labels.thy ===== *)
theory Metric_Labels
  imports Metrics Monitor Advertise_Facts Listener
begin

text \<open>
  The metrics the program reports against those it registers: the metrics library panics when the
  number of label values differs from the number of labels, so every call has to match.
\<close>

definition label_count :: "string \<Rightarrow> nat option" where
  "label_count name =
     map_of (map (\<lambda>(field, _, ls). (field, length ls)) registered @ map (\<lambda>(name, ls). (name, length ls)) const_labels) name"

definition metric_labelled :: "metric \<Rightarrow> bool" where
  "metric_labelled m \<longleftrightarrow> label_count (metric_name m) = Some (length (metric_labels m))"

definition all_labelled :: "metric list \<Rightarrow> bool" where
  "all_labelled ms = list_all metric_labelled ms"

named_theorems labelled

lemma all_labelled_append [simp]: "all_labelled (xs @ ys) \<longleftrightarrow> all_labelled xs \<and> all_labelled ys"
  by (simp add: all_labelled_def)

lemma all_labelled_Nil [simp]: "all_labelled []"
  by (simp add: all_labelled_def)

lemma all_labelled_Cons [simp]: "all_labelled (x # xs) \<longleftrightarrow> metric_labelled x \<and> all_labelled xs"
  by (simp add: all_labelled_def)

lemma all_labelled_concat [simp]: "all_labelled (concat xss) \<longleftrightarrow> (\<forall>xs \<in> set xss. all_labelled xs)"
  by (induction xss) auto

lemma field_label_counts [simp]:
  "label_count ''MessagesReceivedInvalidTotal'' = Some 2"
  "label_count ''AdvLastMulticastTime'' = Some 1"
  "label_count ''AdvMessagesReceivedTotal'' = Some 2"
  "label_count ''AdvRouterAdvertisementInconsistenciesTotal'' = Some 3"
  "label_count ''AdvRouterAdvertisementsTotal'' = Some 2"
  "label_count ''AdvErrorsTotal'' = Some 2"
  "label_count ''MonMessagesReceivedTotal'' = Some 3"
  "label_count ''MonFlagManaged'' = Some 2"
  "label_count ''MonFlagOther'' = Some 2"
  "label_count ''MonDefaultRouteExpirationTime'' = Some 2"
  "label_count ''MonPrefixAutonomous'' = Some 3"
  "label_count ''MonPrefixOnLink'' = Some 3"
  "label_count ''MonPrefixPreferredLifetimeExpirationTime'' = Some 3"
  "label_count ''MonPrefixValidLifetimeExpirationTime'' = Some 3"
  by (simp_all add: label_count_def registered_def)

lemma const_counts:
  "map label_count const_gauges = map Some [1, 1, 1, 1, 2, 2, 2, 2, 2, 2, 2, 2]"
  by code_simp

lemmas const_label_counts [simp] = const_counts[simplified const_gauges_def const_labels_def list.map fst_conv list.inject]

lemma metric_labelled_const [simp]:
  "metric_labelled (Metric m v ls) \<longleftrightarrow> label_count m = Some (length ls)"
  by (simp add: metric_labelled_def)

lemma collect_metric_labelled: "collect_metric x m = Ok ms \<Longrightarrow> all_labelled ms"
  by (auto simp: collect_metric_def Let_def all_labelled_def list_all_iff split: if_splits)

lemma collectMetrics_labelled:
  assumes "collectMetrics metrics x = Ok ms"
  shows "all_labelled ms"
proof -
  have "all_labelled (concat mss)" if "mapO (collect_metric x) metrics = Ok mss" for mss
    using that by (induction metrics arbitrary: mss) (auto simp: bindO_Ok_iff dest: collect_metric_labelled)
  then show ?thesis using assms by (auto simp: collectMetrics_def bindO_Ok_iff)
qed

lemma constScrape_labelled: "all_labelled (snd (constScrape os st w metrics ifis h))"
  by (induction os st w metrics ifis h rule: constScrape.induct)
    (auto simp: bindO_Ok_iff split: outcome.splits prod.splits dest: collectMetrics_labelled)

lemma buildRA_metrics: "buildRA env ifi s = (r, s') \<Longrightarrow> av_Metrics s' = av_Metrics s"
  by (auto simp: buildRA_def split: outcome.splits)

lemma send_metrics: "send env dst cfg s = (r, s') \<Longrightarrow> av_Metrics s' = av_Metrics s"
  by (auto simp: send_def split: if_splits outcome.splits prod.splits dest: buildRA_metrics)

lemma sendWorker_labelled: "all_labelled (av_Metrics s) \<Longrightarrow> all_labelled (av_Metrics (snd (sendWorker env cfg ip s)))"
  by (auto simp: sendWorker_def Let_def split: outcome.splits prod.splits dest!: send_metrics)

lemma report_problems_labelled:
  "all_labelled (av_Metrics s) \<Longrightarrow> all_labelled (av_Metrics (fold (report_problem iface) ps s))"
  by (induction ps arbitrary: s) (simp_all add: report_problem_def metric_add_def)

lemma handle_labelled: "all_labelled (av_Metrics s) \<Longrightarrow> all_labelled (av_Metrics (snd (handle env a m ip s)))"
  by (auto simp: handle_def Let_def split: ndp_message.splits outcome.splits prod.splits
      dest!: buildRA_metrics intro!: report_problems_labelled)

lemma monitor_handle_labelled:
  "all_labelled (ms_Metrics s) \<Longrightarrow> all_labelled (ms_Metrics (monitor_handle env m msg name s))"
  by (auto simp: monitor_handle_def monitor_prefix_def Let_def split: ndp_message.splits)

lemma receive_loop_labelled:
  "all_labelled (rv_Metrics s) \<Longrightarrow> all_labelled (rv_Metrics (snd (receive_loop ndp tn iface env n i s)))"
  by (induction n arbitrary: i s) (auto simp: Let_def split: option.splits read_result.splits)

end
