(* ===== verification/Crhttp.thy ===== *)
theory Crhttp
  imports Config Verify SysState
begin

text \<open>
  \<open>internal/crhttp\<close>: the debug HTTP handler.  The JSON bodies are records with the fields of the Go
  structs; their encoding is the JSON library's.  A request is its path, a response its status with
  what the handler wrote.
\<close>

record json_dnssl =
  jd_LifetimeSeconds :: int
  jd_DomainNames :: "string list"

record json_prefix =
  jp_Prefix :: string
  jp_OnLink :: bool
  jp_Autonomous :: bool
  jp_ValidLifetimeSeconds :: int
  jp_PreferredLifetimeSeconds :: int

record json_rdnss =
  js_LifetimeSeconds :: int
  js_Servers :: "string list"

record json_route =
  jr_Prefix :: string
  jr_Preference :: string
  jr_RouteLifetimeSeconds :: int

record json_options =
  jo_DNSSL :: "json_dnssl list"
  jo_MTU :: int
  jo_Prefixes :: "json_prefix list"
  jo_RDNSS :: "json_rdnss list"
  jo_Routes :: "json_route list"
  jo_SourceLinkLayerAddress :: string
  jo_CaptivePortal :: string

record json_ra =
  ja_CurrentHopLimit :: int
  ja_ManagedConfiguration :: bool
  ja_OtherConfiguration :: bool
  ja_MobileIPv6HomeAgent :: bool
  ja_RouterSelectionPreference :: string
  ja_NeighborDiscoveryProxy :: bool
  ja_RouterLifetimeSeconds :: int
  ja_ReachableTimeMilliseconds :: int
  ja_RetransmitTimerMilliseconds :: int
  ja_Options :: json_options

record json_interface =
  ji_Interface :: string
  ji_Advertising :: bool
  ji_Advertisement :: "json_ra option"

section \<open>Packing\<close>

fun preference_name :: "preference \<Rightarrow> string outcome" where
  "preference_name PrefLow = Ok ''low''"
| "preference_name PrefMedium = Ok ''medium''"
| "preference_name PrefHigh = Ok ''high''"
| "preference_name (PrefCode _) = Panic ''crhttp: invalid ndp.Preference %q''"

definition prefixString :: "addr \<Rightarrow> u8 \<Rightarrow> string" where
  "prefixString ip len = pfx_String (PrefixFrom ip (uint len))"

definition no_options :: json_options where
  "no_options = \<lparr>jo_DNSSL = [], jo_MTU = 0, jo_Prefixes = [], jo_RDNSS = [], jo_Routes = [],
     jo_SourceLinkLayerAddress = '''', jo_CaptivePortal = ''''\<rparr>"

definition pack_option :: "json_options \<Rightarrow> ndp_option \<Rightarrow> json_options outcome" where
  "pack_option out o' =
     (case o' of
        CaptivePortalOpt u \<Rightarrow> Ok (out\<lparr>jo_CaptivePortal := u\<rparr>)
      | DNSSearchListOpt d \<Rightarrow>
          Ok (out\<lparr>jo_DNSSL := jo_DNSSL out @
            [\<lparr>jd_LifetimeSeconds = seconds_int (sl_Lifetime d), jd_DomainNames = sl_DomainNames d\<rparr>]\<rparr>)
      | LinkLayerAddressOpt l \<Rightarrow> Ok (out\<lparr>jo_SourceLinkLayerAddress := mac_String (ll_Addr l)\<rparr>)
      | MTUOpt m \<Rightarrow> Ok (out\<lparr>jo_MTU := uint m\<rparr>)
      | PrefixInformationOpt p \<Rightarrow>
          Ok (out\<lparr>jo_Prefixes := jo_Prefixes out @
            [\<lparr>jp_Prefix = prefixString (pi_Prefix p) (pi_PrefixLength p), jp_OnLink = pi_OnLink p,
              jp_Autonomous = pi_Autonomous p, jp_ValidLifetimeSeconds = seconds_int (pi_ValidLifetime p),
              jp_PreferredLifetimeSeconds = seconds_int (pi_PreferredLifetime p)\<rparr>]\<rparr>)
      | RecursiveDNSServerOpt r \<Rightarrow>
          Ok (out\<lparr>jo_RDNSS := jo_RDNSS out @
            [\<lparr>js_LifetimeSeconds = seconds_int (rd_Lifetime r), js_Servers = map addr_String (rd_Servers r)\<rparr>]\<rparr>)
      | RouteInformationOpt r \<Rightarrow>
          bindO (preference_name (ri_Preference r)) (\<lambda>pref.
            Ok (out\<lparr>jo_Routes := jo_Routes out @
              [\<lparr>jr_Prefix = prefixString (ri_Prefix r) (ri_PrefixLength r), jr_Preference = pref,
                jr_RouteLifetimeSeconds = seconds_int (ri_RouteLifetime r)\<rparr>]\<rparr>))
      | _ \<Rightarrow> Panic ''crhttp: unhandled NDP option: %#v'')"

definition packOptions :: "opt_ptr list \<Rightarrow> json_options outcome" where
  "packOptions opts = foldO (\<lambda>out p. pack_option out (snd p)) no_options opts"

definition packRA :: "router_advertisement \<Rightarrow> json_ra outcome" where
  "packRA ra =
     bindO (preference_name (ra_RouterSelectionPreference ra)) (\<lambda>pref.
     bindO (packOptions (ra_Options ra)) (\<lambda>opts.
       Ok \<lparr>ja_CurrentHopLimit = uint (ra_CurrentHopLimit ra),
           ja_ManagedConfiguration = ra_ManagedConfiguration ra,
           ja_OtherConfiguration = ra_OtherConfiguration ra,
           ja_MobileIPv6HomeAgent = ra_MobileIPv6HomeAgent ra,
           ja_RouterSelectionPreference = pref,
           ja_NeighborDiscoveryProxy = ra_NeighborDiscoveryProxy ra,
           ja_RouterLifetimeSeconds = seconds_int (ra_RouterLifetime ra),
           ja_ReachableTimeMilliseconds = dur_Milliseconds (ra_ReachableTime ra),
           ja_RetransmitTimerMilliseconds = dur_Milliseconds (ra_RetransmitTimer ra),
           ja_Options = opts\<rparr>))"


section \<open>The handler\<close>

datatype response =
    InterfacesBody "json_interface list"  \<comment> \<open>status 200, JSON\<close>
  | InternalServerError go_error
  | BannerText string
  | NotFound
  | Delegated string  \<comment> \<open>answered by the Prometheus or pprof handler of that pattern\<close>

definition interface_body ::
  "os \<Rightarrow> 'w state_ops \<Rightarrow> 'w \<Rightarrow> interface_config \<Rightarrow> ptr \<Rightarrow> (json_interface \<times> ptr) outcome" where
  "interface_body os st w iface h =
     (if \<not> ci_Advertise iface then
        Ok (\<lparr>ji_Interface = ci_Name iface, ji_Advertising = ci_Advertise iface, ji_Advertisement = None\<rparr>, h)
      else
        bindO (wrapErr (FmtV ''failed to check interface %q forwarding state: %v'')
                (st_IPv6Forwarding st w (ci_Name iface))) (\<lambda>forwarding.
        bindO (wrapErr (FmtV ''failed to generate router advertisements: %v'')
                (RouterAdvertisement_of os iface forwarding h)) (\<lambda>(ra, _, h').
        bindO (packRA ra) (\<lambda>j.
          Ok (\<lparr>ji_Interface = ci_Name iface, ji_Advertising = ci_Advertise iface,
               ji_Advertisement = Some j\<rparr>, h')))))"

definition interfaces ::
  "os \<Rightarrow> 'w state_ops \<Rightarrow> 'w \<Rightarrow> interface_config list \<Rightarrow> ptr \<Rightarrow> (response \<times> ptr) outcome" where
  "interfaces os st w ifaces h =
     (case foldO (\<lambda>(body, h) iface. bindO (interface_body os st w iface h) (\<lambda>(b, h'). Ok (body @ [b], h')))
             ([], h) ifaces of
        Ok (body, h') \<Rightarrow> Ok (InterfacesBody body, h')
      | Err e \<Rightarrow> Ok (InternalServerError e, h)
      | Panic p \<Rightarrow> Panic p)"

text \<open>
  The patterns \<open>NewHandler\<close> registers.  A pattern matches its own path, and one that ends in a slash
  every path below it; the longest match wins.  Redirects of unclean paths are the library's.
\<close>

definition patterns :: "debug_config \<Rightarrow> string list" where
  "patterns d =
     [''/_/api/interfaces''] @
     (if dbg_Prometheus d then [''/metrics''] else []) @
     (if dbg_PProf d then [''/debug/pprof/'', ''/debug/pprof/cmdline'', ''/debug/pprof/profile'',
        ''/debug/pprof/symbol'', ''/debug/pprof/trace''] else [])"

definition pattern_matches :: "string \<Rightarrow> string \<Rightarrow> bool" where
  "pattern_matches path p \<longleftrightarrow> p = path \<or> (p \<noteq> '''' \<and> last p = CHR ''/'' \<and> take (length p) path = p)"

fun longest_match :: "string \<Rightarrow> string option \<Rightarrow> string list \<Rightarrow> string option" where
  "longest_match path best [] = best"
| "longest_match path best (p # ps) =
     longest_match path
       (if pattern_matches path p \<and> (case best of None \<Rightarrow> True | Some b \<Rightarrow> length b < length p) then Some p else best) ps"

definition ServeHTTP ::
  "string \<Rightarrow> os \<Rightarrow> 'w state_ops \<Rightarrow> 'w \<Rightarrow> config \<Rightarrow> string \<Rightarrow> ptr \<Rightarrow> (response \<times> ptr) outcome" where
  "ServeHTTP banner os st w cfg path h =
     (if path = ''/'' then Ok (BannerText (banner @ [CHR 0x0A]), h)
      else case longest_match path None (patterns (cfg_Debug cfg)) of
        None \<Rightarrow> Ok (NotFound, h)
      | Some p \<Rightarrow>
          if p = ''/_/api/interfaces'' then interfaces os st w (cfg_Interfaces cfg) h
          else Ok (Delegated p, h))"


section \<open>Facts\<close>

fun packable :: "ndp_option \<Rightarrow> bool" where
  "packable (PREF64Opt _) = False"
| "packable (UnknownOpt _) = False"
| "packable (RouteInformationOpt r) = is_Ok (preference_name (ri_Preference r))"
| "packable _ = True"

lemma preference_name_not_Err: "preference_name p \<noteq> Err e"
  by (cases p) auto

lemma pack_option_Ok: "is_Ok (pack_option out o') \<longleftrightarrow> packable o'"
  by (cases o') (auto simp: pack_option_def is_Ok_iff bindO_Ok_iff)

lemma pack_option_not_Err: "pack_option out o' \<noteq> Err e"
  by (cases o') (auto simp: pack_option_def preference_name_not_Err bindO_cases)

lemma packOptions_decides:
  "if \<forall>p \<in> set opts. packable (snd p) then is_Ok (packOptions opts) else is_Panic (packOptions opts)"
proof -
  have "if \<forall>p \<in> set opts. packable (snd p) then is_Ok (foldO (\<lambda>out p. pack_option out (snd p)) out opts)
    else is_Panic (foldO (\<lambda>out p. pack_option out (snd p)) out opts)" for out
  proof (induction opts arbitrary: out)
    case (Cons p ps)
    then show ?case
      using pack_option_Ok[of out "snd p"] pack_option_not_Err[of out "snd p"]
      by (cases "pack_option out (snd p)") auto
  qed simp
  then show ?thesis by (simp add: packOptions_def)
qed

text \<open>The lists keep the order of the options.\<close>

lemma packOptions_lists:
  assumes "packOptions opts = Ok j"
  shows "map jp_Prefix (jo_Prefixes j) = map (prefixStr \<circ> snd) (pick as_PrefixInformation opts)"
    and "map jr_Prefix (jo_Routes j) = map (routeStr \<circ> snd) (pick as_RouteInformation opts)"
    and "map js_Servers (jo_RDNSS j) = map (\<lambda>p. map addr_String (rd_Servers (snd p))) (pick as_RecursiveDNSServer opts)"
    and "map jd_DomainNames (jo_DNSSL j) = map (sl_DomainNames \<circ> snd) (pick as_DNSSearchList opts)"
proof -
  have "map jp_Prefix (jo_Prefixes j) = map jp_Prefix (jo_Prefixes out) @ map (prefixStr \<circ> snd) (pick as_PrefixInformation opts) \<and>
    map jr_Prefix (jo_Routes j) = map jr_Prefix (jo_Routes out) @ map (routeStr \<circ> snd) (pick as_RouteInformation opts) \<and>
    map js_Servers (jo_RDNSS j) = map js_Servers (jo_RDNSS out) @
      map (\<lambda>p. map addr_String (rd_Servers (snd p))) (pick as_RecursiveDNSServer opts) \<and>
    map jd_DomainNames (jo_DNSSL j) = map jd_DomainNames (jo_DNSSL out) @
      map (sl_DomainNames \<circ> snd) (pick as_DNSSearchList opts)"
    if "foldO (\<lambda>out p. pack_option out (snd p)) out opts = Ok j" for out
    using that
  proof (induction opts arbitrary: out)
    case (Cons p ps)
    then obtain out' where o: "pack_option out (snd p) = Ok out'"
        "foldO (\<lambda>out p. pack_option out (snd p)) out' ps = Ok j" by (auto simp: bindO_Ok_iff)
    show ?case
      using Cons.IH[OF o(2)] o(1)
      by (cases "snd p") (auto simp: pack_option_def bindO_Ok_iff prefixString_def prefixStr_def routeStr_def cidrStr_def)
  qed simp
  from this[of no_options] assms show
    "map jp_Prefix (jo_Prefixes j) = map (prefixStr \<circ> snd) (pick as_PrefixInformation opts)"
    "map jr_Prefix (jo_Routes j) = map (routeStr \<circ> snd) (pick as_RouteInformation opts)"
    "map js_Servers (jo_RDNSS j) = map (\<lambda>p. map addr_String (rd_Servers (snd p))) (pick as_RecursiveDNSServer opts)"
    "map jd_DomainNames (jo_DNSSL j) = map (sl_DomainNames \<circ> snd) (pick as_DNSSearchList opts)"
    by (simp_all add: packOptions_def no_options_def)
qed

end
