(* ===== verification/Service_Properties.thy ===== *)
theory Service_Properties
  imports Corerad_Properties Server_Facts Metric_Labels Crhttp Prepared
begin

text \<open>
  Properties of the parts that run around the advertisers: the tasks of the server, the link state
  watcher, the monitor, the metrics and the debug HTTP handler.
\<close>

section \<open>The tasks\<close>

text \<open>
  C26: building the tasks never panics and gives every interface that advertises or monitors exactly one
  task, in the order of the configuration, with a watch channel of its own that is subscribed to the
  link going down on that interface; then come the HTTP server, if it has an address, and the watcher.
\<close>

theorem tasks_built:
  assumes "sv_w s = Some w" and "watcher_wf w"
  shows "\<exists>w'. BuildTasks cfg s =
      Ok (interface_tasks (w_next w) (filter active (cfg_Interfaces cfg)) @
          (if dbg_Address (cfg_Debug cfg) \<noteq> '''' then [HTTPTask (dbg_Address (cfg_Debug cfg))] else []) @
          [WatcherTask], s\<lparr>sv_w := Some w'\<rparr>) \<and> watcher_wf w' \<and>
    (\<forall>j < length (filter active (cfg_Interfaces cfg)).
       subscription w' (ci_Name (filter active (cfg_Interfaces cfg) ! j)) LinkDown (w_next w + j))"
  by (rule BuildTasks_spec[OF assms])

theorem tasks_built_witness:
  "\<exists>w'. BuildTasks (fst demo_config) NewServer =
      Ok (interface_tasks (w_next NewWatcher) (filter active (cfg_Interfaces (fst demo_config))) @
          (if dbg_Address (cfg_Debug (fst demo_config)) \<noteq> '''' then [HTTPTask (dbg_Address (cfg_Debug (fst demo_config)))]
           else []) @ [WatcherTask], NewServer\<lparr>sv_w := Some w'\<rparr>) \<and> watcher_wf w' \<and>
    (\<forall>j < length (filter active (cfg_Interfaces (fst demo_config))).
       subscription w' (ci_Name (filter active (cfg_Interfaces (fst demo_config)) ! j)) LinkDown (w_next NewWatcher + j))"
  by (rule tasks_built) (simp_all add: NewServer_def NewWatcher_wf)

text \<open>
  The HTTP task makes at most forty attempts three seconds apart and closes its readiness channel at
  most once: a server that listened once ends only with the context.
\<close>

theorem http_task_bounded:
  assumes "\<forall>k. \<not> is_Panic (listen k) \<and> (\<exists>e. served k = Err e)"
    and "\<forall>k j. listen k = Ok () \<longrightarrow> k < j \<longrightarrow> se_Canceled (env j)"
    and "http_Run env listen served = (r, s)"
  shows "\<not> is_Panic r \<and> ss_Calls s \<le> 40 \<and> ss_Waited s \<le> 117 * Second"
proof -
  have run: "serve env (3 * Second) (http_fn listen served) False = (r, s)"
    using assms(3) by (simp add: http_Run_def)
  have "\<not> is_Panic r"
    using http_loop_no_panic[OF assms(1,2), of "\<lparr>ss_State = False, ss_Calls = 0, ss_Waited = 0\<rparr>" 0 "3 * Second" serve_attempts]
      run by (simp add: serve_def)
  then show ?thesis using serve_bounds[OF run] by simp
qed

theorem http_task_bounded_witness:
  "\<not> is_Panic (Ok () :: unit outcome) \<and>
    ss_Calls \<lparr>ss_State = True, ss_Calls = 2, ss_Waited = 3 * Second\<rparr> \<le> 40 \<and>
    ss_Waited \<lparr>ss_State = True, ss_Calls = 2, ss_Waited = 3 * Second\<rparr> \<le> 117 * Second"
proof (rule http_task_bounded)
  let ?env = "\<lambda>k. \<lparr>se_Canceled = (2 \<le> (k :: nat)), se_CanceledDelay = False\<rparr>"
  let ?listen = "\<lambda>k. if k = 0 then Err (OpError ''listen'' ''tcp'' (Errno EACCES)) else Ok ()"
  let ?served = "\<lambda>_ :: nat. Err (Sentinel ErrServerClosed) :: unit outcome"
  show "\<forall>k. \<not> is_Panic (?listen k) \<and> (\<exists>e. ?served k = Err e)" by simp
  show "\<forall>k j. ?listen k = Ok () \<longrightarrow> k < j \<longrightarrow> se_Canceled (?env j)" by auto
  show "http_Run ?env ?listen ?served = (Ok (), \<lparr>ss_State = True, ss_Calls = 2, ss_Waited = 3 * Second\<rparr>)"
    by (simp add: http_Run_def serve_def serve_attempts_def eval_nat_numeral serve_call_def serve_wait_def http_fn_def)
qed


section \<open>Link state changes\<close>

text \<open>
  C21: a notification never panics and reaches every subscriber: its channel receives the changes of its
  interface that its mask selects, in order, as far as there is room, whatever the order in which the
  maps are visited.
\<close>

theorem changes_delivered:
  assumes "watcher_wf w"
  shows "\<exists>w'. notify w (process msgs) = Ok w' \<and> watcher_wf w' \<and>
    (\<forall>iface sel ch. subscription w iface sel ch \<longrightarrow>
      ch_Buffer (w_chans w' ch) =
        delivered (ch_Buffer (w_chans w ch)) (filter (\<lambda>c. sel AND c \<noteq> 0) (message_changes iface msgs)))"
  using notify_delivers[OF assms, of "process msgs"] by (auto simp: process_changes(1))

definition demo_watcher :: watcher where
  "demo_watcher = snd (Subscribe ''eth0'' LinkDown NewWatcher)"

lemma demo_watcher_wf: "watcher_wf demo_watcher"
  unfolding demo_watcher_def by (rule Subscribe_wf[OF prod.collapse[symmetric] NewWatcher_wf])

lemma demo_watcher_subscription: "subscription demo_watcher ''eth0'' LinkDown 0"
  unfolding demo_watcher_def
  by (subst Subscribe_subscription[OF prod.collapse[symmetric]]) (simp add: Subscribe_def NewWatcher_def)

definition demo_messages :: "link_message list" where
  "demo_messages = [LinkMessage (Some (''eth0'', OperStateUp)), LinkMessage None,
     LinkMessage (Some (''eth1'', OperStateDown)), LinkMessage (Some (''eth0'', OperStateDown))]"

theorem changes_delivered_witness:
  "\<exists>w'. notify demo_watcher (process demo_messages) = Ok w' \<and>
    ch_Buffer (w_chans w' 0) = delivered (ch_Buffer (w_chans demo_watcher 0))
      (filter (\<lambda>c. LinkDown AND c \<noteq> 0) (message_changes ''eth0'' demo_messages))"
  using changes_delivered[OF demo_watcher_wf, of demo_messages] demo_watcher_subscription by blast

text \<open>
  C22: a link that goes down wakes the task of its interface, and only that: with an empty channel and the
  context alive, the task's watcher can return exactly when a message reports the interface down, with
  an error from which the dialer recovers by initializing again.
\<close>

theorem link_down_restarts:
  assumes "watcher_wf w" and "subscription w iface LinkDown ch" and "ch_Buffer (w_chans w ch) = []"
    and "notify w (process msgs) = Ok w'"
  shows "((\<exists>r w''. linkStateWatcher False (Some ch) w' r w'') \<longleftrightarrow> list_ex (reports_down iface) msgs) \<and>
    (\<forall>r w''. linkStateWatcher False (Some ch) w' r w'' \<longrightarrow>
      r = Err (Sentinel ErrLinkChange) \<and>
      recovery_of (FmtW ''failed to run advertiser: %w'' (Sentinel ErrLinkChange)) = Retry)"
proof -
  define n where "n = length (filter (reports_down iface) msgs)"
  have buf: "ch_Buffer (w_chans w' ch) = delivered [] (replicate n LinkDown)"
    using link_down_delivered[OF assms(1,2,4)] assms(3) by (simp add: n_def)
  have n: "n = 0 \<longleftrightarrow> \<not> list_ex (reports_down iface) msgs"
    by (simp add: n_def filter_empty_conv list_ex_iff)
  obtain w1 where "notify w (process msgs) = Ok w1" "watcher_wf w1" "w_m w1 = w_m w"
    using notify_delivers[OF assms(1)] by blast
  then have w': "watcher_wf w'" "w_m w' = w_m w" using assms(4) by simp_all
  have "ch \<in> set (subscribed w')"
    using assms(2) unfolding subscribed_flat w'(2) subscription_def by (force dest: map_of_SomeD)
  then have op: "\<not> ch_Closed (w_chans w' ch)" using w'(1) by (simp add: watcher_wf_def)
  have "(\<exists>r w''. linkStateWatcher False (Some ch) w' r w'') \<longleftrightarrow> list_ex (reports_down iface) msgs"
  proof (cases n)
    case 0
    then show ?thesis using buf op n by (auto elim: linkStateWatcherE)
  next
    case (Suc k)
    then have "ch_Buffer (w_chans w' ch) = LinkDown # take 7 (replicate k LinkDown)"
      using buf by (simp add: delivered_def chan_cap_def take_Cons')
    then show ?thesis using Suc n by (auto intro: changed)
  qed
  then show ?thesis
    using op by (auto elim: linkStateWatcherE simp: recovery_of_def)
qed

lemma demo_notified: "is_Ok (notify demo_watcher (process demo_messages))"
  using changes_delivered[OF demo_watcher_wf, of demo_messages] by (auto simp: is_Ok_iff)

theorem link_down_restarts_witness:
  "\<exists>w' r w''. notify demo_watcher (process demo_messages) = Ok w' \<and> linkStateWatcher False (Some 0) w' r w''"
proof -
  obtain w' where w': "notify demo_watcher (process demo_messages) = Ok w'" using demo_notified by (auto simp: is_Ok_iff)
  have "list_ex (reports_down ''eth0'') demo_messages" by (simp add: demo_messages_def reports_down_def)
  moreover have "ch_Buffer (w_chans demo_watcher 0) = []"
    by (simp add: demo_watcher_def Subscribe_def NewWatcher_def empty_chan_def)
  ultimately show ?thesis
    using link_down_restarts[OF demo_watcher_wf demo_watcher_subscription _ w'] w' by blast
qed


section \<open>The monitor\<close>

text \<open>
  C32: the monitor reports of an advertisement exactly when its default route expires, counted from now
  and only for a default router, and for every prefix option its flags and when its lifetimes end.
\<close>

theorem monitor_reports:
  "(\<forall>x. metric_name x = ''MonDefaultRouteExpirationTime'' \<longrightarrow>
      (x \<in> set (ms_Metrics (monitor_handle env m (RouterAdvertisement ra) peer s)) \<longleftrightarrow>
        x \<in> set (ms_Metrics s) \<or> (ra_RouterLifetime ra \<noteq> 0 \<and>
          metric_value x = unix_float (me_Now env + ra_RouterLifetime ra) \<and> metric_labels x = [mon_iface m, peer]))) \<and>
    (\<forall>p k. (k, p) \<in> set (pick as_PrefixInformation (ra_Options ra)) \<longrightarrow>
      Metric ''MonPrefixValidLifetimeExpirationTime'' (unix_float (me_Now env + pi_ValidLifetime p))
        [mon_iface m, prefixStr p, peer] \<in> set (ms_Metrics (monitor_handle env m (RouterAdvertisement ra) peer s)) \<and>
      Metric ''MonPrefixPreferredLifetimeExpirationTime'' (unix_float (me_Now env + pi_PreferredLifetime p))
        [mon_iface m, prefixStr p, peer] \<in> set (ms_Metrics (monitor_handle env m (RouterAdvertisement ra) peer s)))"
proof (intro conjI allI impI)
  fix p k
  assume "(k, p) \<in> set (pick as_PrefixInformation (ra_Options ra))"
  then have "set (monitor_prefix (mon_iface m) peer (me_Now env) p) \<subseteq>
      set (ms_Metrics (monitor_handle env m (RouterAdvertisement ra) peer s))"
    by (intro monitor_handle_prefix) blast
  then show "Metric ''MonPrefixValidLifetimeExpirationTime'' (unix_float (me_Now env + pi_ValidLifetime p))
      [mon_iface m, prefixStr p, peer] \<in> set (ms_Metrics (monitor_handle env m (RouterAdvertisement ra) peer s))"
    "Metric ''MonPrefixPreferredLifetimeExpirationTime'' (unix_float (me_Now env + pi_PreferredLifetime p))
      [mon_iface m, prefixStr p, peer] \<in> set (ms_Metrics (monitor_handle env m (RouterAdvertisement ra) peer s))"
    by (simp_all add: monitor_prefix_def expires_def time_Add_def Let_def prefixStr_def)
qed (simp add: monitor_handle_ra expires_def time_Add_def)

theorem monitor_reports_witness:
  "Metric ''MonPrefixValidLifetimeExpirationTime'' (unix_float (5 + 24 * Hour)) [''eth1'', prefixStr
      \<lparr>pi_PrefixLength = 64, pi_OnLink = True, pi_Autonomous = True, pi_ValidLifetime = 24 * Hour,
       pi_PreferredLifetime = 4 * Hour, pi_Prefix = pfx_Addr net0\<rparr>, ''fe80::1''] \<in>
    set (ms_Metrics (monitor_handle \<lparr>me_Now = 5, me_TypeString = (\<lambda>_. ''ra'')\<rparr> (NewMonitor ''eth1'' False)
      (RouterAdvertisement (demo_ra 0 1)) ''fe80::1'' \<lparr>ms_Metrics = [], ms_Seen = [], ms_Ready = True\<rparr>))"
proof -
  have "\<exists>k. (k, \<lparr>pi_PrefixLength = 64, pi_OnLink = True, pi_Autonomous = True, pi_ValidLifetime = 24 * Hour,
       pi_PreferredLifetime = 4 * Hour, pi_Prefix = pfx_Addr net0\<rparr>) \<in>
      set (pick as_PrefixInformation (ra_Options (demo_ra 0 1)))"
    by (intro exI[of _ "Suc (Suc 0)"]) (simp add: demo_ra_def demo_prefix_def prefix_option_def auto64_def net0_def)
  then show ?thesis
    using monitor_reports[of "\<lparr>me_Now = 5, me_TypeString = (\<lambda>_. ''ra'')\<rparr>" "NewMonitor ''eth1'' False" "demo_ra 0 1"
        "''fe80::1''" "\<lparr>ms_Metrics = [], ms_Seen = [], ms_Ready = True\<rparr>"]
    by (auto simp: NewMonitor_def)
qed

section \<open>Metrics\<close>

definition demo_test_state :: test_state where
  "demo_test_state = \<lparr>ts_Autoconf = False, ts_Forwarding = False, ts_Error = None, ts_Interfaces = Map.empty\<rparr>"

text \<open>
  C28: every metric that is reported is registered, with as many labels as the call gives values: by the
  message handler and the workers of an advertiser, by a monitor, by the listener, and by a scrape.
\<close>

theorem metrics_registered:
  assumes "all_labelled (av_Metrics s)" and "all_labelled (ms_Metrics t)" and "all_labelled (rv_Metrics u)"
  shows "all_labelled (av_Metrics (snd (handle env a m ip s))) \<and>
    all_labelled (av_Metrics (snd (sendWorker env cfg ip s))) \<and>
    all_labelled (ms_Metrics (monitor_handle menv mon m name t)) \<and>
    all_labelled (rv_Metrics (snd (receiveRetry ndp tn iface renv u))) \<and>
    all_labelled (snd (constScrape os st w metrics ifis h))"
  unfolding receiveRetry_def
  by (intro conjI handle_labelled[OF assms(1)] sendWorker_labelled[OF assms(1)]
      monitor_handle_labelled[OF assms(2)] receive_loop_labelled[OF assms(3)] constScrape_labelled)

theorem metrics_registered_witness:
  "all_labelled (av_Metrics (snd (handle demo_env (NewAdvertiser demo_interface) (RouterSolicitation []) demo_client
      demo_state))) \<and>
    all_labelled (snd (constScrape (host host_addrs 5) TestState demo_test_state (\<lambda>_. const_gauges) [demo_interface] 7))"
proof -
  have "all_labelled (av_Metrics demo_state)" by (simp add: demo_state_def)
  moreover have "all_labelled (ms_Metrics \<lparr>ms_Metrics = [], ms_Seen = [], ms_Ready = True\<rparr>)"
    "all_labelled (rv_Metrics \<lparr>rv_Reads = 0, rv_Metrics = [], rv_Waited = 0\<rparr>)" by simp_all
  ultimately show ?thesis by (blast dest: metrics_registered)
qed

text \<open>The options an interface advertises now; none when it does not advertise.\<close>

definition current_options :: "os \<Rightarrow> interface_config \<Rightarrow> ndp_option list outcome" where
  "current_options os ifi =
     (if ci_Advertise ifi then bindO (mapO (plugin_options os) (ci_Plugins ifi)) (\<lambda>optss. Ok (concat optss))
      else Ok [])"

definition current_prefixes :: "os \<Rightarrow> interface_config \<Rightarrow> prefix_information list" where
  "current_prefixes os ifi =
     (case current_options os ifi of Ok opts \<Rightarrow> List.map_filter as_PrefixInformation opts | _ \<Rightarrow> [])"

text \<open>What a scrape of one interface reports under three of the names.\<close>

definition advertising_metrics :: "interface_config \<Rightarrow> metric list" where
  "advertising_metrics ifi = [Metric ifiAdvertising (if ci_Advertise ifi then f_one else f_zero) [ci_Name ifi]]"

definition misconfiguration_metrics :: "'w state_ops \<Rightarrow> 'w \<Rightarrow> interface_config \<Rightarrow> metric list" where
  "misconfiguration_metrics st w ifi =
     (if ci_Advertise ifi \<and> st_IPv6Forwarding st w (ci_Name ifi) = Ok False \<and> 0 < ci_DefaultLifetime ifi
      then [Metric advMisconfiguration f_one [ci_Name ifi, ''interface_not_forwarding'']] else [])"

definition valid_metrics :: "os \<Rightarrow> interface_config \<Rightarrow> metric list" where
  "valid_metrics os ifi =
     map (\<lambda>p. Metric advPrefixValid (dur_Seconds (pi_ValidLifetime p)) [ci_Name ifi, prefixStr p])
       (current_prefixes os ifi)"

lemma pick_snd: "map snd (pick as ps) = List.map_filter as (map snd ps)"
  by (induction ps) (auto simp: map_filter_simps split: option.splits)

text \<open>One interface: when its context exists, and what is collected from it.\<close>

lemma scrape_context_is_Ok:
  "is_Ok (scrape_context os st w ifi h) \<longleftrightarrow>
     is_Ok (st_IPv6Autoconf st w (ci_Name ifi)) \<and> is_Ok (st_IPv6Forwarding st w (ci_Name ifi)) \<and>
     is_Ok (current_options os ifi)"
proof (cases "is_Ok (st_IPv6Autoconf st w (ci_Name ifi)) \<and> is_Ok (st_IPv6Forwarding st w (ci_Name ifi))")
  case True
  then obtain auto fwd where "st_IPv6Autoconf st w (ci_Name ifi) = Ok auto" "st_IPv6Forwarding st w (ci_Name ifi) = Ok fwd"
    by (auto simp: is_Ok_iff)
  then show ?thesis
    using RouterAdvertisement_is_Ok[of os ifi fwd h]
    by (cases "RouterAdvertisement_of os ifi fwd h"; cases "mapO (plugin_options os) (ci_Plugins ifi)")
      (auto simp: scrape_context_def current_options_def split: prod.splits)
qed (cases "st_IPv6Autoconf st w (ci_Name ifi)"; cases "st_IPv6Forwarding st w (ci_Name ifi)";
    simp add: scrape_context_def)

lemma scrape_one:
  assumes "scrape_context os st w ifi h = Ok (x, h')" and "collectMetrics metrics x = Ok ms"
    and "distinct metrics" and "set metrics = set const_gauges"
  shows "filter (\<lambda>y. metric_name y = ifiAdvertising) ms = advertising_metrics ifi"
    and "filter (\<lambda>y. metric_name y = advMisconfiguration) ms = misconfiguration_metrics st w ifi"
    and "filter (\<lambda>y. metric_name y = advPrefixValid) ms = valid_metrics os ifi"
proof -
  obtain auto fwd where f: "st_IPv6Forwarding st w (ci_Name ifi) = Ok fwd"
    and x: "mc_Interface x = ci_Name ifi" "mc_Advertising x = ci_Advertise ifi" "mc_Forwarding x = fwd"
    and adv: "if ci_Advertise ifi
      then \<exists>ra. RouterAdvertisement_of os ifi fwd h = Ok (ra, mc_Misconfigurations x, h') \<and> mc_Advertisement x = Some ra
      else mc_Advertisement x = None \<and> mc_Misconfigurations x = []"
    using assms(1) by (auto simp: scrape_context_def bindO_Ok_iff split: if_splits)
  have names: "ifiAdvertising \<in> set metrics" "advMisconfiguration \<in> set metrics" "advPrefixValid \<in> set metrics"
    using assms(4) by (simp_all add: const_gauges_def const_labels_def)
  note under = collectMetrics_under[OF assms(2,3)]
  have "collect_metric x ifiAdvertising = Ok (advertising_metrics ifi)"
    by (simp add: collect_metric_def Let_def x advertising_metrics_def boolFloat_def)
  then show "filter (\<lambda>y. metric_name y = ifiAdvertising) ms = advertising_metrics ifi" using under names(1) by blast
  have "mc_Misconfigurations x = (if ci_Advertise ifi \<and> reports_misconfiguration ifi fwd then [InterfaceNotForwarding] else [])"
    using adv by (auto dest: RouterAdvertisement_facts(2) split: if_splits)
  then have "collect_metric x advMisconfiguration = Ok (misconfiguration_metrics st w ifi)"
    by (simp add: collect_metric_def Let_def x f metric_names misconfiguration_metrics_def reports_misconfiguration_def)
  then show "filter (\<lambda>y. metric_name y = advMisconfiguration) ms = misconfiguration_metrics st w ifi"
    using under names(2) by blast
  have "List.map_filter as_PrefixInformation (map snd (mc_options x)) = current_prefixes os ifi"
  proof (cases "ci_Advertise ifi")
    case True
    then obtain ra where "RouterAdvertisement_of os ifi fwd h = Ok (ra, mc_Misconfigurations x, h')" "mc_Advertisement x = Some ra"
      using adv by auto
    then show ?thesis
      using RouterAdvertisement_facts(3) True
      by (fastforce simp: mc_options_def current_prefixes_def current_options_def)
  next
    case False
    then show ?thesis using adv by (simp add: mc_options_def current_prefixes_def current_options_def map_filter_simps)
  qed
  then have "collect_metric x advPrefixValid = Ok (valid_metrics os ifi)"
    by (simp add: collect_metric_def Let_def x metric_names valid_metrics_def pick_snd)
  then show "filter (\<lambda>y. metric_name y = advPrefixValid) ms = valid_metrics os ifi" using under names(3) by blast
qed

text \<open>
  C27: a scrape succeeds exactly when the system state of every interface can be read and every advertising
  interface can generate its options now; then it reports, in whatever orders the registered names are
  visited, once for every interface whether it advertises, one misconfiguration for every advertising
  interface that means to be a default router but does not forward, and one valid lifetime for every
  prefix option advertised now.
\<close>

theorem scrape_reports:
  assumes "\<forall>k. distinct (metrics k) \<and> set (metrics k) = set const_gauges"
    and "constScrape os st w metrics ifis h = (r, ms)"
  shows "(r = Ok () \<longleftrightarrow> (\<forall>ifi \<in> set ifis. is_Ok (st_IPv6Autoconf st w (ci_Name ifi)) \<and>
      is_Ok (st_IPv6Forwarding st w (ci_Name ifi)) \<and> is_Ok (current_options os ifi))) \<and>
    (r = Ok () \<longrightarrow>
      filter (\<lambda>y. metric_name y = ifiAdvertising) ms = concat (map advertising_metrics ifis) \<and>
      filter (\<lambda>y. metric_name y = advMisconfiguration) ms = concat (map (misconfiguration_metrics st w) ifis) \<and>
      filter (\<lambda>y. metric_name y = advPrefixValid) ms = concat (map (valid_metrics os) ifis))"
  using assms(2)
proof (induction ifis arbitrary: h r ms)
  case (Cons ifi ifis)
  show ?case
  proof (cases "scrape_context os st w ifi h")
    case (Ok xh)
    then obtain x h' where x: "scrape_context os st w ifi h = Ok (x, h')" by (cases xh) auto
    obtain ms1 where ms1: "collectMetrics (metrics (length ifis)) x = Ok ms1"
      using collectMetrics_Ok assms(1) by blast
    obtain q ms2 where q: "constScrape os st w metrics ifis h' = (q, ms2)" by fastforce
    have rm: "r = q" "ms = ms1 @ ms2" using Cons.prems x ms1 q by simp_all
    have "is_Ok (scrape_context os st w ifi h)" by (simp add: x)
    then show ?thesis
      using Cons.IH[OF q] scrape_one[OF x ms1] assms(1) unfolding scrape_context_is_Ok rm by auto
  next
    case (Err e)
    then have "\<not> is_Ok (scrape_context os st w ifi h)" by simp
    then show ?thesis using Cons.prems Err unfolding scrape_context_is_Ok by auto
  next
    case (Panic p)
    then have "\<not> is_Ok (scrape_context os st w ifi h)" by simp
    then show ?thesis using Cons.prems Panic unfolding scrape_context_is_Ok by auto
  qed
qed simp

lemma demo_scrape:
  "scrape_context (host host_addrs 5) TestState demo_test_state demo_interface 7 =
     Ok (\<lparr>mc_Interface = ''eth0'', mc_Advertising = True, mc_Autoconfiguration = False, mc_Forwarding = False,
       mc_Monitoring = False, mc_Advertisement = Some (demo_ra 0 7),
       mc_Misconfigurations = [InterfaceNotForwarding]\<rparr>, 10)"
proof -
  have "ci_Name demo_interface = ''eth0''" "ci_Advertise demo_interface" "\<not> ci_Monitor demo_interface"
    by (simp_all add: demo_interface_def)
  then show ?thesis
    by (simp add: scrape_context_def demo_generated TestState_def test_IPv6Autoconf_def test_IPv6Forwarding_def
        demo_test_state_def with_error_def)
qed

lemma const_gauges_distinct: "distinct const_gauges"
  by code_simp

theorem scrape_reports_witness:
  "\<exists>ms. constScrape (host host_addrs 5) TestState demo_test_state (\<lambda>_. const_gauges) [demo_interface] 7 = (Ok (), ms) \<and>
    filter (\<lambda>y. metric_name y = advMisconfiguration) ms =
      [Metric advMisconfiguration f_one [''eth0'', ''interface_not_forwarding'']]"
proof -
  obtain r ms where run: "constScrape (host host_addrs 5) TestState demo_test_state (\<lambda>_. const_gauges) [demo_interface] 7 = (r, ms)"
    by fastforce
  have gauges: "\<forall>k :: nat. distinct const_gauges \<and> set const_gauges = set const_gauges"
    using const_gauges_distinct by blast
  have ok: "is_Ok (scrape_context (host host_addrs 5) TestState demo_test_state demo_interface 7)"
    by (simp add: demo_scrape)
  have mis: "misconfiguration_metrics TestState demo_test_state demo_interface =
      [Metric advMisconfiguration f_one [''eth0'', ''interface_not_forwarding'']]"
    by (simp add: misconfiguration_metrics_def demo_interface_def TestState_def test_IPv6Forwarding_def
        demo_test_state_def with_error_def)
  have "r = Ok ()" "filter (\<lambda>y. metric_name y = advMisconfiguration) ms =
      concat (map (misconfiguration_metrics TestState demo_test_state) [demo_interface])"
    using scrape_reports[OF gauges run] ok unfolding scrape_context_is_Ok by simp_all
  then show ?thesis using run mis by simp
qed


section \<open>The HTTP handler\<close>

text \<open>What the body shows of an advertisement: its lifetime, and the lists of its options in order.\<close>

definition shows_ra :: "router_advertisement \<Rightarrow> json_ra \<Rightarrow> bool" where
  "shows_ra ra j \<longleftrightarrow>
     ja_RouterLifetimeSeconds j = seconds_int (ra_RouterLifetime ra) \<and>
     map jp_Prefix (jo_Prefixes (ja_Options j)) = map (prefixStr \<circ> snd) (pick as_PrefixInformation (ra_Options ra)) \<and>
     map jr_Prefix (jo_Routes (ja_Options j)) = map (routeStr \<circ> snd) (pick as_RouteInformation (ra_Options ra)) \<and>
     map js_Servers (jo_RDNSS (ja_Options j)) =
       map (\<lambda>p. map addr_String (rd_Servers (snd p))) (pick as_RecursiveDNSServer (ra_Options ra)) \<and>
     map jd_DomainNames (jo_DNSSL (ja_Options j)) = map (sl_DomainNames \<circ> snd) (pick as_DNSSearchList (ra_Options ra))"

definition shows_interface :: "os \<Rightarrow> 'w state_ops \<Rightarrow> 'w \<Rightarrow> interface_config \<Rightarrow> json_interface \<Rightarrow> bool" where
  "shows_interface os st w iface b \<longleftrightarrow>
     ji_Interface b = ci_Name iface \<and> ji_Advertising b = ci_Advertise iface \<and>
     (case ji_Advertisement b of
        None \<Rightarrow> \<not> ci_Advertise iface
      | Some j \<Rightarrow> ci_Advertise iface \<and>
          (\<exists>fwd k ra ms k'. st_IPv6Forwarding st w (ci_Name iface) = Ok fwd \<and>
             RouterAdvertisement_of os iface fwd k = Ok (ra, ms, k') \<and> shows_ra ra j))"

lemma packRA_shows: "packRA ra = Ok j \<Longrightarrow> shows_ra ra j"
  by (auto simp: packRA_def shows_ra_def bindO_Ok_iff dest: packOptions_lists)

lemma interface_body_shows: "interface_body os st w iface h = Ok (b, h') \<Longrightarrow> shows_interface os st w iface b"
  by (auto simp: interface_body_def shows_interface_def bindO_Ok_iff split: if_splits dest!: packRA_shows) blast

lemma interfaces_bodies:
  assumes "foldO (\<lambda>(body, h) iface. bindO (interface_body os st w iface h) (\<lambda>(b, h'). Ok (body @ [b], h')))
    (body, h) ifaces = Ok (body', h')"
  shows "\<exists>bs. body' = body @ bs \<and> list_all2 (shows_interface os st w) ifaces bs"
  using assms
proof (induction ifaces arbitrary: body h)
  case (Cons iface ifaces)
  then obtain b h1 where b: "interface_body os st w iface h = Ok (b, h1)"
    and r: "foldO (\<lambda>(body, h) iface. bindO (interface_body os st w iface h) (\<lambda>(b, h'). Ok (body @ [b], h')))
      (body @ [b], h1) ifaces = Ok (body', h')"
    by (auto simp: bindO_Ok_iff)
  show ?case using Cons.IH[OF r] interface_body_shows[OF b] by force
qed simp

text \<open>
  C33: the interfaces resource lists every configured interface, in order, with an advertisement exactly
  for those that advertise: the one generated now, of which it names the prefixes, routes, servers and
  domains in order.
\<close>

theorem http_lists_interfaces:
  assumes "interfaces os st w ifaces h = Ok (InterfacesBody body, h')"
  shows "list_all2 (shows_interface os st w) ifaces body"
  using interfaces_bodies[of os st w "[]" h ifaces] assms
  by (fastforce simp: interfaces_def split: outcome.splits prod.splits)

lemma demo_pack: "is_Ok (packOptions (ra_Options (demo_ra 0 7)))"
  using packOptions_decides[of "ra_Options (demo_ra 0 7)"]
  by (simp add: demo_ra_def demo_prefix_def prefix_option_def split: if_splits)

lemma demo_body:
  "\<exists>b. interfaces (host host_addrs 5) TestState demo_test_state [demo_interface] 7 = Ok (InterfacesBody [b], 10)"
proof -
  have i: "ci_Name demo_interface = ''eth0''" "ci_Advertise demo_interface" "ci_Preference demo_interface = PrefMedium"
    by (simp_all add: demo_interface_def)
  have "ra_RouterSelectionPreference (demo_ra 0 7) = PrefMedium"
    by (simp add: demo_ra_def base_ra_def i)
  then obtain j where "packRA (demo_ra 0 7) = Ok j" using demo_pack by (auto simp: packRA_def is_Ok_iff)
  then show ?thesis
    by (simp add: interfaces_def interface_body_def i demo_generated TestState_def test_IPv6Forwarding_def
        demo_test_state_def with_error_def)
qed

theorem http_lists_interfaces_witness:
  "\<exists>body. interfaces (host host_addrs 5) TestState demo_test_state [demo_interface] 7 = Ok (InterfacesBody body, 10) \<and>
    list_all2 (shows_interface (host host_addrs 5) TestState demo_test_state) [demo_interface] body"
proof -
  obtain b where b: "interfaces (host host_addrs 5) TestState demo_test_state [demo_interface] 7 = Ok (InterfacesBody [b], 10)"
    using demo_body by blast
  show ?thesis by (rule exI[of _ "[b]"]) (intro conjI b http_lists_interfaces[OF b])
qed

end
