(* ===== verification/Serve_System.thy ===== *)
theory Serve_System
  imports Server_Facts
begin

text \<open>
  \<open>Server.Serve\<close> as a system: the tasks run side by side, a second goroutine for each waits until it is
  ready and tells the service manager, and one more waits for all of these.  A step is a step of one of
  them.  The tasks are those of \<open>BuildTasks\<close> with the signal task; what a task returns is arbitrary, as
  is the time at which it becomes ready.
\<close>

datatype notification = Started string | AllRunning | Stopping os_signal

record serve_system =
  vy_Ready :: "bool list"      \<comment> \<open>per task: \<open>Ready()\<close> is closed\<close>
  vy_Announced :: "bool list"  \<comment> \<open>per task: its second goroutine has returned\<close>
  vy_Serving :: bool           \<comment> \<open>the last goroutine has returned\<close>
  vy_Running :: "bool list"    \<comment> \<open>per task: \<open>Run\<close> has not returned\<close>
  vy_Results :: "go_error option list"
  vy_Canceled :: bool
  vy_Server :: server
  vy_Notified :: "notification list"

text \<open>The channels of these tasks are closed from the start.\<close>

fun ready_at_once :: "task \<Rightarrow> bool" where
  "ready_at_once WatcherTask = True"
| "ready_at_once SignalTask = True"
| "ready_at_once _ = False"

definition serve_start :: "task list \<Rightarrow> server \<Rightarrow> serve_system" where
  "serve_start ts sv =
     \<lparr>vy_Ready = map ready_at_once ts, vy_Announced = map (\<lambda>_. False) ts, vy_Serving = False,
      vy_Running = map (\<lambda>_. True) ts, vy_Results = [], vy_Canceled = False, vy_Server = sv, vy_Notified = []\<rparr>"

definition task_returns :: "nat \<Rightarrow> go_error option \<Rightarrow> serve_system \<Rightarrow> serve_system" where
  "task_returns i q s =
     s\<lparr>vy_Running := (vy_Running s)[i := False], vy_Results := vy_Results s @ [q],
       vy_Canceled := vy_Canceled s \<or> q \<noteq> None\<rparr>"

inductive serve_step :: "task list \<Rightarrow> serve_system \<Rightarrow> serve_system outcome \<Rightarrow> bool" for ts where
  becomes_ready: "i < length ts \<Longrightarrow> vy_Running s ! i \<Longrightarrow>
    serve_step ts s (Ok (s\<lparr>vy_Ready := (vy_Ready s)[i := True]\<rparr>))"
| announce: "i < length ts \<Longrightarrow> vy_Ready s ! i \<Longrightarrow> \<not> vy_Announced s ! i \<Longrightarrow>
    serve_step ts s (Ok (s\<lparr>vy_Announced := (vy_Announced s)[i := True],
      vy_Notified := vy_Notified s @ [Started (task_String (ts ! i))]\<rparr>))"
| all_running: "\<forall>i < length ts. vy_Announced s ! i \<Longrightarrow> \<not> vy_Serving s \<Longrightarrow>
    serve_step ts s (Ok (s\<lparr>vy_Serving := True, vy_Notified := vy_Notified s @ [AllRunning]\<rparr>))"
| task_return: "i < length ts \<Longrightarrow> vy_Running s ! i \<Longrightarrow> ts ! i \<noteq> SignalTask \<Longrightarrow>
    serve_step ts s (bindO (task_result (ts ! i, r)) (\<lambda>q. Ok (task_returns i q s)))"
| signal_receive: "i < length ts \<Longrightarrow> vy_Running s ! i \<Longrightarrow> ts ! i = SignalTask \<Longrightarrow>
    signalTask_Run (Some g) (vy_Server s) = (c, sv) \<Longrightarrow>
    serve_step ts s (Ok (task_returns i None (s\<lparr>vy_Server := sv, vy_Canceled := vy_Canceled s \<or> c,
      vy_Notified := vy_Notified s @ [Stopping g]\<rparr>)))"
| signal_done: "i < length ts \<Longrightarrow> vy_Running s ! i \<Longrightarrow> ts ! i = SignalTask \<Longrightarrow> vy_Canceled s \<Longrightarrow>
    signalTask_Run None (vy_Server s) = (c, sv) \<Longrightarrow>
    serve_step ts s (Ok (task_returns i None (s\<lparr>vy_Server := sv, vy_Canceled := vy_Canceled s \<or> c\<rparr>)))"

inductive serve_reaches :: "task list \<Rightarrow> serve_system \<Rightarrow> serve_system \<Rightarrow> bool" for ts s0 where
  start: "serve_reaches ts s0 s0"
| step: "serve_reaches ts s0 s \<Longrightarrow> serve_step ts s (Ok s') \<Longrightarrow> serve_reaches ts s0 s'"

text \<open>\<open>Serve\<close> has returned.\<close>

definition serve_ended :: "serve_system \<Rightarrow> bool" where
  "serve_ended s \<longleftrightarrow> True \<notin> set (vy_Running s)"

definition serve_result :: "serve_system \<Rightarrow> unit outcome" where
  "serve_result s =
     (case group_Wait (vy_Results s) of
        Some e \<Rightarrow> Err (FmtV ''failed to serve: %v'' e)
      | None \<Rightarrow> Ok ())"


section \<open>Readiness\<close>

definition ready_inv :: "task list \<Rightarrow> serve_system \<Rightarrow> bool" where
  "ready_inv ts s \<longleftrightarrow>
     length (vy_Ready s) = length ts \<and> length (vy_Announced s) = length ts \<and> length (vy_Running s) = length ts \<and>
     (\<forall>i < length ts. vy_Announced s ! i \<longrightarrow> vy_Ready s ! i \<and> Started (task_String (ts ! i)) \<in> set (vy_Notified s)) \<and>
     (if vy_Serving s
      then (\<forall>i < length ts. vy_Announced s ! i) \<and>
        (\<exists>xs ys. vy_Notified s = xs @ AllRunning # ys \<and> AllRunning \<notin> set xs \<union> set ys \<and>
           (\<forall>t \<in> set ts. Started (task_String t) \<in> set xs))
      else AllRunning \<notin> set (vy_Notified s))"

lemma ready_inv_start: "ready_inv ts (serve_start ts sv)"
  by (simp add: ready_inv_def serve_start_def)

lemma ready_inv_lengths:
  "ready_inv ts s \<Longrightarrow> length (vy_Ready s) = length ts \<and> length (vy_Announced s) = length ts \<and>
     length (vy_Running s) = length ts"
  by (simp add: ready_inv_def)

lemma snoc_split:
  assumes "xs @ a # ys = zs" and "x \<noteq> a" and "a \<notin> set xs \<union> set ys" and "P xs"
  shows "\<exists>xs' ys'. zs @ [x] = xs' @ a # ys' \<and> a \<notin> set xs' \<union> set ys' \<and> P xs'"
  using assms by (intro exI[of _ xs] exI[of _ "ys @ [x]"]) auto

text \<open>A notification other than the last keeps the invariant, as long as the arrays agree with it.\<close>

lemma ready_inv_frame:
  assumes "ready_inv ts s" and "vy_Ready s' = vy_Ready s" and "vy_Announced s' = vy_Announced s"
    and "vy_Serving s' = vy_Serving s" and "length (vy_Running s') = length (vy_Running s)"
    and "vy_Notified s' = vy_Notified s \<or> (\<exists>x. x \<noteq> AllRunning \<and> vy_Notified s' = vy_Notified s @ [x])"
  shows "ready_inv ts s'"
proof (cases "vy_Serving s")
  case True
  with assms(1) obtain xs ys where xy: "vy_Notified s = xs @ AllRunning # ys" "AllRunning \<notin> set xs \<union> set ys"
      "\<forall>t \<in> set ts. Started (task_String t) \<in> set xs"
    by (auto simp: ready_inv_def)
  have "\<exists>xs ys. vy_Notified s' = xs @ AllRunning # ys \<and> AllRunning \<notin> set xs \<union> set ys \<and>
      (\<forall>t \<in> set ts. Started (task_String t) \<in> set xs)"
    using assms(6)
  proof
    assume "\<exists>x. x \<noteq> AllRunning \<and> vy_Notified s' = vy_Notified s @ [x]"
    then obtain x where x: "x \<noteq> AllRunning" "vy_Notified s' = vy_Notified s @ [x]" by blast
    show ?thesis unfolding x(2)
      by (rule snoc_split[where P = "\<lambda>xs. \<forall>t \<in> set ts. Started (task_String t) \<in> set xs",
            OF xy(1)[symmetric] x(1) xy(2,3)])
  qed (use xy in auto)
  then show ?thesis using assms(1-6) True by (auto simp: ready_inv_def)
next
  case False
  then show ?thesis using assms by (auto simp: ready_inv_def)
qed

lemma ready_inv_step:
  assumes inv: "ready_inv ts s" and "serve_step ts s (Ok s')"
  shows "ready_inv ts s'"
  using assms(2)
proof cases
  case (becomes_ready i)
  then show ?thesis using inv by (auto simp: ready_inv_def nth_list_update split: if_splits)
next
  case (announce i)
  have ns: "\<not> vy_Serving s" using inv announce(2,4) by (auto simp: ready_inv_def)
  then show ?thesis using inv announce by (auto simp: ready_inv_def nth_list_update)
next
  case all_running
  have "\<exists>xs ys. vy_Notified s @ [AllRunning] = xs @ AllRunning # ys \<and> AllRunning \<notin> set xs \<union> set ys \<and>
      (\<forall>t \<in> set ts. Started (task_String t) \<in> set xs)"
    using inv all_running(2,3)
    by (intro exI[of _ "vy_Notified s"] exI[of _ "[]"]) (auto simp: ready_inv_def in_set_conv_nth)
  then show ?thesis using inv all_running by (simp add: ready_inv_def)
next
  case (task_return i r)
  then show ?thesis
    by (intro ready_inv_frame[OF inv]) (auto simp: task_returns_def bindO_Ok_iff dest!: sym[of "Ok s'"])
next
  case (signal_receive i g c sv)
  then show ?thesis by (intro ready_inv_frame[OF inv]) (auto simp: task_returns_def)
next
  case (signal_done i c sv)
  then show ?thesis by (intro ready_inv_frame[OF inv]) (auto simp: task_returns_def)
qed

lemma ready_inv_reaches: "serve_reaches ts (serve_start ts sv) s \<Longrightarrow> ready_inv ts s"
  by (induction rule: serve_reaches.induct) (auto intro: ready_inv_start ready_inv_step)


section \<open>The end\<close>

text \<open>
  The context ends with the first error or with a signal; the signal decides about termination.
\<close>

definition end_inv :: "server \<Rightarrow> task list \<Rightarrow> serve_system \<Rightarrow> bool" where
  "end_inv sv ts s \<longleftrightarrow>
     length (vy_Running s) = length ts \<and>
     (vy_Canceled s \<longleftrightarrow> group_Wait (vy_Results s) \<noteq> None \<or> (\<exists>g. Stopping g \<in> set (vy_Notified s))) \<and>
     (\<forall>i < length ts. ts ! i = SignalTask \<longrightarrow> vy_Running s ! i \<or> vy_Canceled s) \<and>
     (if \<exists>g. Stopping g \<in> set (vy_Notified s)
      then \<exists>g. Stopping g \<in> set (vy_Notified s) \<and> sv_term (vy_Server s) = isTerminal g
      else vy_Server s = sv)"

lemma end_inv_start: "end_inv sv ts (serve_start ts sv)"
  by (simp add: end_inv_def serve_start_def)

lemma end_inv_frame:
  assumes "end_inv sv ts s" and "vy_Running s' = vy_Running s" and "vy_Canceled s' = vy_Canceled s"
    and "vy_Results s' = vy_Results s" and "vy_Server s' = vy_Server s"
    and "vy_Notified s' = vy_Notified s \<or> (\<exists>x. (\<forall>g. x \<noteq> Stopping g) \<and> vy_Notified s' = vy_Notified s @ [x])"
  shows "end_inv sv ts s'"
proof -
  have stop: "Stopping g \<in> set (vy_Notified s') \<longleftrightarrow> Stopping g \<in> set (vy_Notified s)" for g
    using assms(6) by auto
  show ?thesis using assms(1) unfolding end_inv_def assms(2-5) stop .
qed

text \<open>A task returns \<open>q\<close>; the signal task returns only when the context is done.\<close>

lemma end_inv_returns:
  assumes inv: "end_inv sv ts s" and s': "s' = task_returns i q s" and "ts ! i = SignalTask \<Longrightarrow> vy_Canceled s"
  shows "end_inv sv ts s'"
proof -
  let ?P = "\<exists>g. Stopping g \<in> set (vy_Notified s)"
  have c: "vy_Canceled s \<longleftrightarrow> group_Wait (vy_Results s) \<noteq> None \<or> ?P"
    and r: "\<forall>i < length ts. ts ! i = SignalTask \<longrightarrow> vy_Running s ! i \<or> vy_Canceled s"
    and l: "length (vy_Running s) = length ts"
    and t: "if ?P then \<exists>g. Stopping g \<in> set (vy_Notified s) \<and> sv_term (vy_Server s) = isTerminal g
      else vy_Server s = sv"
    using inv unfolding end_inv_def by blast+
  have "vy_Canceled s' \<longleftrightarrow> group_Wait (vy_Results s') \<noteq> None \<or> ?P"
    using c by (auto simp: s' task_returns_def group_Wait_snoc split: option.split)
  moreover have "\<forall>j < length ts. ts ! j = SignalTask \<longrightarrow> vy_Running s' ! j \<or> vy_Canceled s'"
  proof (intro allI impI)
    fix j
    assume "j < length ts" "ts ! j = SignalTask"
    then show "vy_Running s' ! j \<or> vy_Canceled s'"
      using r assms(3) by (cases "j = i") (auto simp: s' task_returns_def)
  qed
  ultimately show ?thesis using l t by (simp add: end_inv_def s' task_returns_def)
qed

lemma end_inv_step:
  assumes inv: "end_inv sv ts s" and "serve_step ts s (Ok s')"
  shows "end_inv sv ts s'"
  using assms(2)
proof cases
  case (task_return i r)
  then show ?thesis
    by (auto simp: bindO_Ok_iff dest!: sym[of "Ok s'"] intro: end_inv_returns[OF inv])
next
  case (signal_receive i g c sv')
  have "end_inv sv ts (s\<lparr>vy_Server := sv', vy_Canceled := vy_Canceled s \<or> c, vy_Notified := vy_Notified s @ [Stopping g]\<rparr>)"
    (is "end_inv sv ts ?s")
  proof -
    have "c" "sv_term sv' = isTerminal g"
      using signal_receive(5) by (auto simp: signalTask_Run_def terminator_set_def)
    then have "vy_Canceled ?s" "Stopping g \<in> set (vy_Notified ?s)" "sv_term (vy_Server ?s) = isTerminal g"
      by simp_all
    moreover have "length (vy_Running ?s) = length ts" using inv by (simp add: end_inv_def)
    ultimately show ?thesis unfolding end_inv_def by (auto split: if_splits)
  qed
  then show ?thesis
    by (rule end_inv_returns[where i = i and q = None]) (use signal_receive in \<open>auto simp: signalTask_Run_def\<close>)
next
  case (signal_done i c sv')
  have "end_inv sv ts (s\<lparr>vy_Server := sv', vy_Canceled := vy_Canceled s \<or> c\<rparr>)"
    using signal_done(6) by (intro end_inv_frame[OF inv]) (auto simp: signalTask_Run_def)
  then show ?thesis
    by (rule end_inv_returns[where i = i and q = None]) (use signal_done in auto)
qed (rule end_inv_frame[OF inv]; auto)+

lemma end_inv_reaches: "serve_reaches ts (serve_start ts sv) s \<Longrightarrow> end_inv sv ts s"
  by (induction rule: serve_reaches.induct) (auto intro: end_inv_start end_inv_step)

text \<open>A server with a signal task ends only because of a signal or of an error.\<close>

lemma ended_canceled:
  assumes "serve_reaches ts (serve_start ts sv) s" and "SignalTask \<in> set ts" and "serve_ended s"
  shows "vy_Canceled s"
proof -
  obtain i where i: "i < length ts" "ts ! i = SignalTask" using assms(2) by (auto simp: in_set_conv_nth)
  have e: "end_inv sv ts s" by (rule end_inv_reaches[OF assms(1)])
  then have "i < length (vy_Running s)" using i(1) unfolding end_inv_def by presburger
  from nth_mem[OF this] have "\<not> vy_Running s ! i" using assms(3) by (auto simp: serve_ended_def)
  then show ?thesis using e i unfolding end_inv_def by blast
qed

end
