(* ===== verification/Command.thy ===== *)
theory Command
  imports Config_Parse Metrics Serve_System
begin

text \<open>
  \<open>internal/build/build.go\<close>, \<open>internal/corerad/context.go\<close> and \<open>cmd/corerad/main.go\<close>: the program.  What
  it asks of its surroundings is the record \<open>command_env\<close>: the flags, the files, the notifier, the clock,
  and what \<open>Serve\<close> returns for the tasks it is given.  What it leaves behind is the record
  \<open>command_state\<close>; logging is left out.  A fatal log message ends the process with status 1.
\<close>

section \<open>Build information\<close>

text \<open>The variables the linker sets.\<close>

record build_links =
  linkTimestamp :: string
  linkVersion :: string

text \<open>\<open>strconv.ParseInt(s, 10, 64)\<close>; \<open>None\<close> is an error of syntax or range.\<close>

definition ParseInt10 :: "string \<Rightarrow> int option" where
  "ParseInt10 s =
     (case s of
        [] \<Rightarrow> None
      | c # cs \<Rightarrow>
          (let digits = (if c = CHR ''-'' \<or> c = CHR ''+'' then cs else s);
               n = foldl (\<lambda>x d. x * 10 + digit_val d) 0 digits;
               v = (if c = CHR ''-'' then - n else n)
           in if digits = [] \<or> \<not> list_all is_digit digits \<or> \<not> in_int64 v then None else Some v))"

text \<open>\<open>time.Unix(s, 0)\<close> counts seconds from year 1 in 64 bits.\<close>

definition Unix :: "int \<Rightarrow> instant" where
  "Unix s = wrap64 (s + unix_offset) * Second"

text \<open>The initialization of \<open>timeT\<close>, which runs before \<open>main\<close>.\<close>

definition timeT :: "build_links \<Rightarrow> instant outcome" where
  "timeT b =
     (if linkTimestamp b = '''' then Ok 0
      else case ParseInt10 (linkTimestamp b) of
        None \<Rightarrow> Panic ''failed to parse raw UNIX timestamp string: %v''
      | Some s \<Rightarrow> Ok (Unix s))"

definition Version :: "build_links \<Rightarrow> string" where
  "Version b = (if linkVersion b = '''' then ''development'' else linkVersion b)"

text \<open>\<open>date\<close> is the date of a time in the local time zone.\<close>

definition Banner :: "(instant \<Rightarrow> string) \<Rightarrow> build_links \<Rightarrow> instant \<Rightarrow> string" where
  "Banner date b t =
     (let tstr = (if time_IsZero t then ''n/a'' else date t)
      in ''CoreRAD '' @ Version b @ '' ('' @ tstr @ '')'')"


section \<open>Context\<close>

text \<open>
  The metrics that are set from the start, and the questions about the system state.  Missing inputs
  are replaced; the missing state answers every question with an error.
\<close>

record cr_context =
  cx_mm :: "metric list"
  cx_IPv6Autoconf :: "string \<Rightarrow> bool outcome"
  cx_IPv6Forwarding :: "string \<Rightarrow> bool outcome"

definition no_state :: test_state where
  "no_state = \<lparr>ts_Autoconf = False, ts_Forwarding = False,
     ts_Error = Some (Msg ''no context state type configured''), ts_Interfaces = (\<lambda>_. None)\<rparr>"

definition NewContext :: "metric list option \<Rightarrow> ('w state_ops \<times> 'w) option \<Rightarrow> cr_context" where
  "NewContext mm state =
     (let m = (case mm of None \<Rightarrow> NewMetrics '''' 0 | Some m \<Rightarrow> m)
      in case state of
           None \<Rightarrow> \<lparr>cx_mm = m, cx_IPv6Autoconf = st_IPv6Autoconf TestState no_state,
                    cx_IPv6Forwarding = st_IPv6Forwarding TestState no_state\<rparr>
         | Some (st, w) \<Rightarrow> \<lparr>cx_mm = m, cx_IPv6Autoconf = st_IPv6Autoconf st w,
                            cx_IPv6Forwarding = st_IPv6Forwarding st w\<rparr>)"


section \<open>The command\<close>

definition newline :: string where "newline = [CHR 0x0A]"

text \<open>The template of the minimal configuration, with the banner filled in.\<close>

definition Minimal :: "string \<Rightarrow> string" where
  "Minimal banner =
     str_join newline
       [''# '' @ banner @ '' configuration file'',
        '''',
        ''# Advertise an IPv6 default route and SLAAC-capable prefixes on LAN-facing eth0.'',
        ''[[interfaces]]'',
        ''name = \"eth0\"'',
        ''advertise = true'',
        '''',
        ''  # Advertise an on-link, autonomous prefix for all /64 addresses on eth0.'',
        ''  [[interfaces.prefix]]'',
        '''',
        ''# Monitor upstream router advertisements on WAN-facing eth1.'',
        ''[[interfaces]]'',
        ''name = \"eth1\"'',
        ''monitor = true'',
        '''',
        ''# Optional: enable Prometheus metrics.'',
        ''[debug]'',
        ''address = \"localhost:9430\"'',
        ''prometheus = true'',
        '''']"

definition cfgFile :: string where "cfgFile = ''corerad.toml''"

text \<open>\<open>ce_Open\<close> gives the error of opening a file, or what the decoder makes of it.\<close>

record command_env =
  ce_Init :: bool
  ce_Config :: string
  ce_WriteFile :: "string \<Rightarrow> string \<Rightarrow> unit outcome"
  ce_Getwd :: "string outcome"
  ce_Notifier :: "unit outcome"
  ce_Open :: "string \<Rightarrow> raw_file outcome outcome"
  ce_ndp :: ndp_pkg
  ce_Resolve :: "string \<Rightarrow> unit outcome"
  ce_Now :: instant
  ce_Date :: "instant \<Rightarrow> string"
  ce_Heap :: ptr
  ce_Serve :: "task list \<Rightarrow> server \<Rightarrow> unit outcome"

datatype command_end = Returned | Fatal go_error | Crashed string

record command_state =
  cs_Files :: "(string \<times> string) list"
  cs_Metrics :: "metric list"
  cs_Tasks :: "task list option"

definition command_start :: command_state where
  "command_start = \<lparr>cs_Files = [], cs_Metrics = [], cs_Tasks = None\<rparr>"

text \<open>\<open>fatal w m k\<close>: an error is logged with the format \<open>w\<close> and ends the process.\<close>

definition fatal ::
  "string \<Rightarrow> 'a outcome \<Rightarrow> command_state \<Rightarrow> ('a \<Rightarrow> command_end \<times> command_state) \<Rightarrow> command_end \<times> command_state" where
  "fatal w m s k =
     (case m of
        Ok x \<Rightarrow> k x
      | Err e \<Rightarrow> (Fatal (FmtV w e), s)
      | Panic p \<Rightarrow> (Crashed p, s))"

definition write_minimal :: "command_env \<Rightarrow> string \<Rightarrow> command_state \<Rightarrow> command_end \<times> command_state" where
  "write_minimal env banner s =
     fatal ''failed to write minimal configuration: %v'' (ce_WriteFile env cfgFile (Minimal banner)) s (\<lambda>_.
       (let s1 = s\<lparr>cs_Files := cs_Files s @ [(cfgFile, Minimal banner)]\<rparr>
        in fatal ''failed to get working directory: %v'' (ce_Getwd env) s1 (\<lambda>_. (Returned, s1))))"

definition run_server :: "build_links \<Rightarrow> instant \<Rightarrow> command_env \<Rightarrow> config \<Rightarrow> command_state \<Rightarrow> command_end \<times> command_state" where
  "run_server b t env cfg s =
     (let s1 = s\<lparr>cs_Metrics := NewMetrics (Version b) t\<rparr>
      in case BuildTasks cfg NewServer of
           Ok (tasks, sv) \<Rightarrow>
             (let s2 = s1\<lparr>cs_Tasks := Some tasks\<rparr>
              in fatal ''failed to run: %v'' (ce_Serve env tasks sv) s2 (\<lambda>_. (Returned, s2)))
         | Err e \<Rightarrow> (Fatal e, s1)
         | Panic p \<Rightarrow> (Crashed p, s1))"

definition main_fn :: "build_links \<Rightarrow> command_env \<Rightarrow> command_end \<times> command_state" where
  "main_fn b env =
     (case timeT b of
        Err e \<Rightarrow> (Fatal e, command_start)
      | Panic p \<Rightarrow> (Crashed p, command_start)
      | Ok t \<Rightarrow>
          (let s = command_start
           in if ce_Init env then write_minimal env (Banner (ce_Date env) b t) s
              else fatal ''failed to open systemd notifier: %v''
                (case ce_Notifier env of
                   Err e \<Rightarrow> if errors_is e OsErrNotExist then Ok () else Err e
                 | r \<Rightarrow> r) s (\<lambda>_.
              fatal ''failed to open configuration file: %v'' (ce_Open env (ce_Config env)) s (\<lambda>decoded.
              fatal ''failed to parse %q: %v''
                (Parse (ce_ndp env) (ce_Resolve env) decoded (ce_Now env) (ce_Heap env)) s (\<lambda>(cfg, _).
              run_server b t env cfg s)))))"

end
