(* ===== verification/Daemon_Properties.thy ===== *)
theory Daemon_Properties
  imports Command Config_Properties
begin

text \<open>
  Properties of the daemon as a whole: when it tells the service manager that it runs, and how it ends.
\<close>

section \<open>Readiness\<close>

text \<open>
  C18: the service manager is told at most once that the daemon runs, and only after every task was
  initialized and announced, whatever the order in which the tasks become ready, fail or end.
\<close>

theorem ready_after_all_tasks:
  assumes "serve_reaches ts (serve_start ts sv) s" and "vy_Notified s = xs @ AllRunning # ys"
  shows "AllRunning \<notin> set xs \<union> set ys \<and> (\<forall>t \<in> set ts. Started (task_String t) \<in> set xs) \<and>
    (\<forall>i < length ts. vy_Ready s ! i)"
proof -
  have inv: "ready_inv ts s" by (rule ready_inv_reaches[OF assms(1)])
  then have "vy_Serving s" using assms(2) by (auto simp: ready_inv_def split: if_splits)
  with inv obtain xs' ys' where xy: "vy_Notified s = xs' @ AllRunning # ys'" "AllRunning \<notin> set xs' \<union> set ys'"
      "\<forall>t \<in> set ts. Started (task_String t) \<in> set xs'" and "\<forall>i < length ts. vy_Announced s ! i"
    by (auto simp: ready_inv_def)
  have "xs = xs' \<and> ys = ys'" using assms(2) xy(1,2) by (auto simp: append_eq_append_conv2 append_eq_Cons_conv Cons_eq_append_conv)
  then show ?thesis using xy inv \<open>\<forall>i < length ts. vy_Announced s ! i\<close> by (auto simp: ready_inv_def)
qed

definition quiet_tasks :: "task list" where "quiet_tasks = [WatcherTask, SignalTask]"

definition quiet_ready :: serve_system where
  "quiet_ready = (serve_start quiet_tasks NewServer)\<lparr>vy_Announced := [True, True], vy_Serving := True,
     vy_Notified := [Started ''link state watcher'', Started ''signal watcher'', AllRunning]\<rparr>"

lemma quiet_reaches: "serve_reaches quiet_tasks (serve_start quiet_tasks NewServer) quiet_ready"
proof -
  let ?s = "serve_start quiet_tasks NewServer"
  let ?s1 = "?s\<lparr>vy_Announced := [True, False], vy_Notified := [Started ''link state watcher'']\<rparr>"
  let ?s2 = "?s\<lparr>vy_Announced := [True, True], vy_Notified := [Started ''link state watcher'', Started ''signal watcher'']\<rparr>"
  have "serve_step quiet_tasks ?s (Ok ?s1)"
    using announce[of 0 quiet_tasks ?s] by (simp add: serve_start_def quiet_tasks_def)
  moreover have "serve_step quiet_tasks ?s1 (Ok ?s2)"
    using announce[of 1 quiet_tasks ?s1] by (simp add: serve_start_def quiet_tasks_def)
  moreover have "serve_step quiet_tasks ?s2 (Ok quiet_ready)"
    using all_running[of quiet_tasks ?s2]
    by (simp add: serve_start_def quiet_tasks_def quiet_ready_def less_Suc_eq)
  ultimately show ?thesis
    using serve_reaches.step[OF serve_reaches.step[OF serve_reaches.step[OF serve_reaches.start]]] by blast
qed

theorem ready_after_all_tasks_witness:
  "AllRunning \<notin> set [Started ''link state watcher'', Started ''signal watcher''] \<union> set [] \<and>
    Started (task_String SignalTask) \<in> set [Started ''link state watcher'', Started ''signal watcher''] \<and>
    vy_Ready quiet_ready ! 1"
  using ready_after_all_tasks[OF quiet_reaches, of "[Started ''link state watcher'', Started ''signal watcher'']" "[]"]
  by (simp add: quiet_ready_def quiet_tasks_def)


section \<open>The end\<close>

text \<open>
  C8: the program serves the tasks of the configuration it parsed, and ends for a reason: it exits normally
  only when a signal has arrived and no task failed, and otherwise with the error of the first task
  that failed; it does not crash.
\<close>

theorem program_ends_with_reason:
  assumes "\<not> ce_Init env" and "timeT b = Ok t"
    and "ce_Notifier env = Ok () \<or> (\<exists>e. ce_Notifier env = Err e \<and> errors_is e OsErrNotExist)"
    and "ce_Open env (ce_Config env) = Ok decoded"
    and "Parse (ce_ndp env) (ce_Resolve env) decoded (ce_Now env) (ce_Heap env) = Ok (cfg, h')"
    and "BuildTasks cfg NewServer = Ok (tasks, sv)"
    and "serve_reaches (tasks @ [SignalTask]) (serve_start (tasks @ [SignalTask]) sv) s" and "serve_ended s"
    and "ce_Serve env tasks sv = serve_result s"
  shows "cs_Tasks (snd (main_fn b env)) = Some tasks \<and>
    (case group_Wait (vy_Results s) of
       None \<Rightarrow> fst (main_fn b env) = Returned \<and> (\<exists>g. Stopping g \<in> set (vy_Notified s))
     | Some e \<Rightarrow> fst (main_fn b env) = Fatal (FmtV ''failed to run: %v'' (FmtV ''failed to serve: %v'' e)))"
proof -
  have n: "(case ce_Notifier env of Err e \<Rightarrow> if errors_is e OsErrNotExist then Ok () else Err e | r \<Rightarrow> r) = Ok ()"
    using assms(3) by auto
  have main: "main_fn b env = run_server b t env cfg command_start"
    using assms(1,2,4,5) by (simp add: main_fn_def n fatal_def Let_def)
  have "end_inv sv (tasks @ [SignalTask]) s" by (rule end_inv_reaches[OF assms(7)])
  moreover have "vy_Canceled s" by (rule ended_canceled[OF assms(7) _ assms(8)]) simp
  ultimately have "group_Wait (vy_Results s) = None \<Longrightarrow> \<exists>g. Stopping g \<in> set (vy_Notified s)"
    unfolding end_inv_def by blast
  then show ?thesis
    using assms(6,9) by (auto simp: main run_server_def fatal_def serve_result_def Let_def split: option.splits)
qed

text \<open>A server whose tasks return without an error after a signal.\<close>

lemma tasks_end:
  assumes "serve_reaches ts s0 s" and "length (vy_Running s) = length ts" and "n \<le> length ts"
    and "\<forall>i < length ts. ts ! i = SignalTask \<longrightarrow> \<not> vy_Running s ! i"
    and "group_Wait (vy_Results s) = None"
  shows "\<exists>s'. serve_reaches ts s0 s' \<and> length (vy_Running s') = length ts \<and> (\<forall>i < n. \<not> vy_Running s' ! i) \<and>
    (\<forall>i < length ts. ts ! i = SignalTask \<longrightarrow> \<not> vy_Running s' ! i) \<and> group_Wait (vy_Results s') = None"
  using assms(3)
proof (induction n)
  case 0
  then show ?case using assms by blast
next
  case (Suc n)
  then obtain s1 where s1: "serve_reaches ts s0 s1" "length (vy_Running s1) = length ts"
      "\<forall>i < n. \<not> vy_Running s1 ! i" "\<forall>i < length ts. ts ! i = SignalTask \<longrightarrow> \<not> vy_Running s1 ! i"
      "group_Wait (vy_Results s1) = None" by auto
  show ?case
  proof (cases "vy_Running s1 ! n")
    case True
    let ?s = "task_returns n None s1"
    have n: "n < length ts" "ts ! n \<noteq> SignalTask" using True Suc.prems s1(4) by auto
    have "serve_step ts s1 (Ok ?s)"
      using task_return[OF n(1) True n(2), of "Ok ()"] by (simp add: task_result_def)
    from serve_reaches.step[OF s1(1) this] show ?thesis
      using s1 n by (intro exI[of _ ?s]) (auto simp: task_returns_def nth_list_update less_Suc_eq group_Wait_snoc)
  next
    case False
    then show ?thesis using s1 by (intro exI[of _ s1]) (auto simp: less_Suc_eq)
  qed
qed

lemma server_can_end:
  assumes "SignalTask \<notin> set tasks"
  shows "\<exists>s. serve_reaches (tasks @ [SignalTask]) (serve_start (tasks @ [SignalTask]) sv) s \<and> serve_ended s \<and>
    group_Wait (vy_Results s) = None"
proof -
  let ?ts = "tasks @ [SignalTask]"
  let ?s = "serve_start ?ts sv"
  let ?s1 = "task_returns (length tasks) None (?s\<lparr>vy_Server := terminator_set SIGTERM sv,
    vy_Canceled := vy_Canceled ?s \<or> True, vy_Notified := vy_Notified ?s @ [Stopping SIGTERM]\<rparr>)"
  have "serve_step ?ts ?s (Ok ?s1)"
    by (rule signal_receive) (simp_all add: serve_start_def signalTask_Run_def nth_append)
  then have r: "serve_reaches ?ts ?s ?s1" by (rule serve_reaches.step[OF serve_reaches.start])
  have sig: "i = length tasks" if "i < length ?ts" "?ts ! i = SignalTask" for i
  proof (rule ccontr)
    assume "i \<noteq> length tasks"
    then have i: "i < length tasks" using that(1) by simp
    then have "tasks ! i = SignalTask" using that(2) by (simp add: nth_append)
    then show False using assms nth_mem[OF i] by simp
  qed
  have "\<forall>i < length ?ts. ?ts ! i = SignalTask \<longrightarrow> \<not> vy_Running ?s1 ! i"
  proof (intro allI impI)
    fix i
    assume "i < length ?ts" "?ts ! i = SignalTask"
    then have "i = length tasks" by (rule sig)
    then show "\<not> vy_Running ?s1 ! i" by (simp add: task_returns_def serve_start_def)
  qed
  from tasks_end[OF r _ order_refl this] obtain s where s: "serve_reaches ?ts ?s s"
      "length (vy_Running s) = length ?ts" "\<forall>i < length ?ts. \<not> vy_Running s ! i" "group_Wait (vy_Results s) = None"
    by (auto simp: task_returns_def serve_start_def)
  then have "serve_ended s" by (auto simp: serve_ended_def in_set_conv_nth)
  then show ?thesis using s by blast
qed

definition demo_command :: command_env where
  "demo_command =
     \<lparr>ce_Init = False, ce_Config = cfgFile, ce_WriteFile = (\<lambda>_ _. Ok ()), ce_Getwd = Ok ''/'',
      ce_Notifier = Err (Sentinel OsErrNotExist), ce_Open = (\<lambda>_. Ok (Ok demo_file)), ce_ndp = demo_ndp,
      ce_Resolve = (\<lambda>_. Ok ()), ce_Now = 1, ce_Date = (\<lambda>_. ''2024-01-01''), ce_Heap = 5, ce_Serve = (\<lambda>_ _. Ok ())\<rparr>"

definition demo_links :: build_links where
  "demo_links = \<lparr>linkTimestamp = ''1704067200'', linkVersion = ''v1.4.0''\<rparr>"

lemma demo_timeT: "timeT demo_links = Ok (Unix 1704067200)"
  by code_simp

lemma interface_tasks_no_signal: "SignalTask \<notin> set (interface_tasks n ifs)"
  by (induction ifs arbitrary: n) (auto simp: task_of_def)

lemma BuildTasks_no_signal: "BuildTasks cfg NewServer = Ok (tasks, sv) \<Longrightarrow> SignalTask \<notin> set tasks"
  using BuildTasks_spec[of NewServer NewWatcher cfg] NewWatcher_wf interface_tasks_no_signal
  by (auto simp: NewServer_def)

theorem program_ends_with_reason_witness:
  "fst (main_fn demo_links demo_command) = Returned \<and>
    (\<exists>tasks. cs_Tasks (snd (main_fn demo_links demo_command)) = Some tasks)"
proof -
  obtain tasks sv where b: "BuildTasks (fst demo_config) NewServer = Ok (tasks, sv)"
    using BuildTasks_spec[of NewServer NewWatcher "fst demo_config"] NewWatcher_wf by (auto simp: NewServer_def)
  from server_can_end[OF BuildTasks_no_signal[OF b], of sv] obtain s where
    s: "serve_reaches (tasks @ [SignalTask]) (serve_start (tasks @ [SignalTask]) sv) s" "serve_ended s"
      "group_Wait (vy_Results s) = None" by blast
  have p: "Parse (ce_ndp demo_command) (ce_Resolve demo_command) (Ok demo_file) (ce_Now demo_command) (ce_Heap demo_command) =
      Ok (fst demo_config, snd demo_config)"
    using demo_parse by (simp add: demo_command_def)
  have "ce_Serve demo_command tasks sv = serve_result s" using s(3) by (simp add: demo_command_def serve_result_def)
  from program_ends_with_reason[OF _ demo_timeT _ _ p b s(1,2) this] show ?thesis
    using s(3) by (auto simp: demo_command_def)
qed

end
