(* ===== verification/Monitor_System.thy ===== *)
theory Monitor_System
  imports Monitor System_Runs Dialer_Facts
begin

text \<open>
  \<open>Monitor.monitor\<close> as a system: the listener and the watcher of link state changes run side by side and
  meet in the context of their group.  The callback of a monitor never sends, so that no goroutine of
  it ever waits for another one, in contrast to those of an advertiser.  \<open>Monitor.Run\<close> is the system in
  the rounds of the dialer.
\<close>

section \<open>State and steps\<close>

record mon_world =
  mw_Env :: "mon_env \<Rightarrow> bool"
  mw_ndp :: ndp_pkg
  mw_watchC :: "nat option"

text \<open>
  As for an advertiser; the listener never is at \<open>Answering\<close>.  \<open>my_Handled\<close> only records the messages that
  were handed to the callback.
\<close>

record mon_system =
  my_Parent :: "go_error option"
  my_Canceled :: bool
  my_State :: mon_state
  my_Listener :: listening
  my_Watching :: bool
  my_Results :: "go_error option list"
  my_Handled :: "(ndp_message \<times> addr) list"

definition monitor_start :: "mon_state \<Rightarrow> mon_system" where
  "monitor_start st =
     \<lparr>my_Parent = None, my_Canceled = False, my_State = st, my_Listener = Reading, my_Watching = True,
      my_Results = [], my_Handled = []\<rparr>"

definition member_returns :: "go_error option \<Rightarrow> mon_system \<Rightarrow> mon_system" where
  "member_returns r s = s\<lparr>my_Results := my_Results s @ [r], my_Canceled := my_Canceled s \<or> r \<noteq> None\<rparr>"

definition monitor_recv :: "mon_system \<Rightarrow> recv_state" where
  "monitor_recv s = \<lparr>rv_Reads = 0, rv_Metrics = ms_Metrics (my_State s), rv_Waited = 0\<rparr>"

definition monitor_received ::
  "unit outcome \<Rightarrow> (ndp_message \<times> addr) outcome \<Rightarrow> recv_state \<Rightarrow> mon_system \<Rightarrow> mon_system" where
  "monitor_received interrupt q rs s0 =
     (let s = s0\<lparr>my_State := (my_State s0)\<lparr>ms_Metrics := rv_Metrics rs\<rparr>\<rparr>
      in case q of
           Ok (m, host) \<Rightarrow> s\<lparr>my_Listener := Received (m, WithZone host '''')\<rparr>
         | Err e \<Rightarrow>
             if my_Canceled s then
               member_returns (error_of (wrapErr (FmtW ''failed to interrupt listener: %w'') interrupt))
                 (s\<lparr>my_Listener := ListenerDone\<rparr>)
             else s\<lparr>my_Listener := Stuck (Err (FmtW ''failed to read NDP messages: %w'' e))\<rparr>
         | Panic p \<Rightarrow> s\<lparr>my_Listener := Stuck (Panic p)\<rparr>)"

definition monitor_handled ::
  "unit outcome \<Rightarrow> mon_state \<Rightarrow> ndp_message \<times> addr \<Rightarrow> mon_system \<Rightarrow> mon_system" where
  "monitor_handled r st msg s =
     s\<lparr>my_State := st, my_Handled := my_Handled s @ [msg],
       my_Listener := (case r of Ok _ \<Rightarrow> Reading | _ \<Rightarrow> Stuck r)\<rparr>"

definition monitor_listener_returns :: "unit outcome \<Rightarrow> mon_system \<Rightarrow> mon_system outcome" where
  "monitor_listener_returns r s =
     (case r of
        Panic p \<Rightarrow> Panic p
      | _ \<Rightarrow> Ok (member_returns (error_of r) (s\<lparr>my_Listener := ListenerDone\<rparr>)))"

inductive monitor_step :: "mon_world \<Rightarrow> monitor \<Rightarrow> mon_system \<Rightarrow> mon_system outcome \<Rightarrow> bool" for W m where
  cancel: "my_Parent s = None \<Longrightarrow>
    monitor_step W m s (Ok (s\<lparr>my_Parent := Some (Sentinel ContextCanceled), my_Canceled := True\<rparr>))"
| listener_read: "my_Listener s = Reading \<Longrightarrow> mw_Env W env \<Longrightarrow>
    receiveRetry (mw_ndp W) (me_TypeString env) (mon_iface m) renv (monitor_recv s) = (q, rs) \<Longrightarrow>
    \<not> is_Panic interrupt \<Longrightarrow>
    monitor_step W m s (Ok (monitor_received interrupt q rs s))"
| listener_handle: "my_Listener s = Received msg \<Longrightarrow> mw_Env W env \<Longrightarrow>
    monitor_message env m msg (my_State s) = (r, st) \<Longrightarrow>
    monitor_step W m s (Ok (monitor_handled r st msg s))"
| listener_return: "my_Listener s = Stuck r \<Longrightarrow> my_Canceled s \<Longrightarrow>
    monitor_step W m s (monitor_listener_returns r s)"
| watcher_return: "my_Watching s \<Longrightarrow> linkStateWatcher (my_Canceled s) (mw_watchC W) w r w' \<Longrightarrow>
    monitor_step W m s (Ok (member_returns (error_of r) (s\<lparr>my_Watching := False\<rparr>)))"

inductive monitor_reaches :: "mon_world \<Rightarrow> monitor \<Rightarrow> mon_system \<Rightarrow> mon_system \<Rightarrow> bool" for W m s0 where
  start: "monitor_reaches W m s0 s0"
| step: "monitor_reaches W m s0 s \<Longrightarrow> monitor_step W m s (Ok s') \<Longrightarrow> monitor_reaches W m s0 s'"

text \<open>Both goroutines have returned, and with them \<open>monitor\<close>.\<close>

definition monitor_returned :: "mon_system \<Rightarrow> bool" where
  "monitor_returned s \<longleftrightarrow> my_Listener s = ListenerDone \<and> \<not> my_Watching s"

text \<open>The error that \<open>monitor\<close> returns to \<open>Run\<close>.\<close>

definition monitor_result :: "mon_system \<Rightarrow> go_error option" where
  "monitor_result s = monitor_group (my_Results s) (my_Parent s)"

lemma monitor_reaches_step: "monitor_step W m s (Ok s') \<Longrightarrow> monitor_reaches W m s s'"
  by (rule monitor_reaches.step[OF monitor_reaches.start])

lemma monitor_reaches_trans:
  assumes "monitor_reaches W m s1 s2" and "monitor_reaches W m s0 s1"
  shows "monitor_reaches W m s0 s2"
  using assms by (induction rule: monitor_reaches.induct) (auto intro: monitor_reaches.step)

lemma member_returns_fields [simp]:
  "my_State (member_returns r s) = my_State s" "my_Listener (member_returns r s) = my_Listener s"
  "my_Watching (member_returns r s) = my_Watching s" "my_Parent (member_returns r s) = my_Parent s"
  "my_Handled (member_returns r s) = my_Handled s" "my_Results (member_returns r s) = my_Results s @ [r]"
  "my_Canceled (member_returns r s) \<longleftrightarrow> my_Canceled s \<or> r \<noteq> None"
  by (simp_all add: member_returns_def)

lemma monitor_received_fields [simp]:
  "my_State (monitor_received i q rs s) = (my_State s)\<lparr>ms_Metrics := rv_Metrics rs\<rparr>"
  "my_Watching (monitor_received i q rs s) = my_Watching s" "my_Parent (monitor_received i q rs s) = my_Parent s"
  "my_Handled (monitor_received i q rs s) = my_Handled s"
  by (simp_all add: monitor_received_def Let_def split: outcome.split prod.split)


section \<open>What the monitor reports\<close>

text \<open>
  Seen from outside the monitor is a fold of \<open>monitor_message\<close> over the messages it handled, each in the
  environment of its moment; the counter of invalid messages belongs to the listener.
\<close>

definition own_metrics :: "metric list \<Rightarrow> metric list" where
  "own_metrics = filter (\<lambda>x. metric_name x \<noteq> ''MessagesReceivedInvalidTotal'')"

definition own_state :: "mon_state \<Rightarrow> mon_state" where
  "own_state st = st\<lparr>ms_Metrics := own_metrics (ms_Metrics st)\<rparr>"

fun handle_all :: "monitor \<Rightarrow> (mon_env \<times> ndp_message \<times> addr) list \<Rightarrow> mon_state \<Rightarrow> mon_state" where
  "handle_all m [] st = st"
| "handle_all m ((env, msg) # msgs) st = handle_all m msgs (snd (monitor_message env m msg st))"

lemma handle_all_append [simp]: "handle_all m (xs @ ys) st = handle_all m ys (handle_all m xs st)"
  by (induction m xs st rule: handle_all.induct) auto

lemma own_metrics_append [simp]: "own_metrics (xs @ ys) = own_metrics xs @ own_metrics ys"
  by (simp add: own_metrics_def)

lemma monitor_prefixes_own:
  "own_metrics (concat (map (\<lambda>p. monitor_prefix i h now (snd p)) ps)) =
     concat (map (\<lambda>p. monitor_prefix i h now (snd p)) ps)"
  by (induction ps) (simp_all add: own_metrics_def monitor_prefix_def Let_def)

lemma monitor_message_own:
  "own_state (snd (monitor_message env m msg st)) = snd (monitor_message env m msg (own_state st))"
  by (cases "fst msg") (simp_all add: monitor_message_def monitor_handle_def Let_def own_state_def own_metrics_def
    monitor_prefixes_own[unfolded own_metrics_def])

lemma receive_loop_own:
  "receive_loop ndp tn iface env n i s = (q, s') \<Longrightarrow> own_metrics (rv_Metrics s') = own_metrics (rv_Metrics s)"
  by (induction ndp tn iface env n i s rule: receive_loop.induct)
    (auto simp: Let_def own_metrics_def split: option.splits read_result.splits if_splits)

lemma receiveRetry_own:
  "receiveRetry ndp tn iface env s = (q, s') \<Longrightarrow> own_metrics (rv_Metrics s') = own_metrics (rv_Metrics s)"
  by (simp add: receiveRetry_def receive_loop_own)

definition reported :: "mon_world \<Rightarrow> monitor \<Rightarrow> mon_state \<Rightarrow> mon_system \<Rightarrow> bool" where
  "reported W m st s \<longleftrightarrow>
     (\<exists>msgs. map snd msgs = my_Handled s \<and> (\<forall>x \<in> set msgs. mw_Env W (fst x)) \<and>
        own_state (my_State s) = handle_all m msgs (own_state st))"

lemma reported_frame:
  assumes "reported W m st s" and "own_state (my_State s') = own_state (my_State s)" and "my_Handled s' = my_Handled s"
  shows "reported W m st s'"
  using assms by (simp add: reported_def)

lemma reported_step:
  assumes rep: "reported W m st s" and "monitor_step W m s (Ok s')"
  shows "reported W m st s'"
  using assms(2)
proof cases
  case (listener_read env renv q rs interrupt)
  have "own_metrics (rv_Metrics rs) = own_metrics (ms_Metrics (my_State s))"
    using receiveRetry_own[OF listener_read(4)] by (simp add: monitor_recv_def)
  then show ?thesis using listener_read(1) by (intro reported_frame[OF rep]) (simp_all add: own_state_def)
next
  case (listener_handle msg env r st')
  obtain msgs where msgs: "map snd msgs = my_Handled s" "\<forall>x \<in> set msgs. mw_Env W (fst x)"
      "own_state (my_State s) = handle_all m msgs (own_state st)"
    using rep by (auto simp: reported_def)
  have "own_state st' = handle_all m (msgs @ [(env, msg)]) (own_state st)"
    using monitor_message_own[of env m msg "my_State s"] listener_handle(4) msgs(3) by simp
  then show ?thesis
    using listener_handle(1,3) msgs(1,2) unfolding reported_def monitor_handled_def
    by (intro exI[of _ "msgs @ [(env, msg)]"]) simp
next
  case (listener_return r)
  then show ?thesis
    by (intro reported_frame[OF rep]) (cases r; simp add: monitor_listener_returns_def)+
qed (intro reported_frame[OF rep]; simp)+

lemma reported_start: "reported W m st (monitor_start st)"
  unfolding reported_def by (intro exI[of _ "[]"]) (simp add: monitor_start_def)

lemma reported_reaches: "monitor_reaches W m (monitor_start st) s \<Longrightarrow> reported W m st s"
  by (induction rule: monitor_reaches.induct) (auto intro: reported_start reported_step)


text \<open>Each message it handled is counted once and seen by the callback, in order.\<close>

lemma counts_prefixes:
  "counts ''MonMessagesReceivedTotal'' (concat (map (\<lambda>p. monitor_prefix i h now (snd p)) ps)) = 0"
  by (induction ps) (simp_all add: monitor_prefix_def Let_def counts_def)

lemma monitor_message_counts:
  "counts ''MonMessagesReceivedTotal'' (ms_Metrics (snd (monitor_message env m msg st))) =
     Suc (counts ''MonMessagesReceivedTotal'' (ms_Metrics st))"
  using counts_prefixes
  by (cases "fst msg") (simp_all add: monitor_message_def monitor_handle_def Let_def counts_def)

lemma handle_all_counts:
  "counts ''MonMessagesReceivedTotal'' (ms_Metrics (handle_all m msgs st)) =
     counts ''MonMessagesReceivedTotal'' (ms_Metrics st) + length msgs"
  by (induction m msgs st rule: handle_all.induct) (simp_all add: monitor_message_counts)

lemma handle_all_seen:
  "ms_Seen (handle_all m msgs st) = ms_Seen st @ (if mon_OnMessage m then map (fst \<circ> snd) msgs else [])"
  by (induction m msgs st rule: handle_all.induct) (simp_all add: monitor_message_def monitor_handle_def Let_def)

lemma counts_own: "counts ''MonMessagesReceivedTotal'' (own_metrics xs) = counts ''MonMessagesReceivedTotal'' xs"
  by (induction xs) (simp_all add: own_metrics_def counts_def)


section \<open>The end\<close>

text \<open>
  The group ends for a link state change while the caller's context is alive; the listener never returns
  then, and panics never.
\<close>

definition monitor_ok :: "mon_system \<Rightarrow> bool" where
  "monitor_ok s \<longleftrightarrow>
     (my_Canceled s \<longleftrightarrow> my_Parent s \<noteq> None \<or> group_Wait (my_Results s) \<noteq> None) \<and>
     (my_Parent s = None \<or> my_Parent s = Some (Sentinel ContextCanceled)) \<and>
     (my_Parent s = None \<longrightarrow> group_Wait (my_Results s) \<in> {None, Some (Sentinel ErrLinkChange)}) \<and>
     (my_Listener s = ListenerDone \<longrightarrow> my_Canceled s) \<and>
     (\<forall>p. my_Listener s \<noteq> Stuck (Panic p)) \<and> (\<forall>ip. my_Listener s \<noteq> Answering ip)"

lemma monitor_ok_start: "monitor_ok (monitor_start st)"
  by (simp add: monitor_ok_def monitor_start_def)

lemma monitor_ok_returns:
  assumes "monitor_ok s" and "my_Parent s = None \<Longrightarrow> my_Canceled s \<or> r \<in> {None, Some (Sentinel ErrLinkChange)}"
  shows "monitor_ok (member_returns r s)"
  using assms by (auto simp: monitor_ok_def group_Wait_snoc split: option.splits)

lemma monitor_ok_frame:
  assumes "monitor_ok s" and "my_Canceled s' = my_Canceled s" and "my_Parent s' = my_Parent s"
    and "my_Results s' = my_Results s" and "my_Listener s' = ListenerDone \<Longrightarrow> my_Canceled s"
    and "\<And>p. my_Listener s' \<noteq> Stuck (Panic p)" and "\<And>ip. my_Listener s' \<noteq> Answering ip"
  shows "monitor_ok s'"
  using assms by (simp add: monitor_ok_def)

lemma monitor_message_Ok: "monitor_message env m msg st = (r, st') \<Longrightarrow> r = Ok ()"
  by (auto simp: monitor_message_def Let_def)

lemma monitor_ok_step:
  assumes ok: "monitor_ok s" and "monitor_step W m s (Ok s')"
  shows "monitor_ok s'"
  using assms(2)
proof cases
  case cancel
  then show ?thesis using ok by (auto simp: monitor_ok_def)
next
  case (listener_read env renv q rs interrupt)
  let ?s = "s\<lparr>my_State := (my_State s)\<lparr>ms_Metrics := rv_Metrics rs\<rparr>\<rparr>"
  have np: "\<not> is_Panic q" using receive_loop_no_panic listener_read(4) by (metis receiveRetry_def fst_conv)
  show ?thesis
  proof (cases q)
    case (Ok x)
    then show ?thesis using listener_read(1)
      by (cases x) (auto simp: monitor_received_def intro!: monitor_ok_frame[OF ok])
  next
    case (Err e)
    show ?thesis
    proof (cases "my_Canceled s")
      case True
      have "monitor_ok (?s\<lparr>my_Listener := ListenerDone\<rparr>)" using True by (intro monitor_ok_frame[OF ok]) auto
      then show ?thesis
        using listener_read(1) Err True by (auto simp: monitor_received_def intro!: monitor_ok_returns)
    next
      case False
      then show ?thesis using listener_read(1) Err
        by (auto simp: monitor_received_def intro!: monitor_ok_frame[OF ok])
    qed
  qed (use np in simp)
next
  case (listener_handle msg env r st)
  then show ?thesis using monitor_message_Ok[OF listener_handle(4)]
    by (auto simp: monitor_handled_def intro!: monitor_ok_frame[OF ok])
next
  case (listener_return r)
  have "monitor_ok (s\<lparr>my_Listener := ListenerDone\<rparr>)" using listener_return(3) by (intro monitor_ok_frame[OF ok]) auto
  then show ?thesis using listener_return
    by (cases r) (auto simp: monitor_listener_returns_def intro!: monitor_ok_returns)
next
  case (watcher_return w r w')
  have "monitor_ok (s\<lparr>my_Watching := False\<rparr>)"
    using ok by (intro monitor_ok_frame[OF ok]) (auto simp: monitor_ok_def)
  then show ?thesis using watcher_return(1) watcher_error[OF watcher_return(3)]
    by (auto intro!: monitor_ok_returns)
qed

lemma monitor_ok_reaches: "monitor_reaches W m (monitor_start st) s \<Longrightarrow> monitor_ok s"
  by (induction rule: monitor_reaches.induct) (auto intro: monitor_ok_start monitor_ok_step)

lemma monitor_step_no_panic: "monitor_ok s \<Longrightarrow> monitor_step W m s q \<Longrightarrow> \<not> is_Panic q"
  by (erule monitor_step.cases) (auto simp: monitor_listener_returns_def monitor_ok_def split: outcome.splits)

text \<open>Of a monitor whose caller's context is alive, only the watcher has returned an error.\<close>

lemma monitor_result_alive:
  assumes "monitor_ok s" and "monitor_returned s" and "my_Parent s = None"
  shows "monitor_result s = Some (FmtW ''failed to run Monitor: %w'' (Sentinel ErrLinkChange))"
  using assms by (auto simp: monitor_ok_def monitor_returned_def monitor_result_def monitor_group_def)

text \<open>Once the context is done, the listener can return, and then the watcher.\<close>

lemma monitor_watcher_ends:
  assumes "my_Canceled s" and "my_Listener s = ListenerDone"
  shows "\<exists>s'. monitor_reaches W m s s' \<and> monitor_returned s' \<and> my_Parent s' = my_Parent s"
proof (cases "my_Watching s")
  case True
  have "\<exists>w. linkStateWatcher (my_Canceled s) (mw_watchC W) w (Ok ()) w"
    using assms(1) linkStateWatcher.no_watcher linkStateWatcher.canceled by (cases "mw_watchC W") auto
  then have "monitor_step W m s (Ok (member_returns None (s\<lparr>my_Watching := False\<rparr>)))"
    using watcher_return[OF True] by fastforce
  then show ?thesis using assms(2) monitor_reaches_step by (fastforce simp: monitor_returned_def)
qed (use assms(2) monitor_reaches.start in \<open>auto simp: monitor_returned_def\<close>)

definition canceled_read :: "nat \<Rightarrow> recv_env" where
  "canceled_read k =
     \<lparr>re_Ctx = Some (Sentinel ContextCanceled), re_Read = ReadError (Sentinel ContextCanceled) False,
      re_CtxAfter = Some (Sentinel ContextCanceled), re_CtxBackoff = Some (Sentinel ContextCanceled)\<rparr>"

lemma monitor_reading_ends:
  assumes "mw_Env W env" and "my_Canceled s" and "my_Listener s = Reading"
  shows "\<exists>s'. monitor_reaches W m s s' \<and> my_Canceled s' \<and> my_Listener s' = ListenerDone \<and> my_Parent s' = my_Parent s"
proof -
  have r: "receiveRetry (mw_ndp W) (me_TypeString env) (mon_iface m) canceled_read (monitor_recv s) =
      (Err (Sentinel ContextCanceled), monitor_recv s)"
    by (simp add: receiveRetry_def recv_retries_def canceled_read_def eval_nat_numeral)
  have "monitor_step W m s (Ok (monitor_received (Ok ()) (Err (Sentinel ContextCanceled)) (monitor_recv s) s))"
    by (rule listener_read[OF assms(3,1) r]) simp
  from monitor_reaches_step[OF this] show ?thesis
    using assms(2) by (intro exI conjI) (assumption, simp_all add: monitor_received_def Let_def)
qed

lemma monitor_listener_ends:
  assumes "mw_Env W env" and "monitor_ok s" and "my_Canceled s"
  shows "\<exists>s'. monitor_reaches W m s s' \<and> my_Canceled s' \<and> my_Listener s' = ListenerDone \<and> my_Parent s' = my_Parent s"
proof (cases "my_Listener s")
  case (Received msg)
  obtain st where st: "monitor_message env m msg (my_State s) = (Ok (), st)"
    by (simp add: monitor_message_def Let_def)
  let ?s = "monitor_handled (Ok ()) st msg s"
  have 1: "monitor_step W m s (Ok ?s)" by (rule listener_handle[OF Received assms(1) st])
  obtain s' where "monitor_reaches W m ?s s'" "my_Canceled s'" "my_Listener s' = ListenerDone"
      "my_Parent s' = my_Parent s"
    using monitor_reading_ends[OF assms(1), of ?s] assms(3) by (auto simp: monitor_handled_def)
  then show ?thesis using monitor_reaches_trans monitor_reaches_step[OF 1] by blast
next
  case (Stuck r)
  have "monitor_listener_returns r s = Ok (member_returns (error_of r) (s\<lparr>my_Listener := ListenerDone\<rparr>))"
    using assms(2) Stuck by (cases r) (auto simp: monitor_listener_returns_def monitor_ok_def)
  then have "monitor_step W m s (Ok (member_returns (error_of r) (s\<lparr>my_Listener := ListenerDone\<rparr>)))"
    using listener_return[OF Stuck assms(3)] by metis
  from monitor_reaches_step[OF this] show ?thesis
    using assms(3) by (intro exI conjI) (assumption, simp_all)
next
  case (Answering ip)
  then show ?thesis using assms(2) by (simp add: monitor_ok_def)
qed (use monitor_reading_ends[OF assms(1,3)] assms(3) monitor_reaches.start in auto)

lemma monitor_can_end:
  assumes "mw_Env W env" and "monitor_ok s" and "my_Parent s = Some c"
  shows "\<exists>s'. monitor_reaches W m s s' \<and> monitor_returned s' \<and> my_Parent s' = Some c"
proof -
  have "my_Canceled s" using assms(2,3) by (simp add: monitor_ok_def)
  from monitor_listener_ends[OF assms(1,2) this] obtain s1 where s1: "monitor_reaches W m s s1" "my_Canceled s1"
      "my_Listener s1 = ListenerDone" "my_Parent s1 = Some c" using assms(3) by auto
  show ?thesis using monitor_watcher_ends[OF s1(2,3)] s1(1,4) monitor_reaches_trans by metis
qed

section \<open>The rounds\<close>

text \<open>
  \<open>Monitor.Run\<close>: the dialer calls the function again after every error it recovers from.  The rounds share
  the state of the monitor; \<open>work k\<close> is a run of the goroutines in the \<open>k\<close>-th.
\<close>

type_synonym monitor_run = "mon_state \<Rightarrow> go_error option list \<times> go_error option \<times> mon_state"

definition monitor_fn ::
  "(nat \<Rightarrow> monitor_run) \<Rightarrow> dial_context \<Rightarrow> mon_state \<times> nat \<Rightarrow> unit outcome \<times> mon_state \<times> nat" where
  "monitor_fn work dctx t =
     (case t of (st, k) \<Rightarrow> (case monitor_Run_fn (work k) st of (r, st') \<Rightarrow> (r, st', Suc k)))"

definition monitor_Run ::
  "'w state_ops \<Rightarrow> (nat \<Rightarrow> dial_env) \<Rightarrow> dialer \<Rightarrow> (nat \<Rightarrow> monitor_run) \<Rightarrow> mon_state \<Rightarrow> 'w dialer_state \<Rightarrow>
     (unit outcome \<times> 'w dialer_state \<times> mon_state \<times> nat) option" where
  "monitor_Run ops denv d work st ds = Dial ops denv d (monitor_fn work) ds (st, 0)"

text \<open>\<open>work\<close> is a run of the system to its end.\<close>

definition monitor_runs :: "mon_world \<Rightarrow> monitor \<Rightarrow> (nat \<Rightarrow> monitor_run) \<Rightarrow> bool" where
  "monitor_runs W m work \<longleftrightarrow>
     (\<forall>k st. \<exists>s. monitor_reaches W m (monitor_start st) s \<and> monitor_returned s \<and>
        work k st = (my_Results s, my_Parent s, my_State s))"

text \<open>A dialer in monitor mode leaves the state of the system alone.\<close>

lemma dial_monitor:
  assumes "d_mode d = Monitor" and "dial ops env d ds = (r, ds')"
  shows "ds_Sys ds' = ds_Sys ds \<and> (\<forall>dctx. r = Ok dctx \<longrightarrow> dc_Restore dctx = None)"
  using assms dialNDP_Sys by (fastforce simp: dial_def Let_def split: outcome.splits prod.splits)

lemma init_retry_monitor:
  assumes "d_mode d = Monitor" and "init_retry ops env d err n i delay ds = (r, ds')"
  shows "ds_Sys ds' = ds_Sys ds \<and> (\<forall>dctx. r = Ok dctx \<longrightarrow> dc_Restore dctx = None)"
  using assms(2)
proof (induction n arbitrary: i delay ds)
  case (Suc n)
  obtain q ds1 where q: "dial ops env d (ds\<lparr>ds_Waited := ds_Waited ds + delay\<rparr>) = (q, ds1)" by fastforce
  show ?case
    using Suc.prems Suc.IH[of "Suc i" "next_delay i" ds1] dial_monitor[OF assms(1) q] q
    by (auto split: option.splits outcome.splits)
qed auto

lemma dialer_init_monitor:
  assumes "d_mode d = Monitor" and "dialer_init ops env d err ds = (r, ds')"
  shows "ds_Sys ds' = ds_Sys ds \<and> (\<forall>dctx. r = Ok dctx \<longrightarrow> dc_Restore dctx = None)"
proof -
  obtain q ds1 where q: "(case err of None \<Rightarrow> dial ops env d ds | Some e \<Rightarrow> (Err e, ds)) = (q, ds1)"
    by fastforce
  have "ds_Sys ds1 = ds_Sys ds \<and> (\<forall>dctx. q = Ok dctx \<longrightarrow> dc_Restore dctx = None)"
    using q dial_monitor[OF assms(1)] by (fastforce split: option.splits)
  then show ?thesis
    using assms(2) q init_retry_monitor[OF assms(1), of ops env _ init_attempts 0 0 ds1]
    by (fastforce simp: dialer_init_def split: outcome.splits recovery.splits)
qed

lemma Dial_loop_monitor:
  assumes mode: "d_mode d = Monitor"
    and run: "Dial_loop ops env d fn err ds t = Some (r, ds', t')" "\<not> is_Panic r"
  shows "ds_Sys ds' = ds_Sys ds"
proof -
  have finish: "ds_Sys ds2 = ds_Sys ds0" if "dialer_init ops env d err ds0 = (Ok dctx, ds1)"
    "dial_done ops d dctx ds1 = (b, ds2)" for err ds0 dctx ds1 b ds2
    using dialer_init_monitor[OF mode that(1)] that(2) by (auto simp: dial_done_def Let_def)
  have failed: "ds_Sys ds1 = ds_Sys ds0" if "dialer_init ops env d err ds0 = (Err e, ds1)" for err ds0 e ds1
    using dialer_init_monitor[OF mode that] by simp
  show ?thesis
  proof (rule Dial_loop_rule[OF run, where P = "\<lambda>x _. ds_Sys x = ds_Sys ds" and Q = "\<lambda>_ x _. ds_Sys x = ds_Sys ds"])
  qed (erule (1) trans[OF finish] trans[OF failed] | rule refl | simp)+
qed

lemma monitor_step_ready:
  assumes "monitor_step W m s (Ok s')"
  shows "ms_Ready (my_State s') = ms_Ready (my_State s)"
  using assms
  by cases (auto simp: monitor_handled_def monitor_message_def monitor_handle_def Let_def monitor_listener_returns_def
    split: outcome.splits)

lemma monitor_reaches_ready:
  "monitor_reaches W m (monitor_start st) s \<Longrightarrow> ms_Ready (my_State s) = ms_Ready st"
  by (induction rule: monitor_reaches.induct) (simp_all add: monitor_step_ready, simp add: monitor_start_def)

lemma monitor_fn_ready:
  assumes "monitor_runs W m work" and "monitor_fn work dctx (st, k) = (r, st', k')"
  shows "ms_Ready st' \<and> k' = Suc k"
proof -
  obtain s where s: "monitor_reaches W m (monitor_start (st\<lparr>ms_Ready := True\<rparr>)) s"
      "work k (st\<lparr>ms_Ready := True\<rparr>) = (my_Results s, my_Parent s, my_State s)"
    using assms(1) unfolding monitor_runs_def by blast
  have "ms_Ready (my_State s)" using monitor_reaches_ready[OF s(1)] by simp
  then show ?thesis
    using assms(2) s(2) by (auto simp: monitor_fn_def monitor_Run_fn_def split: option.splits if_splits)
qed

lemma monitor_Run_ready:
  assumes run: "monitor_Run ops denv d work st ds = Some (r, ds', st', n)" "\<not> is_Panic r"
    and runs: "monitor_runs W m work"
  shows "ms_Ready st' \<longleftrightarrow> ms_Ready st \<or> 0 < n"
proof -
  define P where "P = (\<lambda>t :: mon_state \<times> nat. ms_Ready (fst t) \<longleftrightarrow> ms_Ready st \<or> 0 < snd t)"
  have keeps: "P t1" if "monitor_fn work dctx t = (q, t1)" for dctx t q t1
    using monitor_fn_ready[OF runs, of dctx "fst t" "snd t" q "fst t1" "snd t1"] that by (auto simp: P_def)
  have "P (st', n)"
    by (rule Dial_loop_rule[OF run(1)[unfolded monitor_Run_def Dial_def] run(2),
          where P = "\<lambda>_. P" and Q = "\<lambda>_ _. P"]) (use keeps in \<open>auto simp: P_def\<close>)
  then show ?thesis by (simp add: P_def)
qed

end
