(* ===== verification/Monitor_Properties.thy ===== *)
theory Monitor_Properties
  imports Monitor_System Corerad_Properties
begin

text \<open>
  Properties of the monitor of an interface as a whole: its goroutines, in whatever order they run, and its
  rounds over the restarts of the dialer.
\<close>

section \<open>A system to instantiate them on\<close>

definition demo_mon_env :: mon_env where
  "demo_mon_env = \<lparr>me_Now = 5, me_TypeString = ae_TypeString demo_env\<rparr>"

definition demo_mon_world :: mon_world where
  "demo_mon_world = \<lparr>mw_Env = (\<lambda>env. env = demo_mon_env), mw_ndp = demo_ndp, mw_watchC = Some 0\<rparr>"

definition demo_monitor :: monitor where
  "demo_monitor = (NewMonitor ''eth0'' False)\<lparr>mon_OnMessage := True\<rparr>"

definition demo_mon_state :: mon_state where
  "demo_mon_state = \<lparr>ms_Metrics = [], ms_Seen = [], ms_Ready = False\<rparr>"

text \<open>One advertisement is read and handled, then the caller cancels.\<close>

definition demo_message :: "ndp_message \<times> addr" where
  "demo_message = (RouterAdvertisement (demo_ra (1800 * Second) 7), demo_client)"

definition demo_read :: "nat \<Rightarrow> recv_env" where
  "demo_read k =
     \<lparr>re_Ctx = None, re_Read = ReadMessage (fst demo_message) (ndp_HopLimit demo_ndp) demo_client,
      re_CtxAfter = None, re_CtxBackoff = None\<rparr>"

definition demo_m1 :: mon_system where
  "demo_m1 = (monitor_start demo_mon_state)\<lparr>my_Listener := Received demo_message\<rparr>"
definition demo_m2 :: mon_system where
  "demo_m2 = monitor_handled (Ok ()) (snd (monitor_message demo_mon_env demo_monitor demo_message demo_mon_state))
     demo_message demo_m1"
definition demo_m3 :: mon_system where
  "demo_m3 = demo_m2\<lparr>my_Parent := Some (Sentinel ContextCanceled), my_Canceled := True\<rparr>"

lemma demo_monitor_reaches:
  "monitor_reaches demo_mon_world demo_monitor (monitor_start demo_mon_state) demo_m2"
  "monitor_reaches demo_mon_world demo_monitor (monitor_start demo_mon_state) demo_m3"
proof -
  let ?s = "monitor_start demo_mon_state"
  let ?rs = "\<lparr>rv_Reads = 1, rv_Metrics = [], rv_Waited = 0\<rparr>"
  have r: "receiveRetry (mw_ndp demo_mon_world) (me_TypeString demo_mon_env) (mon_iface demo_monitor) demo_read
      (monitor_recv ?s) = (Ok (fst demo_message, demo_client), ?rs)"
    by (simp add: receiveRetry_def recv_retries_def demo_read_def eval_nat_numeral demo_mon_world_def monitor_recv_def
        monitor_start_def demo_mon_state_def)
  have "monitor_step demo_mon_world demo_monitor ?s
      (Ok (monitor_received (Ok ()) (Ok (fst demo_message, demo_client)) ?rs ?s))"
    by (rule listener_read[where env = demo_mon_env, OF _ _ r]) (simp_all add: demo_mon_world_def monitor_start_def)
  moreover have "monitor_received (Ok ()) (Ok (fst demo_message, demo_client)) ?rs ?s = demo_m1"
    by (simp add: monitor_received_def demo_m1_def monitor_start_def demo_mon_state_def demo_message_def demo_client_def)
  ultimately have 1: "monitor_step demo_mon_world demo_monitor ?s (Ok demo_m1)" by simp
  have 2: "monitor_step demo_mon_world demo_monitor demo_m1 (Ok demo_m2)"
    unfolding demo_m2_def by (rule listener_handle[where env = demo_mon_env])
      (simp_all add: demo_m1_def demo_mon_world_def monitor_start_def monitor_message_def Let_def)
  have 3: "monitor_step demo_mon_world demo_monitor demo_m2 (Ok demo_m3)"
    unfolding demo_m3_def by (rule cancel) (simp add: demo_m2_def monitor_handled_def demo_m1_def monitor_start_def)
  show "monitor_reaches demo_mon_world demo_monitor ?s demo_m2" "monitor_reaches demo_mon_world demo_monitor ?s demo_m3"
    by (rule monitor_reaches_trans[OF monitor_reaches_step[OF 2] monitor_reaches_step[OF 1]])
      (rule monitor_reaches_trans[OF monitor_reaches_step[OF 3]
          monitor_reaches_trans[OF monitor_reaches_step[OF 2] monitor_reaches_step[OF 1]]])
qed


section \<open>Reports\<close>

text \<open>
  C29: a monitor reports exactly the messages it handled, each once and in order: what it has done is the
  fold of its handler over them, each at its moment, the counter has grown by their number, and the
  callback has seen them all.
\<close>

theorem monitor_observes:
  assumes "monitor_reaches W m (monitor_start st) s"
  shows "(\<exists>msgs. map snd msgs = my_Handled s \<and> (\<forall>x \<in> set msgs. mw_Env W (fst x)) \<and>
      own_state (my_State s) = handle_all m msgs (own_state st)) \<and>
    counts ''MonMessagesReceivedTotal'' (ms_Metrics (my_State s)) =
      counts ''MonMessagesReceivedTotal'' (ms_Metrics st) + length (my_Handled s) \<and>
    ms_Seen (my_State s) = ms_Seen st @ (if mon_OnMessage m then map fst (my_Handled s) else [])"
proof -
  obtain msgs where msgs: "map snd msgs = my_Handled s" "\<forall>x \<in> set msgs. mw_Env W (fst x)"
      "own_state (my_State s) = handle_all m msgs (own_state st)"
    using reported_reaches[OF assms] by (auto simp: reported_def)
  have "ms_Metrics (own_state x) = own_metrics (ms_Metrics x)" "ms_Seen (own_state x) = ms_Seen x" for x
    by (simp_all add: own_state_def)
  then have "counts ''MonMessagesReceivedTotal'' (ms_Metrics (my_State s)) =
      counts ''MonMessagesReceivedTotal'' (ms_Metrics st) + length msgs"
    and "ms_Seen (my_State s) = ms_Seen st @ (if mon_OnMessage m then map (fst \<circ> snd) msgs else [])"
    using arg_cong[OF msgs(3), of "\<lambda>x. counts ''MonMessagesReceivedTotal'' (ms_Metrics x)"]
      arg_cong[OF msgs(3), of ms_Seen]
    by (simp_all add: handle_all_counts counts_own handle_all_seen)
  moreover have "length msgs = length (my_Handled s)" "map (fst \<circ> snd) msgs = map fst (my_Handled s)"
    using msgs(1) by (metis length_map, metis map_map)
  ultimately show ?thesis using msgs by metis
qed

theorem monitor_observes_witness:
  "my_Handled demo_m2 = [demo_message] \<and>
    counts ''MonMessagesReceivedTotal'' (ms_Metrics (my_State demo_m2)) = 1 \<and>
    ms_Seen (my_State demo_m2) = [RouterAdvertisement (demo_ra (1800 * Second) 7)]"
proof -
  have "my_Handled demo_m2 = [demo_message]" "mon_OnMessage demo_monitor"
    by (simp_all add: demo_m2_def monitor_handled_def demo_m1_def monitor_start_def demo_monitor_def)
  then show ?thesis
    using monitor_observes[OF demo_monitor_reaches(1)]
    by (simp add: demo_mon_state_def demo_message_def counts_def)
qed


section \<open>Ending\<close>

text \<open>
  C30: no step of a monitor panics; while its caller's context is alive it ends only for a change of the link,
  which the dialer recovers from; and once that context is canceled it can always return, from any
  state it can be in, unlike an advertiser.
\<close>

theorem monitor_can_always_end:
  assumes "monitor_reaches W m (monitor_start st) s" and "mw_Env W env"
  shows "(\<forall>q. monitor_step W m s q \<longrightarrow> \<not> is_Panic q) \<and>
    (monitor_returned s \<longrightarrow> my_Parent s = None \<longrightarrow>
      monitor_result s = Some (FmtW ''failed to run Monitor: %w'' (Sentinel ErrLinkChange)) \<and>
      recovery_of (FmtW ''failed to run Monitor: %w'' (Sentinel ErrLinkChange)) = Retry) \<and>
    (\<forall>c. my_Parent s = Some c \<longrightarrow>
      (\<exists>s'. monitor_reaches W m s s' \<and> monitor_returned s' \<and> my_Parent s' = Some c))"
proof -
  have ok: "monitor_ok s" by (rule monitor_ok_reaches[OF assms(1)])
  have "recovery_of (FmtW ''failed to run Monitor: %w'' (Sentinel ErrLinkChange)) = Retry" by (simp add: recovery_of_def)
  then show ?thesis
    using monitor_step_no_panic[OF ok] monitor_result_alive[OF ok] monitor_can_end[OF assms(2) ok] by blast
qed

theorem monitor_can_always_end_witness:
  "\<exists>s'. monitor_reaches demo_mon_world demo_monitor demo_m3 s' \<and> monitor_returned s' \<and>
    my_Parent s' = Some (Sentinel ContextCanceled)"
proof -
  have "my_Parent demo_m3 = Some (Sentinel ContextCanceled)" by (simp add: demo_m3_def)
  moreover have "mw_Env demo_mon_world demo_mon_env" by (simp add: demo_mon_world_def)
  ultimately show ?thesis using monitor_can_always_end[OF demo_monitor_reaches(2)] by blast
qed


section \<open>Restarts\<close>

text \<open>
  C31: over all its rounds a monitor leaves the state of the system alone, and it is ready once it was
  initialized for the first time, and not before.
\<close>

theorem monitor_leaves_system:
  assumes "monitor_Run ops denv d work st ds = Some (r, ds', st', n)" and "d_mode d = Monitor"
    and "monitor_runs W m work" and "\<not> is_Panic r"
  shows "ds_Sys ds' = ds_Sys ds \<and> (ms_Ready st' \<longleftrightarrow> ms_Ready st \<or> 0 < n)"
  using Dial_loop_monitor[OF assms(2) assms(1)[unfolded monitor_Run_def Dial_def] assms(4)]
    monitor_Run_ready[OF assms(1,4,3)] by blast

definition canceled_monitor :: "nat \<Rightarrow> monitor_run" where
  "canceled_monitor k st = ([None, None], Some (Sentinel ContextCanceled), st)"

lemma canceled_monitor_runs: "monitor_runs demo_mon_world demo_monitor canceled_monitor"
  unfolding monitor_runs_def
proof (intro allI)
  fix k st
  define s1 where "s1 = (monitor_start st)\<lparr>my_Parent := Some (Sentinel ContextCanceled), my_Canceled := True\<rparr>"
  define s2 where "s2 = monitor_received (Ok ()) (Err (Sentinel ContextCanceled)) (monitor_recv s1) s1"
  define s3 where "s3 = member_returns None (s2\<lparr>my_Watching := False\<rparr>)"
  note defs = s3_def s2_def s1_def monitor_start_def monitor_received_def monitor_recv_def member_returns_def Let_def
  have 1: "monitor_step demo_mon_world demo_monitor (monitor_start st) (Ok s1)"
    unfolding s1_def by (rule cancel) (simp add: monitor_start_def)
  have r: "receiveRetry (mw_ndp demo_mon_world) (me_TypeString demo_mon_env) (mon_iface demo_monitor) canceled_read
      (monitor_recv s1) = (Err (Sentinel ContextCanceled), monitor_recv s1)"
    by (simp add: receiveRetry_def recv_retries_def canceled_read_def eval_nat_numeral)
  have 2: "monitor_step demo_mon_world demo_monitor s1 (Ok s2)"
    unfolding s2_def by (rule listener_read[where env = demo_mon_env, OF _ _ r])
      (simp_all add: s1_def monitor_start_def demo_mon_world_def)
  have "linkStateWatcher True (Some 0) w (Ok ()) w" for w by (rule linkStateWatcher.canceled)
  then have "monitor_step demo_mon_world demo_monitor s2
      (Ok (member_returns (error_of (Ok ())) (s2\<lparr>my_Watching := False\<rparr>)))"
    by (intro watcher_return) (simp_all add: demo_mon_world_def defs)
  then have 3: "monitor_step demo_mon_world demo_monitor s2 (Ok s3)" by (simp add: s3_def)
  have "monitor_reaches demo_mon_world demo_monitor (monitor_start st) s3"
    by (rule monitor_reaches.step[OF monitor_reaches.step[OF monitor_reaches_step[OF 1] 2] 3])
  moreover have "monitor_returned s3 \<and> canceled_monitor k st = (my_Results s3, my_Parent s3, my_State s3)"
    by (simp add: monitor_returned_def canceled_monitor_def defs)
  ultimately show "\<exists>s. monitor_reaches demo_mon_world demo_monitor (monitor_start st) s \<and> monitor_returned s \<and>
      canceled_monitor k st = (my_Results s, my_Parent s, my_State s)" by blast
qed

definition demo_mon_dialer :: dialer where "demo_mon_dialer = \<lparr>d_iface = ''eth0'', d_mode = Monitor\<rparr>"

definition demo_monitoring :: "(unit outcome \<times> procfs dialer_state \<times> mon_state \<times> nat) option" where
  "demo_monitoring =
     monitor_Run systemState (\<lambda>_. demo_dial_env) demo_mon_dialer canceled_monitor demo_mon_state demo_dialer_state"

lemma demo_monitoring_end: "\<exists>ds'. demo_monitoring = Some (Ok (), ds', demo_mon_state\<lparr>ms_Ready := True\<rparr>, 1)"
proof -
  have dial: "\<exists>dctx ds1. dial systemState (\<lambda>_. demo_dial_env) demo_mon_dialer demo_dialer_state = (Ok dctx, ds1) \<and>
      dc_Restore dctx = None"
    by (simp add: dial_def Let_def demo_dial_env_def lookupInterface_def checkInterface_def eth0_def demo_check
        dialNDP_def demo_mon_dialer_def del: has_link_local.simps)
  then obtain dctx ds1 where d: "dialer_init systemState (\<lambda>_. demo_dial_env) demo_mon_dialer None demo_dialer_state =
      (Ok dctx, ds1)" "dc_Restore dctx = None" by (auto simp: dialer_init_def)
  have fn: "monitor_fn canceled_monitor dctx (demo_mon_state, 0) = (Ok (), demo_mon_state\<lparr>ms_Ready := True\<rparr>, 1)"
    by (simp add: monitor_fn_def monitor_Run_fn_def canceled_monitor_def monitor_group_def derived_Err_def)
  show ?thesis
    unfolding demo_monitoring_def monitor_Run_def Dial_def
      Dial_loop.simps[of systemState _ demo_mon_dialer "monitor_fn canceled_monitor" None] d(1) prod.case outcome.case fn
    by (simp add: dial_done_def d(2) Let_def)
qed

theorem monitor_leaves_system_witness:
  "\<exists>ds'. demo_monitoring = Some (Ok (), ds', demo_mon_state\<lparr>ms_Ready := True\<rparr>, 1) \<and>
    ds_Sys ds' = ds_Sys demo_dialer_state"
proof -
  obtain ds' where run: "demo_monitoring = Some (Ok (), ds', demo_mon_state\<lparr>ms_Ready := True\<rparr>, 1)"
    using demo_monitoring_end by blast
  have "d_mode demo_mon_dialer = Monitor" by (simp add: demo_mon_dialer_def)
  from monitor_leaves_system[OF run[unfolded demo_monitoring_def] this canceled_monitor_runs]
  have "ds_Sys ds' = ds_Sys demo_dialer_state" by simp
  then show ?thesis using run by blast
qed

end
