(* ===== verification/Wire_Limits.thy ===== *)
theory Wire_Limits
  imports Prepared Plugin_Properties
begin

text \<open>
  What may appear on the wire: the limits that every advertisement of a parsed configuration keeps, for its
  header and for each of its options.  The options of an interface are known only when an advertisement
  is generated, since the wildcards ask the kernel; that they keep the limits follows from what the
  parser checked and from what the addressers promise.  The limits are those that the code enforces: the
  parser takes any MTU up to 65536, NAT64 prefixes of either family, and negative lifetimes, which the
  limits therefore leave open.
\<close>

section \<open>The limits\<close>

text \<open>The prefix of an option, from its two fields.\<close>

definition option_prefix :: "addr \<Rightarrow> u8 \<Rightarrow> ipprefix" where
  "option_prefix ip len = Pfx ip (uint len)"

text \<open>Only the options that the configuration offers are sent, none with an empty list.\<close>

fun option_limits :: "ndp_option \<Rightarrow> bool" where
  "option_limits (PrefixInformationOpt p) \<longleftrightarrow>
     (let pfx = option_prefix (pi_Prefix p) (pi_PrefixLength p)
      in v6_prefix pfx \<and> pfx_Masked pfx = pfx \<and> \<not> pfx_IsSingleIP pfx) \<and>
     pi_PreferredLifetime p \<le> pi_ValidLifetime p"
| "option_limits (RouteInformationOpt r) \<longleftrightarrow>
     v6_prefix (option_prefix (ri_Prefix r) (ri_PrefixLength r)) \<and>
     ri_Preference r \<in> {PrefLow, PrefMedium, PrefHigh}"
| "option_limits (RecursiveDNSServerOpt r) \<longleftrightarrow> rd_Servers r \<noteq> [] \<and> (\<forall>s \<in> set (rd_Servers r). plain_v6 s)"
| "option_limits (DNSSearchListOpt d) \<longleftrightarrow> sl_DomainNames d \<noteq> [] \<and> distinct (sl_DomainNames d)"
| "option_limits (MTUOpt m) \<longleftrightarrow> 1 \<le> uint m \<and> uint m \<le> 65536"
| "option_limits (LinkLayerAddressOpt l) \<longleftrightarrow> ll_Direction l = SourceLL"
| "option_limits (PREF64Opt p) \<longleftrightarrow>
     pfx_IsValid (p64_Prefix p) \<and> 8 * Second dvd p64_Lifetime p \<and> 0 < p64_Lifetime p \<and>
     p64_Lifetime p \<le> 65528 * Second"
| "option_limits (CaptivePortalOpt u) \<longleftrightarrow> True"
| "option_limits (UnknownOpt t) \<longleftrightarrow> False"

definition header_limits :: "interface_config \<Rightarrow> router_advertisement \<Rightarrow> bool" where
  "header_limits c ra \<longleftrightarrow>
     (ra_RouterLifetime ra = 0 \<or>
        ci_MaxInterval c \<le> ra_RouterLifetime ra \<and> ra_RouterLifetime ra \<le> 9000 * Second) \<and>
     0 \<le> ra_ReachableTime ra \<and> ra_ReachableTime ra \<le> Hour \<and>
     0 \<le> ra_RetransmitTimer ra \<and> ra_RetransmitTimer ra \<le> Hour \<and>
     ra_RouterSelectionPreference ra \<in> {PrefLow, PrefMedium, PrefHigh}"

definition within_limits :: "interface_config \<Rightarrow> router_advertisement \<Rightarrow> bool" where
  "within_limits c ra \<longleftrightarrow> header_limits c ra \<and> (\<forall>p \<in> set (ra_Options ra). option_limits (snd p))"


section \<open>Prefixes\<close>

lemma v6_Masked:
  assumes "v6_prefix p"
  shows "v6_prefix (pfx_Masked p)" and "pfx_Masked (pfx_Masked p) = pfx_Masked p"
    and "pfx_Bits (pfx_Masked p) = pfx_Bits p"
  using assms by (auto simp: v6_prefix_def pfx_Masked_def keep_bits_idem)

lemma option_prefix_of:
  assumes "v6_prefix p"
  shows "option_prefix (pfx_Addr p) (of_int (pfx_Bits p)) = p"
  using assms by (auto simp: v6_prefix_def option_prefix_def unsigned_of_int take_bit_int_eq_self)

lemma prefix_current_v6:
  assumes "px_Addrs p = Some (AddrsByIndex i)" and "0 \<le> pfx_Bits (px_Prefix p)" and "pfx_Bits (px_Prefix p) < 128"
    and "prefix_current os p = Ok ps" and "q \<in> set ps"
  shows "v6_prefix q \<and> pfx_Masked q = q \<and> \<not> pfx_IsSingleIP q"
proof -
  obtain addrs where addrs: "AddressesByIndex os i = Ok addrs"
    using assms(1,4) by (auto simp: prefix_current_def call_addrs_def bindO_Ok_iff)
  then have "set ps = auto_prefixes (pfx_Bits (px_Prefix p)) (set addrs)"
    using prefix_current_facts(1)[of os p addrs ps] assms(1,4) by (simp add: call_addrs_def)
  then obtain a where a: "a \<in> set addrs" "q = pfx_Masked (ip_Address a)" "pfx_Bits (ip_Address a) = pfx_Bits (px_Prefix p)"
    using assms(5) by (auto simp: auto_prefixes_def)
  have "plain_v6 (pfx_Addr (ip_Address a))" "addr_Zone (pfx_Addr (ip_Address a)) = []"
    using rtnl.addresses_v6[OF addrs a(1)] rtnl.addresses_zone[OF addrs a(1)] by auto
  then have "v6_prefix (ip_Address a)"
    using a(3) assms(2,3) by (cases "ip_Address a"; cases "pfx_Addr (ip_Address a)")
      (auto simp: v6_prefix_def plain_v6_def)
  then show ?thesis
    using v6_Masked[of "ip_Address a"] a(2,3) assms(3) by (auto simp: pfx_IsSingleIP_def v6_prefix_def)
qed

lemma route_current_v6:
  assumes "ro_Routes r = Some RoutesOfLoopback" and "ro_Addrs r = Some (AddrsByIndex i)"
    and "route_current os r = Ok ps" and "q \<in> set ps"
  shows "v6_prefix q"
proof -
  obtain addrs routes where "ps = sort_key pfx_Addr (uncoveredPrefixes (coveringRoutes routes addrs))"
      "\<forall>p \<in> set (coveringRoutes routes addrs). v6_prefix p"
    using route_current_parts[OF assms(1-3)] .
  then show ?thesis using assms(4) by (auto simp: uncovered_set)
qed

lemma rdnss_loop_elem: "rdnss_loop b as \<in> insert b (set as)"
proof (induction b as rule: rdnss_loop.induct)
  case (2 best a as)
  have "betterRDNSS best a = best \<or> betterRDNSS best a = a"
    by (auto simp: betterRDNSS_def Let_def)
  then show ?case using 2 by auto
qed simp

lemma rdnss_current_v6:
  assumes "rs_Addrs r = Some (AddrsByIndex i)" and "rdnss_current os r = Ok ip"
  shows "plain_v6 ip"
proof -
  obtain addrs where a: "AddressesByIndex os i = Ok addrs" "ip = pfx_Addr (ip_Address (rdnss_loop zero_ip addrs))"
      "addr_IsValid ip"
    using assms by (auto simp: rdnss_current_def call_addrs_def bindO_Ok_iff Let_def split: if_splits)
  then have "rdnss_loop zero_ip addrs \<in> set addrs"
    using rdnss_loop_elem[of zero_ip addrs] by (auto simp: zero_ip_def pfx_zero_def)
  then show ?thesis using rtnl.addresses_v6[OF a(1)] a(2) by simp
qed


section \<open>Lifetimes\<close>

lemma prefix_lifetimes_order:
  assumes "px_PreferredLifetime p \<le> px_ValidLifetime p" and "prefix_lifetimes os p = Ok (valid, pref)"
  shows "pref \<le> valid"
  using assms
  by (auto simp: prefix_lifetimes_def bindO_Ok_iff time_Add_def intro!: remaining_mono split: if_splits)


section \<open>The options of a prepared plugin\<close>

lemma prefix_option_limits:
  assumes "v6_prefix q" and "pfx_Masked q = q" and "\<not> pfx_IsSingleIP q" and "pref \<le> valid"
  shows "option_limits (prefix_option p valid pref q)"
  using assms by (simp add: prefix_option_def option_prefix_of)

lemma prefix_options_limits:
  assumes "prefix_wf ndp epoch p" and "prefix_Prepare p ifi = Ok q" and "prefix_options os q = Ok opts"
    and "opt \<in> set opts"
  shows "option_limits opt"
proof -
  have wf: "v6_prefix (px_Prefix p)" "pfx_Masked (px_Prefix p) = px_Prefix p" "pfx_Bits (px_Prefix p) < 128"
    "px_PreferredLifetime p \<le> px_ValidLifetime p"
    using assms(1) unfolding prefix_wf_def by blast+
  have bits: "0 \<le> pfx_Bits (px_Prefix p)" using wf(1) by (auto simp: v6_prefix_def)
  have q: "px_Prefix q = px_Prefix p" "px_PreferredLifetime q = px_PreferredLifetime p"
    "px_ValidLifetime q = px_ValidLifetime p" "px_Addrs q = Some (AddrsByIndex (if_Index ifi))"
    using assms(2) by (auto simp: prefix_Prepare_def)
  obtain ps valid pref where o: "(if px_Auto q then prefix_current os q else Ok [px_Prefix q]) = Ok ps"
      "prefix_lifetimes os q = Ok (valid, pref)" "opts = map (prefix_option q valid pref) ps"
    using assms(3) by (auto simp: prefix_options_def bindO_Ok_iff)
  have "v6_prefix x \<and> pfx_Masked x = x \<and> \<not> pfx_IsSingleIP x" if "x \<in> set ps" for x
  proof (cases "px_Auto q")
    case True
    then show ?thesis using prefix_current_v6[OF q(4) _ _ _ that] o(1) wf(3) bits q(1) by simp
  next
    case False
    then show ?thesis using o(1) that wf(1-3) q(1) by (auto simp: pfx_IsSingleIP_def v6_prefix_def)
  qed
  moreover have "pref \<le> valid" using prefix_lifetimes_order[OF _ o(2)] wf(4) q by simp
  ultimately show ?thesis using assms(4) o(3) prefix_option_limits by auto
qed

lemma route_options_limits:
  assumes "route_wf ndp epoch r" and "route_Prepare r ifi = Ok q" and "route_options os q = Ok opts"
    and "opt \<in> set opts"
  shows "option_limits opt"
proof -
  have q: "ro_Prefix q = ro_Prefix r" "ro_Preference q = ro_Preference r" "ro_Routes q = Some RoutesOfLoopback"
    "ro_Addrs q = Some (AddrsByIndex (if_Index ifi))"
    using assms(2) by (auto simp: route_Prepare_def)
  obtain ps lt where o: "(if ro_Auto q then route_current os q else Ok [ro_Prefix q]) = Ok ps"
      "opts = map (route_option q lt) ps"
    using assms(3) by (auto simp: route_options_def bindO_Ok_iff)
  have "v6_prefix x" if "x \<in> set ps" for x
  proof (cases "ro_Auto q")
    case True
    then show ?thesis using route_current_v6[OF q(3,4) _ that] o(1) by simp
  next
    case False
    then show ?thesis using o(1) that assms(1) q(1) by (auto simp: route_wf_def)
  qed
  then show ?thesis
    using assms(1,4) o(2) q(2) by (auto simp: route_option_def option_prefix_of route_wf_def)
qed

lemma rdnss_options_limits:
  assumes "rdnss_wf r" and "rdnss_Prepare r ifi = Ok q" and "rdnss_options os q = Ok opts" and "opt \<in> set opts"
  shows "option_limits opt"
proof -
  have q: "rs_Servers q = rs_Servers r" "rs_Auto q = rs_Auto r" "rs_Addrs q = Some (AddrsByIndex (if_Index ifi))"
    using assms(2) by (auto simp: rdnss_Prepare_def)
  have wf: "\<forall>a \<in> set (rs_Servers r). plain_v6 a" "rs_Servers r = [] \<longrightarrow> rs_Auto r"
    using assms(1) by (auto simp: rdnss_wf_def plain_server_def plain_v6_def)
  show ?thesis
    using assms(3,4) wf q rdnss_current_v6[OF q(3)]
    by (auto simp: rdnss_options_def bindO_Ok_iff split: if_splits)
qed

lemma pref64_lifetime_limits:
  assumes "4 * Second \<le> mx" and "mx \<le> 1800 * Second"
  shows "8 * Second dvd pref64_lifetime mx \<and> 0 < pref64_lifetime mx \<and> pref64_lifetime mx \<le> 65528 * Second"
proof -
  have "4 \<le> mx div Second" using assms by simp
  then show ?thesis using pref64_lifetime_spec[of mx] assms by simp
qed

lemma plugin_options_limits:
  assumes "plugin_wf ndp epoch p" and "plugin_Prepare p ifi = Ok q" and "plugin_options os q = Ok opts"
    and "opt \<in> set opts"
  shows "option_limits opt"
proof (cases p)
  case (MTUP m)
  then have "opt = MTUOpt (of_int m)" "1 \<le> m" "m \<le> 65536" using assms by auto
  moreover from this have "uint (of_int m :: u32) = m" by (simp add: unsigned_of_int take_bit_int_eq_self)
  ultimately show ?thesis by simp
next
  case (PrefixP x)
  then show ?thesis using assms prefix_options_limits by (auto simp: bindO_Ok_iff)
next
  case (RouteP x)
  then show ?thesis using assms route_options_limits by (auto simp: bindO_Ok_iff)
next
  case (RDNSSP x)
  then show ?thesis using assms rdnss_options_limits by (auto simp: bindO_Ok_iff)
next
  case (PREF64P x)
  then obtain o' mx where o: "opt = PREF64Opt o'" "pfx_IsValid (p64_Prefix o')" "p64_Lifetime o' = pref64_lifetime mx"
      "4 * Second \<le> mx" "mx \<le> 1800 * Second"
    using assms by auto
  then show ?thesis using pref64_lifetime_limits[OF o(4,5)] by simp
qed (use assms in \<open>auto simp: lla_Prepare_def split: option.splits\<close>)


section \<open>The advertisement of a prepared interface\<close>

lemma header_limits:
  assumes "interface_wf ndp epoch c" and "\<not> ci_Monitor c"
    and "advertised_header env (c\<lparr>ci_Plugins := ps, ci_DefaultLifetime := lt\<rparr>) ra"
    and "lt = ci_DefaultLifetime c \<or> lt = 0"
  shows "header_limits c ra"
proof -
  let ?c = "c\<lparr>ci_Plugins := ps, ci_DefaultLifetime := lt\<rparr>"
  obtain fw where h: "ra_header ra = ra_header ((base_ra ?c)\<lparr>ra_RouterLifetime := effective_lifetime ?c fw\<rparr>)"
    using assms(3) by (auto simp: advertised_header_def)
  have f: "ra_RouterLifetime ra = effective_lifetime ?c fw" "ra_ReachableTime ra = ci_ReachableTime c"
    "ra_RetransmitTimer ra = ci_RetransmitTimer c" "ra_RouterSelectionPreference ra = ci_Preference c"
    using h by (cases ra; simp add: ra_header_def base_ra_def)+
  have "ra_RouterLifetime ra = 0 \<or> ra_RouterLifetime ra = ci_DefaultLifetime c"
    using f(1) assms(4) by (auto simp: effective_lifetime_def)
  then show ?thesis using assms(1,2) f(2-4) by (auto simp: header_limits_def interface_wf_def)
qed

lemma options_limits:
  assumes "\<forall>p \<in> set (ci_Plugins c). plugin_wf ndp epoch p" and "prepare_plugins ifi (ci_Plugins c) = Ok ps"
    and "advertised_options env (c\<lparr>ci_Plugins := ps, ci_DefaultLifetime := lt\<rparr>) ra"
    and "q \<in> set (ra_Options ra)"
  shows "option_limits (snd q)"
proof -
  obtain optss where o: "mapO (plugin_options (ae_os env)) ps = Ok optss" "map snd (ra_Options ra) = concat optss"
    using assms(3) by (auto simp: advertised_options_def)
  have "snd q \<in> set (concat optss)" using assms(4) o(2)[symmetric] by simp
  then obtain opts where opts: "opts \<in> set optss" "snd q \<in> set opts" by auto
  then obtain p' where p': "p' \<in> set ps" "plugin_options (ae_os env) p' = Ok opts"
    using mapO_Ok_set[OF o(1)] by blast
  then obtain p where "p \<in> set (ci_Plugins c)" "plugin_Prepare p ifi = Ok p'"
    using prepare_plugins_mem[OF assms(2)] by blast
  then show ?thesis using plugin_options_limits p'(2) opts(2) assms(1) by blast
qed

lemma advertised_within_limits:
  assumes "interface_wf ndp epoch c" and "\<not> ci_Monitor c" and "prepare_plugins ifi (ci_Plugins c) = Ok ps"
    and "lt = ci_DefaultLifetime c \<or> lt = 0"
    and "advertised_header env (c\<lparr>ci_Plugins := ps, ci_DefaultLifetime := lt\<rparr>) ra"
    and "advertised_options env (c\<lparr>ci_Plugins := ps, ci_DefaultLifetime := lt\<rparr>) ra"
  shows "within_limits c ra"
  using header_limits[OF assms(1,2,5,4)] options_limits[OF _ assms(3,6)] assms(1,2)
  by (auto simp: within_limits_def interface_wf_def plugins_wf_def)

end
