(* ===== verification/Spec2Isabelle.thy ===== *)
theory Spec2Isabelle
  imports Plugin_Properties Config_Properties Corerad_Properties System_Properties Service_Properties
    Daemon_Properties Monitor_Properties Wire_Limits
begin

text \<open>
  CoreRAD is a daemon that sends IPv6 router advertisements and monitors those of other routers.  This
  development models the Go packages under \<open>src/internal\<close> and the command \<open>src/cmd/corerad\<close>, and proves
  what they promise each other.

  \<^bold>\<open>How the program works.\<close>  \<open>main\<close> writes a minimal configuration, or parses one and serves its tasks
  (\<open>Server.Serve\<close>).  \<open>config.Parse\<close> turns a TOML file into interfaces, each with a list of
  plugins.  \<open>Server.BuildTasks\<close> makes a task for every interface: an \<open>Advertiser\<close> or a \<open>Monitor\<close>, both run
  by a \<open>Dialer\<close> that opens the connection, changes the autoconfiguration of the interface, and starts
  over after errors it can recover from.  An advertiser prepares the plugins, generates an advertisement
  from them (\<open>Interface.RouterAdvertisement\<close>), sends it on its own initiative (\<open>multicast\<close>) or when asked
  (\<open>handle\<close>), through a scheduler (\<open>schedule\<close>) that keeps the messages apart, and compares the
  advertisements of other routers with its own (\<open>verifyRAs\<close>).  A \<open>listener\<close> feeds both kinds of task.  The
  \<open>netstate.Watcher\<close> tells a task that its link went down.  A scrape of the metrics and the debug HTTP
  handler generate advertisements of their own, to show them.

  \<^bold>\<open>Theories and sources.\<close>

  Go: \<open>Prelude\<close> (errors as values with \<open>errors.Is\<close> and \<open>errors.As\<close>; the outcome of a call is a result, an
  error or a panic), \<open>GoTime\<close> (64-bit durations that wrap, binary64 as a significand and an exponent,
  instants), \<open>GoSeconds\<close>, \<open>GoDuration\<close> (\<open>time.ParseDuration\<close>), \<open>Netip\<close> and \<open>NetipText\<close> (\<open>net/netip\<close>),
  \<open>GoFmt\<close> (\<open>%q\<close>, \<open>Duration.String\<close>), \<open>Errgroup\<close>.

  Dependencies: \<open>Ndp\<close> has the data types of package \<open>ndp\<close> by the fields the program uses.  What the
  program asks of \<open>ndp\<close> is the record \<open>ndp_pkg\<close>, a parameter.  Options are pointers in Go, and two
  comparisons are of the pointers; an option is a pair of its address and its value, and the allocator is
  a number that is passed along.

  \<open>plugin/plugin.go\<close>: \<open>Plugin\<close>.  \<open>Plugin_Contract\<close> states what \<open>Apply\<close> owes its caller as the locale
  \<open>option_source\<close>, interpreted for the plugins.  \<open>Prefix_Selection\<close>, \<open>Route_Selection\<close> and
  \<open>Rdnss_Selection\<close> have the facts about the three wildcards; the last is an instance of choosing the least
  element by pairwise comparison (locale \<open>min_selection\<close>).  \<open>Plugin_Text\<close> has the \<open>String\<close> methods.

  \<open>config/*.go\<close>: \<open>Config\<close> (data, generation), \<open>Config_Parse\<close> (everything from \<open>Parse\<close> on),
  \<open>Config_Invariant\<close> (what a parsed file guarantees).  The TOML decoder is a parameter that gives the raw
  file or an error.

  \<open>system/*.go\<close>: \<open>Addresser\<close> (both addressers are instances of the locale \<open>addresser\<close>), \<open>SysState\<close> (\<open>State\<close>,
  procfs and \<open>TestState\<close>, with the locale \<open>state_laws\<close>), \<open>Dialer\<close> and \<open>Dialer_Facts\<close>.

  \<open>corerad/*.go\<close>: \<open>Verify\<close> and \<open>Verify_Facts\<close> (the four pairwise checks are instances of the locale
  \<open>pair_check\<close>), \<open>Advertise\<close> and \<open>Advertise_Facts\<close>, \<open>Listener\<close>, \<open>Monitor\<close>, \<open>Metric\<close>, \<open>Metrics\<close> and
  \<open>Metric_Labels\<close>, \<open>Server\<close> and \<open>Server_Facts\<close>.  \<open>Prepared\<close> joins plugins, configuration and advertiser.
  \<open>Advertise_System\<close> is \<open>Advertiser.advertise\<close> with all its goroutines; \<open>System_Facts\<close> has its invariants
  and shows that it simulates an abstract broker of requests (locale \<open>simulation\<close>), \<open>System_Runs\<close> that no
  step panics and when a run can end.  \<open>Advertiser_Run\<close> is \<open>Advertiser.Run\<close>, the rounds of an advertiser that
  the dialer restarts.  \<open>Monitor_System\<close> is \<open>Monitor.monitor\<close> with its goroutines and \<open>Monitor.Run\<close>.
  \<open>Serve_System\<close> is \<open>Server.Serve\<close> with all its tasks.  \<open>Wire_Limits\<close> lists the limits that an advertisement
  of a parsed configuration keeps, as far as the code has them.

  \<open>netstate/*.go\<close>: \<open>Netstate\<close> and \<open>Netstate_Facts\<close>.  \<open>crhttp/*.go\<close>: \<open>Crhttp\<close>.
  \<open>cmd/corerad/main.go\<close>, \<open>build/build.go\<close> and \<open>corerad/context.go\<close>: \<open>Command\<close>.

  The properties are in \<open>Plugin_Properties\<close>, \<open>Config_Properties\<close>, \<open>Corerad_Properties\<close>,
  \<open>Advertiser_Properties\<close>, \<open>System_Properties\<close>, \<open>Monitor_Properties\<close>, \<open>Service_Properties\<close>,
  \<open>Daemon_Properties\<close> and here;
  \<open>Examples\<close> has the host on which they are instantiated.

  \<^bold>\<open>Correspondence.\<close>  A Go function is a definition of its name; a method carries the name of its type
  where that is ambiguous.  A struct is a record, an interface with known implementations a datatype, a
  pointer that may be nil an \<open>option\<close>.  A receiver that is changed is a state that is passed and returned.
  A returned error is \<open>Err\<close>, a panic \<open>Panic\<close>, and both carry the format string of the source.  A Go map
  that is ranged over is an association list in the order of the visit, and the facts hold for any.

  \<^bold>\<open>Concurrency.\<close>  Each goroutine is a definition of its own, over the sequence of events it sees: the
  requests that reach the scheduler, the reads of the listener, the answers of netlink, the results of
  a group in the order in which its members return.  Where goroutines meet, they are put together in a
  step relation whose states hold the channels with their capacities, the context and the results of
  the group: \<open>advertise_step\<close> for those of an advertiser, \<open>monitor_step\<close> for those of a monitor,
  \<open>serve_step\<close> for the tasks of the server.  A step is one goroutine up to its next operation that another
  can see; a \<open>select\<close> has a rule for each case
  that can be ready (so has \<open>linkStateWatcher\<close>), a send outside of a \<open>select\<close> only the one that needs
  room.  The properties hold in every state that can be reached, so for every interleaving.  What the
  scheduling library does between a request and its worker is a step that may happen at any time from
  the due time on, also after the scheduler has returned.

  \<^bold>\<open>Bounds.\<close>  The loops with a count in the source have that count: 1 + 50 dials in an initialization, 5
  reads in \<open>receiveRetry\<close>, 40 attempts of the HTTP task, buffers of 8 changes, a channel of 16 requests.
  The generator is followed for any number \<open>n\<close> of iterations, and the properties hold for every \<open>n\<close>.  The
  loops that may run forever, \<open>Listener.Listen\<close> and \<open>Dialer.Dial\<close>, are partial functions; \<open>dial_terminates\<close>,
  \<open>Listen_returns\<close> and \<open>invalid_messages_end_listener\<close> show when they return.  Of a step relation,
  \<open>shutdown_can_complete\<close>, \<open>shutdown_can_block\<close> and \<open>monitor_can_always_end\<close> show when it can end and when
  it cannot.

  \<^bold>\<open>What the groups of properties show.\<close>  Parsing follows no nil pointer, and a file that parses gives
  interfaces in the ranges of the RFC with disjoint prefixes.  Such an interface, once prepared,
  generates advertisements without a panic (except that the wildcard route panics on a default route of a
  loopback interface), with exactly the configured contents, never as a default router when
  it does not forward.  The wildcards expand to what the comments of the code say; the lifetimes of a
  deprecated prefix count down by the second.  The dialer returns once no dial succeeds any more, starts
  over after exactly the failures it can recover from, and leaves the system as it found it.  The
  generator, the scheduler and the message handler answer in the intervals of the RFC, and together they
  neither panic nor lose a request; what they send is the configuration, prepared for the interface
  that the dial of the round found, within the limits that \<open>Wire_Limits\<close> lists.  Two advertisements
  agree exactly when the values they share do, and no MTU and no captive portal is carried by both.  A
  monitor reports each message once, changes nothing, and can
  always be stopped.  A link that goes down restarts its task, a signal decides about the last
  advertisement, and the program ends only for a signal or an error.  Metrics and HTTP handler show what
  is advertised, each item once, with the labels that are registered, and a lifetime that is printed
  can be configured again.  Some properties are about what the code gets wrong: the
  minimum distance of multicast advertisements is lost after every delayed one, equal MTUs are reported as inconsistent,
  a socket is leaked, invalid messages end the listener, whose errors are not returned, an advertiser may
  never return from a shutdown, and the metrics and the HTTP handler panic for interfaces that are not
  prepared or have a NAT64 prefix.

  \<^bold>\<open>Not modelled.\<close>  Logging, the encoding of messages on the wire, TOML and JSON, the storage of the
  metrics, the Prometheus and pprof handlers, the registration of signals: these belong to libraries,
  and what the code needs of them is a parameter.  \<open>crtest\<close> runs shell commands for the tests.  The time
  a call takes and the scheduling of goroutines appear only as the order and the times of the events.
\<close>

section \<open>From the configuration to the advertisement\<close>

text \<open>
  An interface of a parsed configuration can always be prepared, and once it is, generating its
  advertisement yields the advertisement or an error, never a panic, whatever well-formed messages the
  kernel answers with and at any time.
\<close>

theorem prepared_interface_generates:
  assumes "Parse ndp resolve decoded epoch h = Ok (cfg, h')" and "epoch \<noteq> 0"
    and "c \<in> set (cfg_Interfaces cfg)" and "os_wellformed os"
  shows "\<exists>ps. prepare_plugins ifi (ci_Plugins c) = Ok ps \<and>
    (\<forall>forwarding k. \<not> is_Panic (RouterAdvertisement_of os (c\<lparr>ci_Plugins := ps\<rparr>) forwarding k))"
proof -
  obtain ps where ps: "prepare_plugins ifi (ci_Plugins c) = Ok ps" using prepare_plugins_Ok by blast
  have wf: "\<forall>p \<in> set (ci_Plugins c). plugin_wf ndp epoch p"
    using Parse_ok[OF assms(1)] assms(3)
    by (auto simp: interface_ok_def interface_wf_def plugins_wf_def split: if_splits)
  have "\<forall>p \<in> set ps. ready p"
    using prepare_plugins_mem[OF ps] wf plugin_Prepare_ready[OF _ _ assms(2)] by blast
  then have "\<not> is_Panic (RouterAdvertisement_of os (c\<lparr>ci_Plugins := ps\<rparr>) forwarding k)" for forwarding k
    using os_wellformed_answers[OF assms(4)] by (intro ready_generates) simp_all
  then show ?thesis using ps by blast
qed

theorem prepared_interface_generates_witness:
  "\<exists>ps. prepare_plugins eth0 (ci_Plugins demo_first) = Ok ps \<and>
    \<not> is_Panic (RouterAdvertisement_of (host host_addrs 5) (demo_first\<lparr>ci_Plugins := ps\<rparr>) True 7)"
  using prepared_interface_generates[OF demo_parse _ demo_first_mem host_wellformed, of eth0] by fastforce

text \<open>
  C35: before the interface is prepared, a wildcard prefix has no functions to call: a scrape of the
  metrics or a request for the interfaces then panics, which nothing prevents, since both are served
  from the start while preparation waits for the interface.
\<close>

theorem unprepared_wildcard_panics:
  assumes "Parse ndp resolve decoded epoch h = Ok (cfg, h')" and "cfg_Interfaces cfg = c # cs"
    and "ci_Advertise c" and "ci_Plugins c = PrefixP p # ps" and "px_Auto p"
    and "st_IPv6Autoconf st w (ci_Name c) = Ok auto" and "st_IPv6Forwarding st w (ci_Name c) = Ok fwd"
  shows "is_Panic (fst (constScrape os st w metrics (cfg_Interfaces cfg) k)) \<and>
    is_Panic (interfaces os st w (cfg_Interfaces cfg) k)"
proof -
  have "interface_ok ndp epoch h' c" using Parse_ok[OF assms(1)] assms(2) by simp
  then have "px_Addrs p = None"
    using assms(4) by (auto simp: interface_ok_def interface_wf_def plugins_wf_def prefix_wf_def split: if_splits)
  then have ra: "is_Panic (RouterAdvertisement_of os c fwd k)"
    by (rule unprepared_prefix_panics[OF assms(4,5)])
  have "is_Panic (scrape_context os st w c k)"
    using ra assms(3,6,7) by (simp add: scrape_context_def bindO_Panic_iff)
  moreover have "is_Panic (interface_body os st w c k)"
    using ra assms(3,7) by (simp add: interface_body_def bindO_Panic_iff)
  ultimately show ?thesis
    by (cases "scrape_context os st w c k"; cases "interface_body os st w c k")
      (auto simp: assms(2) interfaces_def)
qed

lemma demo_wildcard:
  "case cfg_Interfaces (fst demo_config) of
     c # cs \<Rightarrow> ci_Advertise c \<and> (case ci_Plugins c of PrefixP p # ps \<Rightarrow> px_Auto p | _ \<Rightarrow> False)
   | [] \<Rightarrow> False"
  by code_simp

theorem unprepared_wildcard_panics_witness:
  "is_Panic (fst (constScrape (host host_addrs 5) TestState demo_test_state (\<lambda>_. const_gauges)
      (cfg_Interfaces (fst demo_config)) 7)) \<and>
    is_Panic (interfaces (host host_addrs 5) TestState demo_test_state (cfg_Interfaces (fst demo_config)) 7)"
proof -
  obtain c cs p ps where c: "cfg_Interfaces (fst demo_config) = c # cs" "ci_Advertise c"
      "ci_Plugins c = PrefixP p # ps" "px_Auto p"
    using demo_wildcard by (auto split: list.splits plugin.splits)
  have "st_IPv6Autoconf TestState demo_test_state (ci_Name c) = Ok False"
    "st_IPv6Forwarding TestState demo_test_state (ci_Name c) = Ok False"
    by (simp_all add: TestState_def test_IPv6Autoconf_def test_IPv6Forwarding_def demo_test_state_def with_error_def)
  from unprepared_wildcard_panics[OF demo_parse c this] show ?thesis .
qed

text \<open>
  A default route of the loopback interface makes the wildcard route panic: the message of a default
  route carries no destination, which the addresser takes for a broken message.
\<close>

theorem loopback_default_route_panics:
  assumes "ro_Routes r = Some RoutesOfLoopback" and "ro_Addrs r \<noteq> None"
    and "os_Interfaces os = Ok (lo # ifs)" and "if_Loopback lo" and "if_Up lo"
    and "os_Execute os (RTM_GETROUTE AF_INET6 (of_int (if_Index lo)) RT_TABLE_MAIN) = Ok ms"
    and "RouteMsg rm \<in> set ms" and "rm_Dst rm = []"
  shows "is_Panic (route_current os r)"
proof -
  have "is_Panic (message_route (RouteMsg rm))"
    using assms(8) by (simp add: message_route_panics)
  moreover have not_Err: "message_route m \<noteq> Err e" for m e
    by (cases m) (auto simp: message_route_def split: option.splits)
  ultimately have "is_Panic (mapO message_route ms)"
    using assms(7)
  proof (induction ms)
    case (Cons m ms)
    then show ?case by (cases "message_route m") (auto simp: bindO_Panic_iff)
  qed simp
  then have "is_Panic (routesByIndex os (if_Index lo))" using assms(6) by (simp add: routesByIndex_def)
  then have "is_Panic (LoopbackRoutes os)"
    using assms(3-5) by (simp add: LoopbackRoutes_def loopback_iteration_def bindO_Panic_iff)
  then show ?thesis using assms(1,2) by (simp add: route_current_def call_routes_def bindO_Panic_iff)
qed

definition default_route_host :: os where
  "default_route_host = (host host_addrs 5)\<lparr>os_Execute := (\<lambda>_. Ok [route_msg [] 0])\<rparr>"

theorem loopback_default_route_panics_witness: "is_Panic (route_current default_route_host auto_route)"
  by (rule loopback_default_route_panics[where lo = loopback and ifs = "[eth0]" and ms = "[route_msg [] 0]"
        and rm = "\<lparr>rm_Family = AF_INET6, rm_DstLength = 0, rm_Dst = [], rm_OutIface = 1, rm_Pref = None\<rparr>"])
    (simp_all add: auto_route_def default_route_host_def host_def loopback_def route_msg_def)


section \<open>Other routers\<close>

lemma pickFirst_Some: "as (snd q) = Some v \<Longrightarrow> q \<in> set ps \<Longrightarrow> \<exists>r \<in> set ps. \<exists>w. pickFirst as ps = Some (fst r, w) \<and> as (snd r) = Some w"
  by (induction ps) (auto split: option.splits)

text \<open>The MTU option of a generated advertisement is allocated for it.\<close>

lemma own_mtu_fresh:
  assumes g: "RouterAdvertisement_of os cfg fw h = Ok (want, ms, h')" and "MTUP m \<in> set (ci_Plugins cfg)"
    and "\<forall>p \<in> set (ci_Plugins cfg). \<forall>q \<in> set (plugin_owned p). as_MTU (snd q) = None"
  shows "\<exists>y w. pickFirst as_MTU (ra_Options want) = Some (y, w) \<and> h \<le> y"
proof -
  obtain optss where o: "mapO (plugin_options os) (ci_Plugins cfg) = Ok optss" "map snd (ra_Options want) = concat optss"
    using RouterAdvertisement_facts(3)[OF g] by auto
  have "[MTUOpt (of_int m)] \<in> set optss" using mapO_mem[OF o(1) assms(2)] by simp
  then have "MTUOpt (of_int m) \<in> set (map snd (ra_Options want))" unfolding o(2) by force
  then obtain x where "x \<in> set (ra_Options want)" "as_MTU (snd x) = Some (of_int m)" by auto
  then obtain y w where y: "y \<in> set (ra_Options want)" "pickFirst as_MTU (ra_Options want) = Some (fst y, w)"
      "as_MTU (snd y) = Some w"
    using pickFirst_Some[of as_MTU x "of_int m"] by blast
  have "\<not> (\<exists>p \<in> set (ci_Plugins cfg). y \<in> set (plugin_owned p))" using assms(3) y(3) by fastforce
  then have "h \<le> fst y" using RouterAdvertisement_fresh[OF g y(1)] by auto
  then show ?thesis using y(2) by blast
qed

text \<open>
  C36: an advertiser with an MTU reports every other router that advertises an MTU as inconsistent, even
  when the two are equal: the options are compared by address, and the own one is always new.
\<close>

theorem equal_mtu_reported:
  assumes "Parse ndp resolve decoded epoch h = Ok (cfg, h')" and "c \<in> set (cfg_Interfaces cfg)"
    and "MTUP m \<in> set (ci_Plugins c)" and "prepare_plugins ifi (ci_Plugins c) = Ok ps"
    and "adv_cfg a = c\<lparr>ci_Plugins := ps\<rparr>" and "buildRA env (adv_cfg a) s = (Ok want, t)"
    and "opts_below (av_Heap s) (ra_Options ra)" and "q \<in> set (ra_Options ra)" and "snd q = MTUOpt v"
    and "handle env a (RouterAdvertisement ra) peer s = (r, s')"
  shows "counts ''AdvRouterAdvertisementInconsistenciesTotal'' (av_Metrics s') \<noteq>
    counts ''AdvRouterAdvertisementInconsistenciesTotal'' (av_Metrics s)"
proof -
  have wf: "\<forall>p \<in> set (ci_Plugins c). plugin_wf ndp epoch p"
    using Parse_ok[OF assms(1)] assms(2)
    by (auto simp: interface_ok_def interface_wf_def plugins_wf_def split: if_splits)
  have "as_MTU (snd q) = None" if "p \<in> set ps" "q \<in> set (plugin_owned p)" for p q
    using that prepare_plugins_mem[OF assms(4)] wf owned_not_MTU plugin_Prepare_owned by metis
  then have owned: "\<forall>p \<in> set (ci_Plugins (adv_cfg a)). \<forall>q \<in> set (plugin_owned p). as_MTU (snd q) = None"
    by (auto simp: assms(5))
  have mtu: "MTUP m \<in> set (ci_Plugins (adv_cfg a))" using prepare_plugins_image[OF assms(4,3)] by (auto simp: assms(5))
  obtain fw ms k where "RouterAdvertisement_of (ae_os env) (adv_cfg a) fw (av_Heap s) = Ok (want, ms, k)"
    using buildRA_generates[OF assms(6)] by blast
  from own_mtu_fresh[OF this mtu owned] obtain y w where
    y: "pickFirst as_MTU (ra_Options want) = Some (y, w)" "av_Heap s \<le> y" by blast
  obtain z u where z: "z \<in> set (ra_Options ra)" "pickFirst as_MTU (ra_Options ra) = Some (fst z, u)"
    using pickFirst_Some[of as_MTU q v, OF _ assms(8)] assms(9) by auto
  have "fst z < av_Heap s" using assms(7) z(1) by (auto simp: opts_below_def)
  then have "\<not> same_object as_MTU want ra" using y z(2) by (auto simp: pickFirst_same)
  then show ?thesis using handle_ra(3)[OF assms(10,6)] by (simp add: consistent_def)
qed

definition demo_prepared :: interface_config where
  "demo_prepared = demo_first\<lparr>ci_Plugins :=
     (case prepare_plugins eth0 (ci_Plugins demo_first) of Ok ps \<Rightarrow> ps | _ \<Rightarrow> [])\<rparr>"

definition other_ra :: router_advertisement where
  "other_ra = (base_ra demo_interface)\<lparr>ra_Options := [(3, MTUOpt 1500)]\<rparr>"

lemma demo_prepared_checks:
  "MTUP 1500 \<in> set (ci_Plugins demo_first) \<and> is_Ok (fst (buildRA demo_env demo_prepared demo_state))"
  by code_simp

theorem equal_mtu_reported_witness:
  "counts ''AdvRouterAdvertisementInconsistenciesTotal''
      (av_Metrics (snd (handle demo_env (NewAdvertiser demo_prepared) (RouterAdvertisement other_ra) demo_client demo_state))) \<noteq>
    counts ''AdvRouterAdvertisementInconsistenciesTotal'' (av_Metrics demo_state)"
proof -
  obtain ps where ps: "prepare_plugins eth0 (ci_Plugins demo_first) = Ok ps" using prepare_plugins_Ok by blast
  have cfg: "adv_cfg (NewAdvertiser demo_prepared) = demo_first\<lparr>ci_Plugins := ps\<rparr>"
    by (simp add: NewAdvertiser_def demo_prepared_def ps)
  have dp: "demo_prepared = demo_first\<lparr>ci_Plugins := ps\<rparr>" by (simp add: demo_prepared_def ps)
  obtain want t where b: "buildRA demo_env (adv_cfg (NewAdvertiser demo_prepared)) demo_state = (Ok want, t)"
    using demo_prepared_checks unfolding dp[symmetric] cfg[folded dp]
    by (cases "buildRA demo_env demo_prepared demo_state") (auto simp: is_Ok_iff)
  have mtu: "MTUP 1500 \<in> set (ci_Plugins demo_first)" using demo_prepared_checks by blast
  have q: "(3, MTUOpt 1500) \<in> set (ra_Options other_ra)" "opts_below (av_Heap demo_state) (ra_Options other_ra)"
    by (simp_all add: other_ra_def demo_state_def)
  show ?thesis
    by (rule equal_mtu_reported[OF demo_parse demo_first_mem mtu ps cfg b q(2) q(1) _ prod.collapse[symmetric]]) simp
qed


section \<open>Observation\<close>

text \<open>
  The interfaces resource of the HTTP handler panics as soon as the first interface advertises a
  NAT64 prefix: the handler knows no such option.
\<close>

theorem http_panics_on_pref64:
  assumes "Parse ndp resolve decoded epoch h = Ok (cfg, h')" and "c \<in> set (cfg_Interfaces cfg)"
    and "PREF64P p \<in> set (ci_Plugins c)" and "prepare_plugins ifi (ci_Plugins c) = Ok ps"
    and "ci_Advertise c" and "st_IPv6Forwarding st w (ci_Name c) = Ok fwd"
    and "RouterAdvertisement_of os (c\<lparr>ci_Plugins := ps\<rparr>) fwd k = Ok (ra, ms, k')"
  shows "is_Panic (interfaces os st w (c\<lparr>ci_Plugins := ps\<rparr> # cs) k)"
proof -
  have "\<forall>p \<in> set (ci_Plugins c). plugin_wf ndp epoch p"
    using Parse_ok[OF assms(1)] assms(2)
    by (auto simp: interface_ok_def interface_wf_def plugins_wf_def split: if_splits)
  then have "plugin_wf ndp epoch (PREF64P p)" using assms(3) by blast
  then obtain x where x: "snd (pf_Inner p) = PREF64Opt x" by auto
  have "PREF64P p \<in> set ps" using prepare_plugins_image[OF assms(4,3)] by auto
  moreover obtain optss where o: "mapO (plugin_options os) ps = Ok optss" "map snd (ra_Options ra) = concat optss"
    using RouterAdvertisement_facts(3)[OF assms(7)] by auto
  ultimately have "[PREF64Opt x] \<in> set optss" using mapO_mem[OF o(1)] x by simp
  then have "PREF64Opt x \<in> set (map snd (ra_Options ra))" unfolding o(2) by force
  then have "\<not> (\<forall>q \<in> set (ra_Options ra). packable (snd q))" by (metis (mono_tags) in_set_conv_nth length_map nth_map packable.simps(1) nth_mem)
  then have "is_Panic (packOptions (ra_Options ra))" using packOptions_decides[of "ra_Options ra"] by simp
  moreover have "ra_RouterSelectionPreference ra = ci_Preference c"
    using RouterAdvertisement_facts(1)[OF assms(7)] by (cases ra) (simp add: ra_header_def base_ra_def)
  ultimately have "is_Panic (packRA ra)"
    by (cases "preference_name (ci_Preference c)") (auto simp: packRA_def bindO_Panic_iff preference_name_not_Err)
  then have "is_Panic (interface_body os st w (c\<lparr>ci_Plugins := ps\<rparr>) k)"
    using assms(5-7) by (simp add: interface_body_def bindO_Panic_iff)
  then show ?thesis
    by (cases "interface_body os st w (c\<lparr>ci_Plugins := ps\<rparr>) k") (auto simp: interfaces_def)
qed

definition nat64_file :: raw_file where
  "nat64_file = \<lparr>file_Interfaces = [(demo_raw [''eth0''])\<lparr>rwi_Prefixes := [], rwi_RDNSS := [],
     rwi_PREF64 := [\<lparr>rw64_Prefix = Some ''f::/96''\<rparr>]\<rparr>], file_Debug = zero_debug\<rparr>"

definition nat64_config :: "config \<times> ptr" where
  "nat64_config = (case Parse demo_ndp (\<lambda>_. Ok ()) (Ok nat64_file) 1 5 of Ok r \<Rightarrow> r | _ \<Rightarrow> undefined)"

definition nat64_first :: interface_config where
  "nat64_first = hd (cfg_Interfaces (fst nat64_config))"

definition nat64_prepared :: interface_config where
  "nat64_prepared = nat64_first\<lparr>ci_Plugins :=
     (case prepare_plugins eth0 (ci_Plugins nat64_first) of Ok ps \<Rightarrow> ps | _ \<Rightarrow> [])\<rparr>"

lemma nat64_checks:
  "is_Ok (Parse demo_ndp (\<lambda>_. Ok ()) (Ok nat64_file) 1 5) \<and> length (cfg_Interfaces (fst nat64_config)) = 1 \<and>
    list_ex (\<lambda>p. case p of PREF64P _ \<Rightarrow> True | _ \<Rightarrow> False) (ci_Plugins nat64_first) \<and> ci_Advertise nat64_first \<and>
    is_Ok (RouterAdvertisement_of (host host_addrs 5) nat64_prepared False 7)"
  by code_simp

theorem http_panics_on_pref64_witness:
  "is_Panic (interfaces (host host_addrs 5) TestState demo_test_state [nat64_prepared] 7)"
proof -
  have parse: "Parse demo_ndp (\<lambda>_. Ok ()) (Ok nat64_file) 1 5 = Ok (fst nat64_config, snd nat64_config)"
    using nat64_checks by (auto simp: nat64_config_def is_Ok_iff)
  have c: "nat64_first \<in> set (cfg_Interfaces (fst nat64_config))"
    using nat64_checks unfolding nat64_first_def by (cases "cfg_Interfaces (fst nat64_config)") auto
  obtain p where p: "PREF64P p \<in> set (ci_Plugins nat64_first)"
  proof -
    obtain x where "x \<in> set (ci_Plugins nat64_first)" "case x of PREF64P _ \<Rightarrow> True | _ \<Rightarrow> False"
      using nat64_checks unfolding list_ex_iff by blast
    then show thesis using that by - (cases x, simp_all)
  qed
  obtain ps where ps: "prepare_plugins eth0 (ci_Plugins nat64_first) = Ok ps" using prepare_plugins_Ok by blast
  have d: "nat64_prepared = nat64_first\<lparr>ci_Plugins := ps\<rparr>" by (simp add: nat64_prepared_def ps)
  obtain ra ms k where ra: "RouterAdvertisement_of (host host_addrs 5) (nat64_first\<lparr>ci_Plugins := ps\<rparr>) False 7 = Ok (ra, ms, k)"
    using nat64_checks unfolding d by (auto simp: is_Ok_iff)
  have fwd: "st_IPv6Forwarding TestState demo_test_state (ci_Name nat64_first) = Ok False"
    by (simp add: TestState_def test_IPv6Forwarding_def demo_test_state_def with_error_def)
  show ?thesis
    unfolding d using nat64_checks by (intro http_panics_on_pref64[OF parse c p ps _ fwd ra]) blast
qed


section \<open>Shutdown\<close>

text \<open>
  C7: the signal decides how an advertiser leaves: a hangup announces a restart and sends nothing, any
  other signal sends a last advertisement to all nodes with a router lifetime of zero and the usual
  options, unless the interface is unicast-only or the send fails.
\<close>

theorem signal_shutdown:
  assumes "signalTask_Run (Some sig) sv = (cancel, sv')" and "shutdown env a (terminate sv') s = (r, s')"
  shows "cancel \<and>
    (if sig = SIGHUP \<or> ci_UnicastOnly (adv_cfg a) \<or>
        fst (send env IPv6LinkLocalAllNodes ((adv_cfg a)\<lparr>ci_DefaultLifetime := 0\<rparr>) s) \<noteq> Ok ()
     then av_Sent s' = av_Sent s
     else \<exists>ra. av_Sent s' = av_Sent s @ [(ra, IPv6LinkLocalAllNodes)] \<and> ra_RouterLifetime ra = 0 \<and>
       advertised_options env (adv_cfg a) ra)"
proof -
  let ?cfg = "(adv_cfg a)\<lparr>ci_DefaultLifetime := 0\<rparr>"
  obtain q s1 where q: "send env IPv6LinkLocalAllNodes ?cfg s = (q, s1)" by fastforce
  have t: "cancel" "terminate sv' \<longleftrightarrow> sig \<noteq> SIGHUP"
    using assms(1) by (auto simp: signalTask_Run_def terminate_def terminator_set_def isTerminal_def)
  have s': "sig = SIGHUP \<and> s' = s \<or> sig \<noteq> SIGHUP \<and> s' = s1"
    using assms(2) q t(2) by (auto simp: shutdown_def split: if_splits outcome.splits)
  have mc: "IsMulticast IPv6LinkLocalAllNodes" by (simp add: IPv6LinkLocalAllNodes_def)
  have lt: "ra_RouterLifetime ra = 0" "advertised_options env (adv_cfg a) ra"
    if "advertised_header env ?cfg ra" "advertised_options env ?cfg ra" for ra
    using that advertised_lifetime[OF that(1)] by (auto simp: effective_lifetime_def advertised_options_def)
  show ?thesis
  proof (cases "sig = SIGHUP \<or> ci_UnicastOnly (adv_cfg a) \<or> q \<noteq> Ok ()")
    case True
    then have "av_Sent s' = av_Sent s" using s' send_spec(3)[OF q] mc by auto
    then show ?thesis using True t(1) q by simp
  next
    case False
    then have "av_Sent s1 \<noteq> av_Sent s" using send_spec(4)[OF q] by auto
    then obtain ra where "av_Sent s1 = av_Sent s @ [(ra, IPv6LinkLocalAllNodes)]" "advertised_header env ?cfg ra"
        "advertised_options env ?cfg ra"
      using send_spec(3)[OF q] by blast
    then show ?thesis using lt False s' t(1) q by auto
  qed
qed

lemma demo_last_send:
  "fst (send demo_env IPv6LinkLocalAllNodes (demo_prepared\<lparr>ci_DefaultLifetime := 0\<rparr>) demo_state) = Ok () \<and>
    \<not> ci_UnicastOnly demo_prepared"
  by code_simp

theorem signal_shutdown_witness:
  "\<exists>ra. av_Sent (snd (shutdown demo_env (NewAdvertiser demo_prepared) (terminate (terminator_set SIGTERM NewServer)) demo_state)) =
      av_Sent demo_state @ [(ra, IPv6LinkLocalAllNodes)] \<and> ra_RouterLifetime ra = 0 \<and>
      advertised_options demo_env (adv_cfg (NewAdvertiser demo_prepared)) ra"
proof -
  have "signalTask_Run (Some SIGTERM) NewServer = (True, terminator_set SIGTERM NewServer)"
    by (simp add: signalTask_Run_def)
  moreover have "adv_cfg (NewAdvertiser demo_prepared) = demo_prepared" by (simp add: NewAdvertiser_def)
  ultimately show ?thesis
    using signal_shutdown[OF _ prod.collapse[symmetric], where sig = SIGTERM and sv = NewServer and cancel = True
        and sv' = "terminator_set SIGTERM NewServer" and env = demo_env and a = "NewAdvertiser demo_prepared"
        and s = demo_state] demo_last_send
    by auto
qed


section \<open>From the configuration to the wire\<close>

text \<open>
  C5: whatever the goroutines of an advertiser of a parsed configuration send, in any order and for any
  answers of the kernel, keeps the limits the code enforces: the router lifetime is zero or between the
  maximum interval and 9000 seconds, the timers are at most an hour and the preference is a named one;
  prefixes are canonical IPv6 networks, no single addresses, with a preferred lifetime that does not
  exceed the valid one; routes are IPv6 with a named preference, servers are IPv6, no list is empty, an
  MTU is between 1 and 65536, and the lifetime of a NAT64 prefix is a positive multiple of 8 seconds of
  at most 65528 seconds.  Of the other lifetimes it says nothing, since a negative one passes the
  parser, nor of the family of a NAT64 prefix.  The message is an advertisement of the configuration as
  generated at some moment, and in unicast-only mode nothing goes to a multicast address.
\<close>

theorem sent_within_limits:
  assumes "Parse ndp resolve decoded epoch h = Ok (cfg, h')" and "c \<in> set (cfg_Interfaces cfg)" and "\<not> ci_Monitor c"
    and "prepare_plugins ifi (ci_Plugins c) = Ok ps" and "adv_cfg a = c\<lparr>ci_Plugins := ps\<rparr>"
    and "advertise_reaches W a (advertise_start a now st) s"
    and "(ra, dst) \<in> set (av_Sent (sy_State s))" and "(ra, dst) \<notin> set (av_Sent st)"
  shows "within_limits c ra \<and>
    (\<exists>env. aw_Env W env \<and> advertised_header env (adv_cfg a) ra \<and> advertised_options env (adv_cfg a) ra) \<and>
    \<not> (ci_UnicastOnly c \<and> IsMulticast dst)"
proof -
  have "sy_State (advertise_start a now st) = st" by (simp add: advertise_start_def)
  then have m: "configured_message W (adv_cfg a) (ra, dst)" using sent_configured[OF assms(6)] assms(7,8) by auto
  then obtain env where env: "aw_Env W env" "advertised_header env (adv_cfg a) ra" "advertised_options env (adv_cfg a) ra"
    by (auto simp: configured_message_def)
  have cfg: "adv_cfg a = c\<lparr>ci_Plugins := ps, ci_DefaultLifetime := ci_DefaultLifetime c\<rparr>" by (simp add: assms(5))
  have "interface_wf ndp epoch c" using Parse_ok[OF assms(1)] assms(2) by (simp add: interface_ok_def)
  then have "within_limits c ra"
    using advertised_within_limits[OF _ assms(3,4) disjI1[OF refl]] env(2,3) unfolding cfg by blast
  then show ?thesis using m env assms(5) by (auto simp: configured_message_def)
qed

lemma demo_first_send:
  "\<exists>ra st. sendWorker demo_env demo_prepared IPv6LinkLocalAllNodes demo_state = (Ok (), st) \<and>
     av_Sent st = [(ra, IPv6LinkLocalAllNodes)]"
proof -
  obtain ra st where b: "buildRA demo_env demo_prepared demo_state = (Ok ra, st)"
    using demo_prepared_checks by (cases "buildRA demo_env demo_prepared demo_state") (auto simp: is_Ok_iff)
  have "\<not> ci_UnicastOnly demo_prepared" "ae_WriteTo demo_env ra dst = Ok ()" "av_Sent st = []" for dst
    using demo_last_send buildRA_facts(3)[OF b] by (simp_all add: demo_env_def demo_state_def)
  then show ?thesis by (simp add: sendWorker_def send_def b Let_def metric_add_def)
qed

theorem sent_within_limits_witness:
  "\<exists>s ra dst. advertise_reaches demo_world (NewAdvertiser demo_prepared)
      (advertise_start (NewAdvertiser demo_prepared) 0 demo_state) s \<and>
    av_Sent (sy_State s) = [(ra, dst)] \<and> within_limits demo_first ra"
proof -
  let ?a = "NewAdvertiser demo_prepared"
  have a: "adv_cfg ?a = demo_prepared" by (simp add: NewAdvertiser_def)
  obtain ps where ps: "prepare_plugins eth0 (ci_Plugins demo_first) = Ok ps" using prepare_plugins_Ok by blast
  have cfg: "adv_cfg ?a = demo_first\<lparr>ci_Plugins := ps\<rparr>"
    by (simp add: NewAdvertiser_def demo_prepared_def ps)
  obtain ra st where w: "sendWorker demo_env (adv_cfg ?a) IPv6LinkLocalAllNodes demo_state = (Ok (), st)"
      "av_Sent st = [(ra, IPv6LinkLocalAllNodes)]"
    using demo_first_send unfolding a by blast
  have "\<not> ci_UnicastOnly (adv_cfg ?a)" "aw_Env demo_world demo_env"
    using demo_last_send by (simp_all add: a demo_world_def)
  from first_multicast[OF this w(1), of 0] w(2) obtain s
    where s: "advertise_reaches demo_world ?a (advertise_start ?a 0 demo_state) s"
      "av_Sent (sy_State s) = [(ra, IPv6LinkLocalAllNodes)]"
    by auto
  have "av_Sent demo_state = []" by (simp add: demo_state_def)
  then have "within_limits demo_first ra"
    using sent_within_limits[OF demo_parse demo_first_mem demo_first_advertises ps cfg s(1), of ra IPv6LinkLocalAllNodes] s(2)
    by simp
  then show ?thesis using s by blast
qed

end
